(* ===== verification/Geneza_Prelude.thy ===== *)
theory Geneza_Prelude
  imports Main "HOL-Library.Monad_Syntax"
begin

text \<open>
  Shared vocabulary of the development: the types that stand for Go's basic types, the
  error-as-value sequencing used by every handler, the collections of rewrite rules, and the two
  interfaces (locales) that several components implement: a state machine with an invariant and a
  versioned store that never moves backwards.

  Go's \<open>string\<close> and \<open>[]byte\<close> are byte sequences; HOL's \<^typ>\<open>char\<close> is an 8-bit byte, so both are
  \<^typ>\<open>char list\<close> here and the conversions between them are the identity.  A \<open>time.Time\<close> is the
  number of nanoseconds since Go's zero time (1 January of year 1, UTC), so \<open>IsZero\<close> is
  \<open>t = 0\<close>, \<open>Before\<close> and \<open>After\<close> are \<open><\<close>.  A \<open>time.Duration\<close> is a number of nanoseconds.
\<close>

type_synonym bytes = "char list"
type_synonym gotime = int
type_synonym duration = int

subsection \<open>Collections\<close>

named_theorems handler_defs \<open>defining equations of handlers, unfolded by the component proofs\<close>
named_theorems errE \<open>elimination and characterisation of successful results\<close>

subsection \<open>Time\<close>

definition second :: duration where "second = 1000000000"
definition minute :: duration where "minute = 60 * second"
definition hour :: duration where "hour = 60 * minute"

lemma second_pos [simp]: "0 < second" by (simp add: second_def)

lemma minute_pos [simp]: "0 < minute" by (simp add: minute_def)

lemma hour_pos [simp]: "0 < hour" by (simp add: hour_def)

text \<open>Seconds between Go's zero time and the Unix epoch.\<close>

definition unix_offset :: int where "unix_offset = 62135596800"

definition time_Unix :: "int \<Rightarrow> gotime" where
  "time_Unix s = (s + unix_offset) * second"

definition Time_Unix :: "gotime \<Rightarrow> int" where
  "Time_Unix t = t div second - unix_offset"

lemma Time_Unix_time_Unix [simp]: "Time_Unix (time_Unix s) = s"
  by (simp add: Time_Unix_def time_Unix_def second_def)

lemma time_Unix_le_iff [simp]: "time_Unix a \<le> time_Unix b \<longleftrightarrow> a \<le> b"
  by (simp add: time_Unix_def second_def)

lemma time_Unix_less_iff [simp]: "time_Unix a < time_Unix b \<longleftrightarrow> a < b"
  by (simp add: time_Unix_def second_def)

lemma Time_Unix_mono: "s \<le> t \<Longrightarrow> Time_Unix s \<le> Time_Unix t"
  unfolding Time_Unix_def second_def by (simp add: zdiv_mono1)

definition millisecond :: duration where "millisecond = 1000000"

definition time_UnixMilli :: "int \<Rightarrow> gotime" where
  "time_UnixMilli ms = (ms + unix_offset * 1000) * millisecond"

definition Time_UnixMilli :: "gotime \<Rightarrow> int" where
  "Time_UnixMilli t = t div millisecond - unix_offset * 1000"

lemma time_UnixMilli_bounds:
  "time_UnixMilli (Time_UnixMilli t) \<le> t" "t < time_UnixMilli (Time_UnixMilli t) + millisecond"
  by (simp_all add: time_UnixMilli_def Time_UnixMilli_def millisecond_def)

subsection \<open>Signed 64-bit integers\<close>

text \<open>Two's-complement wrap-around of Go's \<open>int64\<close>.\<close>

definition i64 :: "int \<Rightarrow> int" where
  "i64 x = (x + 2 ^ 63) mod 2 ^ 64 - 2 ^ 63"

definition i64_range :: "int \<Rightarrow> bool" where
  "i64_range x \<longleftrightarrow> - (2 ^ 63) \<le> x \<and> x < 2 ^ 63"

lemma i64_id [simp]: "i64_range x \<Longrightarrow> i64 x = x"
  by (simp add: i64_def i64_range_def)

lemma i64_in_range [simp]: "i64_range (i64 x)"
  by (simp add: i64_def i64_range_def)

lemma i64_Suc: "i64_range x \<Longrightarrow> x \<noteq> 2 ^ 63 - 1 \<Longrightarrow> i64 (x + 1) = x + 1"
  by (rule i64_id) (auto simp: i64_range_def)

subsection \<open>Errors as values\<close>

text \<open>\<open>Inl\<close> carries the error of an early return, \<open>Inr\<close> the value handed on.\<close>

definition bindE :: "'e + 'a \<Rightarrow> ('a \<Rightarrow> 'e + 'b) \<Rightarrow> 'e + 'b" where
  "bindE r k = (case r of Inl e \<Rightarrow> Inl e | Inr a \<Rightarrow> k a)"

definition checkE :: "bool \<Rightarrow> 'e \<Rightarrow> 'e + unit" where
  "checkE ok e = (if ok then Inr () else Inl e)"

definition mapE :: "('e \<Rightarrow> 'f) \<Rightarrow> 'e + 'a \<Rightarrow> 'f + 'a" where
  "mapE f r = (case r of Inl e \<Rightarrow> Inl (f e) | Inr a \<Rightarrow> Inr a)"

definition okE :: "'e + 'a \<Rightarrow> bool" where
  "okE r = (case r of Inl _ \<Rightarrow> False | Inr _ \<Rightarrow> True)"

lemma bindE_simps [simp]:
  "bindE (Inl e) k = Inl e"
  "bindE (Inr a) k = k a"
  by (simp_all add: bindE_def)

lemma bindE_eq_Inr [errE]:
  "bindE r k = Inr b \<longleftrightarrow> (\<exists>a. r = Inr a \<and> k a = Inr b)"
  by (cases r) auto

lemma bindE_eq_Inl:
  "bindE r k = Inl e \<longleftrightarrow> r = Inl e \<or> (\<exists>a. r = Inr a \<and> k a = Inl e)"
  by (cases r) auto

lemma ex_unit: "(\<exists>u :: unit. P u) \<longleftrightarrow> P ()"
  by auto

lemma checkE_eq_Inr [errE]: "checkE ok e = Inr u \<longleftrightarrow> ok"
  by (simp add: checkE_def)

lemma checkE_eq_Inl [errE]: "checkE ok e = Inl e' \<longleftrightarrow> \<not> ok \<and> e' = e"
  by (auto simp: checkE_def)

lemma checkE_simps [simp]:
  "checkE True e = Inr ()"
  "checkE False e = Inl e"
  by (simp_all add: checkE_def)

lemma mapE_eq_Inr [errE]: "mapE f r = Inr a \<longleftrightarrow> r = Inr a"
  by (cases r) (simp_all add: mapE_def)

lemma mapE_simps [simp]:
  "mapE f (Inl e) = Inl (f e)"
  "mapE f (Inr a) = Inr a"
  by (simp_all add: mapE_def)

lemma okE_simps [simp]:
  "\<not> okE (Inl e)"
  "okE (Inr a)"
  by (simp_all add: okE_def)

lemma okE_iff: "okE r \<longleftrightarrow> (\<exists>a. r = Inr a)"
  by (cases r) auto

subsection \<open>Association lists built by a Go loop over a slice\<close>

text \<open>
  \<open>m := map[..]..{}; for _, k := range ks { m[key(k)] = val(k) }\<close>: a later entry for the same key
  overwrites an earlier one.
\<close>

definition map_of_range :: "('a \<Rightarrow> 'k) \<Rightarrow> ('a \<Rightarrow> 'v) \<Rightarrow> 'a list \<Rightarrow> ('k \<rightharpoonup> 'v)" where
  "map_of_range key val xs = foldl (\<lambda>m x. m(key x \<mapsto> val x)) Map.empty xs"

lemma map_of_range_Nil [simp]: "map_of_range key val [] = Map.empty"
  by (simp add: map_of_range_def)

lemma map_of_range_snoc [simp]:
  "map_of_range key val (xs @ [x]) = (map_of_range key val xs)(key x \<mapsto> val x)"
  by (simp add: map_of_range_def)

lemma map_of_range_SomeD:
  "map_of_range key val xs k = Some v \<Longrightarrow> \<exists>x \<in> set xs. key x = k \<and> val x = v"
  by (induction xs rule: rev_induct) (auto split: if_splits)

lemma dom_map_of_range: "dom (map_of_range key val xs) = key ` set xs"
proof (induction xs rule: rev_induct)
  case Nil
  show ?case by simp
next
  case (snoc x xs)
  then show ?case unfolding map_of_range_snoc dom_fun_upd by simp
qed

lemma map_of_range_distinct:
  "distinct (map key xs) \<Longrightarrow> x \<in> set xs \<Longrightarrow> map_of_range key val xs (key x) = Some (val x)"
  by (induction xs rule: rev_induct) (auto, metis image_eqI)

subsection \<open>A state machine with an invariant\<close>

text \<open>
  The contract of a component whose operations all keep its invariant: any sequence of
  operations, in any order, keeps it.
\<close>

locale step_system =
  fixes step :: "'s \<Rightarrow> 'e \<Rightarrow> 's"
    and inv :: "'s \<Rightarrow> bool"
  assumes step_inv: "inv s \<Longrightarrow> inv (step s e)"
begin

lemma run_inv: "inv s \<Longrightarrow> inv (foldl step s es)"
  by (induction es arbitrary: s) (auto intro: step_inv)

lemma prefix_inv: "inv s \<Longrightarrow> inv (foldl step s (take n es))"
  by (rule run_inv)

end

subsection \<open>A versioned store that never moves backwards\<close>

text \<open>
  Rollback protection: every message is applied or ignored, and the version held after it is at
  least the version held before it.
\<close>

locale versioned =
  fixes step :: "'s \<Rightarrow> 'm \<Rightarrow> 's"
    and ver :: "'s \<Rightarrow> int"
  assumes ver_step: "ver s \<le> ver (step s m)"
begin

lemma ver_run: "ver s \<le> ver (foldl step s ms)"
proof (induction ms arbitrary: s)
  case Nil
  show ?case by simp
next
  case (Cons m ms)
  have "ver s \<le> ver (step s m)" by (rule ver_step)
  also have "\<dots> \<le> ver (foldl step (step s m) ms)" by (rule Cons.IH)
  finally show ?case by simp
qed

lemma ver_run_prefix: "m \<le> n \<Longrightarrow> ver (foldl step s (take m ms)) \<le> ver (foldl step s (take n ms))"
proof -
  assume "m \<le> n"
  then have "take n ms = take m ms @ take (n - m) (drop m ms)"
    by (metis le_add_diff_inverse take_add)
  then show ?thesis
    using ver_run [of "foldl step s (take m ms)" "take (n - m) (drop m ms)"] by simp
qed

end

text \<open>
  Replay protection: a message stamped with a version that is not above the held one changes
  nothing, and a message that changes anything leaves its own stamp as the held version.
\<close>

locale anti_replay = versioned step ver
  for step :: "'s \<Rightarrow> 'm \<Rightarrow> 's" and ver :: "'s \<Rightarrow> int" +
  fixes stamp :: "'m \<Rightarrow> int"
  assumes stale_ignored: "stamp m \<le> ver s \<Longrightarrow> step s m = s"
    and applied_stamps: "step s m \<noteq> s \<Longrightarrow> ver (step s m) = stamp m"
begin

lemma replay_ignored:
  assumes "step s m \<noteq> s"
  shows "step (foldl step (step s m) ms) m = foldl step (step s m) ms"
proof (rule stale_ignored)
  have "stamp m = ver (step s m)" using applied_stamps [OF assms] by simp
  also have "\<dots> \<le> ver (foldl step (step s m) ms)" by (rule ver_run)
  finally show "stamp m \<le> ver (foldl step (step s m) ms)" .
qed

lemma applied_increases: "step s m \<noteq> s \<Longrightarrow> ver s < ver (step s m)"
  using applied_stamps [of s m] stale_ignored [of m s] by fastforce

end

end
