(* ===== verification/Envelope.thy ===== *)
theory Envelope
  imports Geneza_Prelude
begin

text \<open>
  The detached-signature envelopes of \<open>internal/types/signed.go\<close> and
  \<open>internal/types/multisigned.go\<close>: \<open>Sign\<close>, \<open>Verify\<close>, \<open>VerifyOne\<close>, \<open>SignOne\<close>,
  \<open>VerifyMultiSig\<close> and the domain separation of \<open>signingInput\<close>.

  The cryptographic primitives and the JSON codec are parameters: \<open>ed25519_Verify\<close> and
  \<open>sha256_Sum256\<close> are fields of the record \<open>crypto\<close>, a \<open>crypto.Signer\<close> is a function from the
  message to a signature or an error, and \<open>json.Marshal\<close>/\<open>json.Unmarshal\<close> at a payload type are
  functions handed to the operation that uses them.
\<close>

section \<open>Parameters and data\<close>

record crypto =
  ed25519_Verify :: "bytes \<Rightarrow> bytes \<Rightarrow> bytes \<Rightarrow> bool" \<comment> \<open>public key, message, signature\<close>
  sha256_Sum256 :: "bytes \<Rightarrow> bytes"

type_synonym signer = "bytes \<Rightarrow> bytes option"
type_synonym keyset = "string \<rightharpoonup> bytes"

abbreviation PublicKeySize :: nat where "PublicKeySize \<equiv> 32"
abbreviation SignatureSize :: nat where "SignatureSize \<equiv> 64"

record Signed =
  s_Payload :: bytes
  s_Sig :: bytes
  s_KeyID :: string

record OneSig =
  os_KeyID :: string
  os_Sig :: bytes

record MultiSigned =
  ms_Payload :: bytes
  ms_Sigs :: "OneSig list"

datatype env_error =
    ErrNilEnvelope
  | ErrUnknownKey string
  | ErrBadSignature
  | ErrUnmarshal
  | ErrMarshal
  | ErrSigner
  | ErrSignerSize nat
  | ErrQuorum nat int
  | ErrDecodeEnvelope

text \<open>The domain-separation contexts of \<open>internal/defaults/defaults.go\<close>.\<close>

definition ContextGrant :: string where "ContextGrant = ''grant''"
definition ContextClusterConfig :: string where "ContextClusterConfig = ''cluster-config''"
definition ContextManifest :: string where "ContextManifest = ''artifact-manifest''"
definition ContextRootKeys :: string where "ContextRootKeys = ''artifact-root''"
definition ContextTrustAnchors :: string where "ContextTrustAnchors = ''trust-anchors''"
definition ContextRoutineMap :: string where "ContextRoutineMap = ''routine-map''"
definition ContextSessionPolicy :: string where "ContextSessionPolicy = ''session-policy''"

lemmas context_defs =
  ContextGrant_def ContextClusterConfig_def ContextManifest_def ContextRootKeys_def
  ContextTrustAnchors_def ContextRoutineMap_def ContextSessionPolicy_def

definition all_contexts :: "string list" where
  "all_contexts =
     [ContextGrant, ContextClusterConfig, ContextManifest, ContextRootKeys,
      ContextTrustAnchors, ContextRoutineMap, ContextSessionPolicy]"

section \<open>Operations\<close>

definition signingInput :: "string \<Rightarrow> bytes \<Rightarrow> bytes" where
  "signingInput ctx payload = (''geneza:'' @ ctx @ '':'') @ payload"

definition Sign ::
    "signer \<Rightarrow> string \<Rightarrow> string \<Rightarrow> ('p \<Rightarrow> bytes option) \<Rightarrow> 'p \<Rightarrow> env_error + Signed" where
  "Sign signer keyID ctx marshal payloadObj =
     (case marshal payloadObj of
        None \<Rightarrow> Inl ErrMarshal
      | Some payload \<Rightarrow>
          (case signer (signingInput ctx payload) of
             None \<Rightarrow> Inl ErrSigner
           | Some sig \<Rightarrow>
               if length sig \<noteq> SignatureSize then Inl (ErrSignerSize (length sig))
               else Inr \<lparr>s_Payload = payload, s_Sig = sig, s_KeyID = keyID\<rparr>))"

text \<open>\<open>out\<close> is the unmarshaller at the caller's type, \<open>None\<close> for a nil \<open>out\<close>.\<close>

definition unmarshal_into :: "(bytes \<Rightarrow> 'p option) option \<Rightarrow> bytes \<Rightarrow> env_error + 'p option" where
  "unmarshal_into out payload =
     (case out of
        None \<Rightarrow> Inr None
      | Some unmarshal \<Rightarrow>
          (case unmarshal payload of None \<Rightarrow> Inl ErrUnmarshal | Some p \<Rightarrow> Inr (Some p)))"

definition Verify ::
    "crypto \<Rightarrow> keyset \<Rightarrow> string \<Rightarrow> Signed option \<Rightarrow> (bytes \<Rightarrow> 'p option) option
       \<Rightarrow> env_error + string \<times> 'p option" where
  "Verify c trusted ctx s out =
     (case s of
        None \<Rightarrow> Inl ErrNilEnvelope
      | Some s \<Rightarrow>
          (case trusted (s_KeyID s) of
             None \<Rightarrow> Inl (ErrUnknownKey (s_KeyID s))
           | Some pub \<Rightarrow>
               if length pub \<noteq> PublicKeySize \<or> length (s_Sig s) \<noteq> SignatureSize
               then Inl ErrBadSignature
               else if \<not> ed25519_Verify c pub (signingInput ctx (s_Payload s)) (s_Sig s)
               then Inl ErrBadSignature
               else bindE (unmarshal_into out (s_Payload s)) (\<lambda>p. Inr (s_KeyID s, p))))"

definition VerifyOne ::
    "crypto \<Rightarrow> bytes \<Rightarrow> string \<Rightarrow> string \<Rightarrow> Signed option \<Rightarrow> (bytes \<Rightarrow> 'p option) option
       \<Rightarrow> env_error + 'p option" where
  "VerifyOne c pub keyID ctx s out =
     (case s of
        None \<Rightarrow> Inl ErrNilEnvelope
      | Some s \<Rightarrow>
          if length pub \<noteq> PublicKeySize \<or> length (s_Sig s) \<noteq> SignatureSize
          then Inl ErrBadSignature
          else if keyID \<noteq> '''' \<and> s_KeyID s \<noteq> keyID then Inl (ErrUnknownKey (s_KeyID s))
          else if \<not> ed25519_Verify c pub (signingInput ctx (s_Payload s)) (s_Sig s)
          then Inl ErrBadSignature
          else unmarshal_into out (s_Payload s))"

definition DecodeSigned :: "(bytes \<Rightarrow> Signed option) \<Rightarrow> bytes \<Rightarrow> env_error + Signed" where
  "DecodeSigned unmarshal b =
     (case unmarshal b of None \<Rightarrow> Inl ErrDecodeEnvelope | Some s \<Rightarrow> Inr s)"

definition SignOne :: "signer \<Rightarrow> string \<Rightarrow> string \<Rightarrow> bytes \<Rightarrow> env_error + OneSig" where
  "SignOne signer keyID ctx payload =
     (case signer (signingInput ctx payload) of
        None \<Rightarrow> Inl ErrSigner
      | Some sig \<Rightarrow>
          if length sig \<noteq> SignatureSize then Inl (ErrSignerSize (length sig))
          else Inr \<lparr>os_KeyID = keyID, os_Sig = sig\<rparr>)"

text \<open>The counting loop of \<open>VerifyMultiSig\<close>: \<open>seen\<close> and \<open>valid\<close> are its two variables.\<close>

fun count_valid :: "crypto \<Rightarrow> keyset \<Rightarrow> bytes \<Rightarrow> OneSig list \<Rightarrow> string set \<Rightarrow> nat \<Rightarrow> nat" where
  "count_valid c trusted input [] seen valid = valid"
| "count_valid c trusted input (one # sigs) seen valid =
     (if os_KeyID one \<in> seen then count_valid c trusted input sigs seen valid
      else case trusted (os_KeyID one) of
          None \<Rightarrow> count_valid c trusted input sigs seen valid
        | Some pub \<Rightarrow>
            if length pub \<noteq> PublicKeySize \<or> length (os_Sig one) \<noteq> SignatureSize
            then count_valid c trusted input sigs seen valid
            else if \<not> ed25519_Verify c pub input (os_Sig one)
            then count_valid c trusted input sigs seen valid
            else count_valid c trusted input sigs (insert (os_KeyID one) seen) (valid + 1))"

definition VerifyMultiSig ::
    "crypto \<Rightarrow> keyset \<Rightarrow> int \<Rightarrow> string \<Rightarrow> MultiSigned option \<Rightarrow> (bytes \<Rightarrow> 'p option) option
       \<Rightarrow> env_error + bytes \<times> 'p option" where
  "VerifyMultiSig c trusted threshold ctx s out =
     (case s of
        None \<Rightarrow> Inl ErrNilEnvelope
      | Some s \<Rightarrow>
          let want = (if threshold < 1 then 1 else threshold);
              input = signingInput ctx (ms_Payload s);
              valid = count_valid c trusted input (ms_Sigs s) {} 0
          in if int valid < want then Inl (ErrQuorum valid want)
             else bindE (unmarshal_into out (ms_Payload s)) (\<lambda>p. Inr (ms_Payload s, p)))"

section \<open>Domain separation\<close>

lemma split_at_colon:
  "CHR '':'' \<notin> set c \<Longrightarrow> CHR '':'' \<notin> set c' \<Longrightarrow>
   c @ CHR '':'' # p = c' @ CHR '':'' # p' \<Longrightarrow> c = c' \<and> p = p'"
proof (induction c arbitrary: c')
  case Nil
  then show ?case by (cases c') auto
next
  case (Cons x c)
  then show ?case by (cases c') auto
qed

lemma signingInput_inject:
  assumes "CHR '':'' \<notin> set ctx" and "CHR '':'' \<notin> set ctx'"
    and "signingInput ctx p = signingInput ctx' p'"
  shows "ctx = ctx' \<and> p = p'"
  using split_at_colon [OF assms(1,2), of p p'] assms(3) by (simp add: signingInput_def)

lemma all_contexts_colon_free: "ctx \<in> set all_contexts \<Longrightarrow> CHR '':'' \<notin> set ctx"
  by (auto simp: all_contexts_def context_defs)

lemma all_contexts_distinct: "distinct all_contexts"
  by (simp add: all_contexts_def context_defs)

lemma signing_contexts_separated_aux:
  assumes "ctx \<in> set all_contexts" and "ctx' \<in> set all_contexts" and "ctx' \<noteq> ctx"
  shows "signingInput ctx' p \<noteq> signingInput ctx p'"
  using signingInput_inject [OF all_contexts_colon_free all_contexts_colon_free] assms by blast

section \<open>Characterisation of acceptance\<close>

lemma unmarshal_into_None [simp]: "unmarshal_into None b = Inr None"
  by (simp add: unmarshal_into_def)

lemma unmarshal_into_Some [errE]:
  "unmarshal_into (Some u) b = Inr p \<longleftrightarrow> (\<exists>v. u b = Some v \<and> p = Some v)"
  by (auto simp: unmarshal_into_def split: option.splits)

lemma DecodeSigned_Inr [errE]: "DecodeSigned u b = Inr s \<longleftrightarrow> u b = Some s"
  by (auto simp: DecodeSigned_def split: option.splits)

text \<open>A signature that counts: by a trusted key, of the right sizes, over the exact input.\<close>

definition sig_valid :: "crypto \<Rightarrow> keyset \<Rightarrow> bytes \<Rightarrow> string \<Rightarrow> bytes \<Rightarrow> bool" where
  "sig_valid c trusted input keyID sig \<longleftrightarrow>
     (case trusted keyID of
        None \<Rightarrow> False
      | Some pub \<Rightarrow> length pub = PublicKeySize \<and> length sig = SignatureSize \<and>
                    ed25519_Verify c pub input sig)"

lemma sig_valid_iff:
  "sig_valid c trusted input keyID sig \<longleftrightarrow>
     (\<exists>pub. trusted keyID = Some pub \<and> length pub = PublicKeySize \<and>
        length sig = SignatureSize \<and> ed25519_Verify c pub input sig)"
  by (auto simp: sig_valid_def split: option.splits)

lemma Verify_accepts_iff [errE]:
  "Verify c trusted ctx s (Some u) = Inr (k, p) \<longleftrightarrow>
     (\<exists>env v. s = Some env \<and> k = s_KeyID env \<and> p = Some v \<and> u (s_Payload env) = Some v \<and>
        sig_valid c trusted (signingInput ctx (s_Payload env)) k (s_Sig env))"
  by (auto simp: Verify_def sig_valid_def errE split: option.splits if_splits)

definition valid_signers :: "crypto \<Rightarrow> keyset \<Rightarrow> bytes \<Rightarrow> OneSig list \<Rightarrow> string set" where
  "valid_signers c trusted input sigs =
     {os_KeyID one | one. one \<in> set sigs \<and> sig_valid c trusted input (os_KeyID one) (os_Sig one)}"

lemma valid_signers_Nil [simp]: "valid_signers c trusted input [] = {}"
  by (simp add: valid_signers_def)

lemma valid_signers_Cons:
  "valid_signers c trusted input (one # sigs) =
     (if sig_valid c trusted input (os_KeyID one) (os_Sig one)
      then insert (os_KeyID one) (valid_signers c trusted input sigs)
      else valid_signers c trusted input sigs)"
  by (auto simp: valid_signers_def)

lemma finite_valid_signers [simp]: "finite (valid_signers c trusted input sigs)"
  by (induction sigs) (simp_all add: valid_signers_Cons)

lemma count_valid_step:
  "count_valid c trusted input (one # sigs) seen n =
     (if os_KeyID one \<notin> seen \<and> sig_valid c trusted input (os_KeyID one) (os_Sig one)
      then count_valid c trusted input sigs (insert (os_KeyID one) seen) (n + 1)
      else count_valid c trusted input sigs seen n)"
  by (auto simp: sig_valid_def split: option.splits)

lemma count_valid_card:
  "count_valid c trusted input sigs seen n = n + card (valid_signers c trusted input sigs - seen)"
proof (induction sigs arbitrary: seen n)
  case Nil
  show ?case by simp
next
  case (Cons one sigs)
  let ?k = "os_KeyID one"
  let ?V = "valid_signers c trusted input sigs"
  show ?case
  proof (cases "?k \<notin> seen \<and> sig_valid c trusted input ?k (os_Sig one)")
    case True
    have "insert ?k ?V - seen = insert ?k (?V - insert ?k seen)" using True by auto
    then have "card (insert ?k ?V - seen) = Suc (card (?V - insert ?k seen))"
      by simp
    with True show ?thesis
      by (simp add: count_valid_step Cons.IH valid_signers_Cons del: count_valid.simps)
  next
    case False
    then show ?thesis
      by (auto simp: count_valid_step Cons.IH valid_signers_Cons insert_Diff_if
            simp del: count_valid.simps)
  qed
qed

lemma VerifyMultiSig_accepts_iff [errE]:
  "VerifyMultiSig c trusted threshold ctx s (Some u) = Inr (payload, p) \<longleftrightarrow>
     (\<exists>env v. s = Some env \<and> payload = ms_Payload env \<and> p = Some v \<and> u payload = Some v \<and>
        max 1 threshold \<le>
          int (card (valid_signers c trusted (signingInput ctx payload) (ms_Sigs env))))"
  by (auto simp: VerifyMultiSig_def Let_def count_valid_card errE max_def Suc_le_eq card_gt_0_iff
        split: option.splits if_splits)

lemma VerifyMultiSig_nil: "VerifyMultiSig c trusted threshold ctx None out = Inl ErrNilEnvelope"
  by (simp add: VerifyMultiSig_def)

lemma subset_valid_signers_iff:
  "K \<subseteq> valid_signers c trusted input sigs \<longleftrightarrow>
     (\<forall>k \<in> K. \<exists>one \<in> set sigs. os_KeyID one = k \<and> sig_valid c trusted input k (os_Sig one))"
  by (fastforce simp: valid_signers_def)

lemma card_le_subset_iff:
  assumes "finite V"
  shows "n \<le> int (card V) \<longleftrightarrow> (\<exists>K \<subseteq> V. n \<le> int (card K))"
  using assms by (auto dest: card_mono [OF assms])

section \<open>Properties\<close>





text \<open>
  C4: Quorum.  \<open>VerifyMultiSig\<close> accepts an envelope exactly when there is a set of at least
  \<open>threshold\<close> (and at least one) distinct key ids, each pinned in the trusted set and each with a
  valid signature over the exact payload bytes in the envelope; a key that signs twice counts once.
  The bytes returned are the verified payload.
\<close>

theorem VerifyMultiSig_quorum:
  "VerifyMultiSig c trusted threshold ctx (Some env) (Some u) = Inr (payload, Some v) \<longleftrightarrow>
     payload = ms_Payload env \<and> u payload = Some v \<and>
     (\<exists>K. finite K \<and> max 1 threshold \<le> int (card K) \<and>
        (\<forall>k \<in> K. \<exists>one \<in> set (ms_Sigs env). os_KeyID one = k \<and>
           (\<exists>pub. trusted k = Some pub \<and> length pub = PublicKeySize \<and>
              length (os_Sig one) = SignatureSize \<and>
              ed25519_Verify c pub (signingInput ctx (ms_Payload env)) (os_Sig one))))"
    (is "_ \<longleftrightarrow> _ \<and> _ \<and> (\<exists>K. _ \<and> _ \<and> ?good K)")
proof -
  let ?V = "valid_signers c trusted (signingInput ctx (ms_Payload env)) (ms_Sigs env)"
  have good: "?good K \<longleftrightarrow> K \<subseteq> ?V" for K
    by (simp only: subset_valid_signers_iff sig_valid_iff)
  have "max 1 threshold \<le> int (card ?V) \<longleftrightarrow>
        (\<exists>K. finite K \<and> max 1 threshold \<le> int (card K) \<and> K \<subseteq> ?V)"
    using card_le_subset_iff [OF finite_valid_signers, of "max 1 threshold"]
    by (metis finite_subset finite_valid_signers)
  then show ?thesis unfolding VerifyMultiSig_accepts_iff good by auto
qed

theorem VerifyMultiSig_quorum_witness:
  "VerifyMultiSig \<lparr>ed25519_Verify = (\<lambda>_ _ sig. hd sig = CHR ''g''), sha256_Sum256 = id\<rparr>
     [''a'' \<mapsto> replicate 32 CHR ''p'', ''b'' \<mapsto> replicate 32 CHR ''p''] 2 ContextTrustAnchors
     (Some \<lparr>ms_Payload = ''x'',
            ms_Sigs = [\<lparr>os_KeyID = ''a'', os_Sig = replicate 64 CHR ''x''\<rparr>,
                       \<lparr>os_KeyID = ''a'', os_Sig = replicate 64 CHR ''g''\<rparr>,
                       \<lparr>os_KeyID = ''b'', os_Sig = replicate 64 CHR ''g''\<rparr>]\<rparr>)
     (Some (\<lambda>_. Some ())) = Inr (''x'', Some ())"
  by (subst VerifyMultiSig_quorum) (auto intro!: exI [where x = "{''a'', ''b''}"])

end
