(* ===== verification/Go_Std.thy ===== *)
theory Go_Std
  imports Geneza_Prelude "HOL-Library.Char_ord" "HOL-Library.List_Lexorder" "HOL-Library.Multiset"
begin

text \<open>
  The functions of Go's standard library that the program calls on strings: byte search,
  \<open>strings.Join\<close> and \<open>strings.Split\<close> with a one-byte separator, \<open>hex.EncodeToString\<close>,
  \<open>net.SplitHostPort\<close> and \<open>net.JoinHostPort\<close>.  Go compares strings bytewise, which is the
  lexicographic order on \<^typ>\<open>char list\<close> of the imported theories, so \<open>sort.Strings\<close> is
  \<^const>\<open>sort\<close>.
\<close>

section \<open>Byte search\<close>

fun index_byte :: "char \<Rightarrow> string \<Rightarrow> nat option" where
  "index_byte c [] = None"
| "index_byte c (x # xs) = (if x = c then Some 0 else map_option Suc (index_byte c xs))"

definition last_index_byte :: "char \<Rightarrow> string \<Rightarrow> nat option" where
  "last_index_byte c xs = map_option (\<lambda>j. length xs - 1 - j) (index_byte c (rev xs))"

lemma index_byte_append [simp]: "c \<notin> set a \<Longrightarrow> index_byte c (a @ c # b) = Some (length a)"
  by (induction a) auto

lemma index_byte_None_iff [simp]: "index_byte c xs = None \<longleftrightarrow> c \<notin> set xs"
  by (induction xs) auto

lemma last_index_byte_append [simp]:
  "c \<notin> set b \<Longrightarrow> last_index_byte c (a @ c # b) = Some (length a)"
proof -
  assume "c \<notin> set b"
  then have "index_byte c (rev b @ c # rev a) = Some (length b)" by simp
  then show ?thesis by (simp add: last_index_byte_def)
qed

section \<open>Splitting and joining\<close>

fun strings_Join :: "string list \<Rightarrow> string \<Rightarrow> string" where
  "strings_Join [] sep = []"
| "strings_Join [x] sep = x"
| "strings_Join (x # y # xs) sep = x @ sep @ strings_Join (y # xs) sep"

fun split_byte :: "char \<Rightarrow> string \<Rightarrow> string list" where
  "split_byte c [] = [[]]"
| "split_byte c (x # xs) =
     (if x = c then [] # split_byte c xs
      else case split_byte c xs of [] \<Rightarrow> [[x]] | w # ws \<Rightarrow> (x # w) # ws)"

lemma split_byte_nonempty [simp]: "split_byte c xs \<noteq> []"
  by (induction xs) (auto split: list.splits)

lemma split_byte_free [simp]: "c \<notin> set a \<Longrightarrow> split_byte c a = [a]"
  by (induction a) auto

lemma split_byte_append [simp]:
  "c \<notin> set a \<Longrightarrow> split_byte c (a @ c # b) = a # split_byte c b"
  by (induction a) auto

lemma split_byte_Join:
  "xs \<noteq> [] \<Longrightarrow> (\<And>x. x \<in> set xs \<Longrightarrow> c \<notin> set x) \<Longrightarrow> split_byte c (strings_Join xs [c]) = xs"
  by (induction xs "[c]" rule: strings_Join.induct) auto

lemma strings_Join_split_byte: "strings_Join (split_byte c s) [c] = s"
proof (induction s)
  case Nil
  show ?case by simp
next
  case (Cons x s)
  obtain w ws where "split_byte c s = w # ws" by (meson neq_Nil_conv split_byte_nonempty)
  with Cons show ?case by (cases ws) auto
qed

section \<open>Hexadecimal\<close>

definition hex_digit :: "nat \<Rightarrow> char" where
  "hex_digit n = (if n < 10 then char_of (48 + n) else char_of (87 + n))"

definition hex_EncodeToString :: "bytes \<Rightarrow> string" where
  "hex_EncodeToString bs =
     concat (map (\<lambda>b. [hex_digit (of_char b div 16), hex_digit (of_char b mod 16)]) bs)"

lemma length_hex [simp]: "length (hex_EncodeToString bs) = 2 * length bs"
  by (induction bs) (simp_all add: hex_EncodeToString_def)

lemma hex_digit_inject:
  assumes "m < 16" and "n < 16" and "hex_digit m = hex_digit n"
  shows "m = n"
proof -
  have "of_char (hex_digit k) = (if k < 10 then 48 + k else 87 + k)" if "k < 16" for k :: nat
    using that by (auto simp: hex_digit_def)
  then have "(if m < 10 then 48 + m else 87 + m) = (if n < 10 then 48 + n else 87 + n)"
    using assms by metis
  with assms(1,2) show ?thesis by (auto split: if_splits)
qed

lemma hex_EncodeToString_inject:
  "hex_EncodeToString a = hex_EncodeToString b \<Longrightarrow> a = b"
proof (induction a arbitrary: b)
  case Nil
  then have "length (hex_EncodeToString b) = 0" by (simp add: hex_EncodeToString_def)
  then show ?case by simp
next
  case (Cons x a)
  from Cons.prems have "length (hex_EncodeToString b) = 2 * length (x # a)" by (metis length_hex)
  then obtain y b' where b: "b = y # b'" by (cases b) auto
  have d: "hex_digit (of_char x div 16) = hex_digit (of_char y div 16)"
    "hex_digit (of_char x mod 16) = hex_digit (of_char y mod 16)"
    and t: "hex_EncodeToString a = hex_EncodeToString b'"
    using Cons.prems by (simp_all add: b hex_EncodeToString_def)
  have lt: "(of_char z :: nat) div 16 < 16" for z
    using nat_of_char_less_256 [of z] by (simp add: less_mult_imp_div_less)
  have "(of_char x :: nat) div 16 = of_char y div 16" "(of_char x :: nat) mod 16 = of_char y mod 16"
    using hex_digit_inject [OF lt lt d(1)] hex_digit_inject [OF _ _ d(2)] by simp_all
  then have "(of_char x :: nat) = of_char y" by (metis div_mult_mod_eq)
  then have "x = y" by simp
  with Cons.IH [OF t] show ?case by (simp add: b)
qed

section \<open>Host and port\<close>

definition JoinHostPort :: "string \<Rightarrow> string \<Rightarrow> string" where
  "JoinHostPort host port =
     (if CHR '':'' \<in> set host then ''['' @ host @ '']:'' @ port else host @ '':'' @ port)"

definition split_rest :: "string \<Rightarrow> nat \<Rightarrow> string \<Rightarrow> nat \<Rightarrow> nat \<Rightarrow> (string \<times> string) option" where
  "split_rest hp i host j k =
     (if CHR ''['' \<in> set (drop j hp) then None
      else if CHR '']'' \<in> set (drop k hp) then None
      else Some (host, drop (i + 1) hp))"

definition SplitHostPort :: "string \<Rightarrow> (string \<times> string) option" where
  "SplitHostPort hp =
     (case last_index_byte CHR '':'' hp of
        None \<Rightarrow> None
      | Some i \<Rightarrow>
          if hd hp = CHR ''['' then
            (case index_byte CHR '']'' hp of
               None \<Rightarrow> None
             | Some e \<Rightarrow>
                 if e + 1 = i then split_rest hp i (take (e - 1) (drop 1 hp)) 1 (e + 1) else None)
          else if CHR '':'' \<in> set (take i hp) then None
          else split_rest hp i (take i hp) 0 0)"

text \<open>A host and port with no bracket, and no colon in the port, survive the round trip.\<close>

definition host_port_clean :: "string \<Rightarrow> string \<Rightarrow> bool" where
  "host_port_clean host port \<longleftrightarrow>
     set host \<inter> {CHR ''['', CHR '']''} = {} \<and> set port \<inter> {CHR '':'', CHR ''['', CHR '']''} = {}"

lemma SplitHostPort_bracketed:
  assumes "host_port_clean host port"
  shows "SplitHostPort (''['' @ host @ '']:'' @ port) = Some (host, port)"
proof -
  have "last_index_byte CHR '':'' ((''['' @ host @ '']'') @ CHR '':'' # port) =
        Some (length host + 2)"
    using assms by (subst last_index_byte_append) (auto simp: host_port_clean_def)
  moreover have "index_byte CHR '']'' ((CHR ''['' # host) @ CHR '']'' # CHR '':'' # port) =
        Some (length host + 1)"
    using assms by (subst index_byte_append) (auto simp: host_port_clean_def)
  ultimately show ?thesis
    using assms by (auto simp: SplitHostPort_def split_rest_def host_port_clean_def)
qed

lemma SplitHostPort_plain:
  assumes "host_port_clean host port" and "CHR '':'' \<notin> set host"
  shows "SplitHostPort (host @ '':'' @ port) = Some (host, port)"
proof -
  have "last_index_byte CHR '':'' (host @ CHR '':'' # port) = Some (length host)"
    using assms by (subst last_index_byte_append) (auto simp: host_port_clean_def)
  moreover have "hd (host @ CHR '':'' # port) \<noteq> CHR ''[''"
    using assms by (cases host) (auto simp: host_port_clean_def)
  ultimately show ?thesis
    using assms by (auto simp: SplitHostPort_def split_rest_def host_port_clean_def)
qed

lemma SplitHostPort_JoinHostPort:
  "host_port_clean host port \<Longrightarrow> SplitHostPort (JoinHostPort host port) = Some (host, port)"
  using SplitHostPort_bracketed [of host port] SplitHostPort_plain [of host port]
  by (auto simp: JoinHostPort_def)

text \<open>\<open>JoinHostPort\<close> is injective whatever the host, as long as the port holds no colon.\<close>

lemma split_last_colon:
  assumes "CHR '':'' \<notin> set p" and "CHR '':'' \<notin> set p'"
    and "h @ CHR '':'' # p = h' @ CHR '':'' # p'"
  shows "h = h' \<and> p = p'"
proof -
  have "last_index_byte CHR '':'' (h @ CHR '':'' # p) = last_index_byte CHR '':'' (h' @ CHR '':'' # p')"
    using assms(3) by simp
  then have "length h = length h'" using assms(1,2) by simp
  with assms(3) show ?thesis by simp
qed

lemma JoinHostPort_inject:
  assumes "CHR '':'' \<notin> set p" and "CHR '':'' \<notin> set p'"
    and "JoinHostPort h p = JoinHostPort h' p'"
  shows "h = h' \<and> p = p'"
proof -
  let ?b = "\<lambda>h. if CHR '':'' \<in> set h then ''['' @ h @ '']'' else h"
  have j: "JoinHostPort h p = ?b h @ CHR '':'' # p" for h p by (simp add: JoinHostPort_def)
  have "?b h = ?b h'" and "p = p'"
    using split_last_colon [OF assms(1,2), of "?b h" "?b h'"] assms(3) unfolding j by blast+
  then show ?thesis by (auto split: if_splits)
qed

section \<open>Decimal\<close>

fun FormatUint :: "nat \<Rightarrow> string" where
  "FormatUint n =
     (if n < 10 then [char_of (48 + n)] else FormatUint (n div 10) @ [char_of (48 + n mod 10)])"

declare FormatUint.simps [simp del]

definition decimal_value :: "string \<Rightarrow> nat" where
  "decimal_value s = foldl (\<lambda>a c. a * 10 + (of_char c - 48)) 0 s"

lemma decimal_value_FormatUint: "decimal_value (FormatUint n) = n"
proof (induction n rule: FormatUint.induct)
  case (1 n)
  then show ?case
    by (cases "n < 10") (simp_all add: FormatUint.simps [of n] decimal_value_def)
qed

lemma FormatUint_inject [simp]: "FormatUint m = FormatUint n \<longleftrightarrow> m = n"
  by (metis decimal_value_FormatUint)

lemma FormatUint_digits: "c \<in> set (FormatUint n) \<Longrightarrow> 48 \<le> (of_char c :: nat) \<and> (of_char c :: nat) < 58"
proof (induction n rule: FormatUint.induct)
  case (1 n)
  then show ?case
    by (cases "n < 10") (auto simp: FormatUint.simps [of n])
qed

lemma FormatUint_no_colon [simp]: "CHR '':'' \<notin> set (FormatUint n)"
  using FormatUint_digits [of "CHR '':''" n] by auto

end
