(* ===== verification/Trust_Docs.thy ===== *)
theory Trust_Docs
  imports Envelope Go_Std
begin

text \<open>
  The signed trust documents of \<open>internal/types\<close>: the legacy cluster config (\<open>cluster.go\<close>), the
  split trust anchors and routine map (\<open>trustanchors.go\<close>), the artifact root keys
  (\<open>rootkeys.go\<close>) and the release manifest (\<open>manifest.go\<close>), with the decision each verifier makes
  and the controller failover order.  Unmarshalling a payload at a document type is a parameter, as
  in \<open>Envelope\<close>; so is \<open>net.ParseIP\<close>, of which only the yes/no answer is used.
\<close>

section \<open>Data\<close>

record GrantKey =
  gk_KeyID :: string
  gk_PublicKey :: bytes
  gk_Workspaces :: "string list"

record TrustKey =
  tk_KeyID :: string
  tk_PublicKey :: bytes

record ArtifactKey =
  ak_KeyID :: string
  ak_PublicKey :: bytes

record AgentPolicy =
  ap_ForbidDetach :: bool
  ap_MaxSessions :: nat
  ap_MaxDetached :: nat
  ap_RingBufferBytes :: nat
  ap_DetachedTTLSec :: nat
  ap_IdleReapSec :: nat

record RelayNode =
  rn_RegionID :: string
  rn_RelayID :: string
  rn_Addrs :: "string list"
  rn_STUNPort :: int
  rn_TURNPort :: int
  rn_RelayCertPub :: bytes
  rn_ControlMux :: bool
  rn_ControlAddr :: string
  rn_Draining :: bool

record ControllerEndpoint =
  ce_ControllerID :: string
  ce_Addrs :: "string list"
  ce_RegionID :: string
  ce_ControlAddrs :: "string list"

record ClusterConfig =
  cc_ConfigVersion :: int
  cc_CARootsPEM :: bytes
  cc_GrantKeys :: "GrantKey list"
  cc_AgentPolicy :: AgentPolicy
  cc_RelayAddrs :: "string list"
  cc_Relays :: "RelayNode list"
  cc_ControllerEndpoints :: "ControllerEndpoint list"
  cc_TrustKeys :: "TrustKey list"
  cc_AuditRecipient :: string
  cc_AuditRecipients :: "string list"

record TrustAnchors =
  ta_AnchorVersion :: int
  ta_GrantKeys :: "GrantKey list"
  ta_CARootsPEM :: bytes
  ta_AgentPolicy :: AgentPolicy
  ta_AuditRecipient :: string
  ta_AuditRecipients :: "string list"
  ta_TrustKeys :: "TrustKey list"
  ta_Threshold :: int
  ta_ExpiresAt :: gotime

record RoutineMap =
  rm_ConfigVersion :: int
  rm_AnchorVersion :: int
  rm_AnchorDigest :: bytes
  rm_RelayAddrs :: "string list"
  rm_Relays :: "RelayNode list"
  rm_ControllerEndpoints :: "ControllerEndpoint list"

record FleetState =
  fs_Anchors :: TrustAnchors
  fs_Map :: RoutineMap
  fs_AnchorPayload :: bytes

record RootKeys =
  rk_Version :: int
  rk_Keys :: "ArtifactKey list"
  rk_ExpiresAt :: gotime

record Manifest =
  mf_Product :: string
  mf_Version :: string
  mf_OS :: string
  mf_Arch :: string
  mf_SHA256 :: string
  mf_Size :: int
  mf_CreatedAt :: gotime

datatype doc_error =
    EnvErr env_error
  | Wrapped string doc_error
  | ErrBadKeySize string nat
  | ErrNoKeys
  | ErrRollback int int
  | ErrExpired gotime
  | ErrAnchorBinding int int
  | ErrAnchorDigest
  | ErrBlobSize int int
  | ErrBlobHash string string
  | ErrPersist

section \<open>Key sets\<close>

text \<open>The loop every key-set conversion shares: a key of the wrong size aborts it.\<close>

fun keys_to_map ::
    "('k \<Rightarrow> string) \<Rightarrow> ('k \<Rightarrow> bytes) \<Rightarrow> 'k list \<Rightarrow> keyset \<Rightarrow> doc_error + keyset" where
  "keys_to_map kid pub [] m = Inr m"
| "keys_to_map kid pub (k # ks) m =
     (if length (pub k) \<noteq> PublicKeySize then Inl (ErrBadKeySize (kid k) (length (pub k)))
      else keys_to_map kid pub ks (m(kid k \<mapsto> pub k)))"

text \<open>The conversions that also reject an empty set; the map is empty exactly when the slice is.\<close>

definition keys_to_map_nonempty ::
    "('k \<Rightarrow> string) \<Rightarrow> ('k \<Rightarrow> bytes) \<Rightarrow> 'k list \<Rightarrow> doc_error + keyset" where
  "keys_to_map_nonempty kid pub ks =
     bindE (keys_to_map kid pub ks Map.empty) (\<lambda>m.
     bindE (checkE (ks \<noteq> []) ErrNoKeys) (\<lambda>_. Inr m))"

definition TrustedKeys :: "ClusterConfig \<Rightarrow> doc_error + keyset" where
  "TrustedKeys c = keys_to_map gk_KeyID gk_PublicKey (cc_GrantKeys c) Map.empty"

definition TrustedConfigKeys :: "ClusterConfig \<Rightarrow> doc_error + keyset" where
  "TrustedConfigKeys c =
     (if cc_TrustKeys c = [] then TrustedKeys c
      else keys_to_map tk_KeyID tk_PublicKey (cc_TrustKeys c) Map.empty)"

definition TrustedGrantKeys :: "TrustAnchors \<Rightarrow> doc_error + keyset" where
  "TrustedGrantKeys a = keys_to_map_nonempty gk_KeyID gk_PublicKey (ta_GrantKeys a)"

definition PinnedTrustKeys :: "TrustAnchors \<Rightarrow> doc_error + keyset" where
  "PinnedTrustKeys a = keys_to_map_nonempty tk_KeyID tk_PublicKey (ta_TrustKeys a)"

definition SigningKeys :: "RootKeys \<Rightarrow> doc_error + keyset" where
  "SigningKeys r = keys_to_map_nonempty ak_KeyID ak_PublicKey (rk_Keys r)"

definition KeyScopes :: "ClusterConfig \<Rightarrow> (string \<rightharpoonup> string list)" where
  "KeyScopes c = map_of_range gk_KeyID gk_Workspaces (cc_GrantKeys c)"

definition AnchorKeyScopes :: "TrustAnchors \<Rightarrow> (string \<rightharpoonup> string list)" where
  "AnchorKeyScopes a = map_of_range gk_KeyID gk_Workspaces (ta_GrantKeys a)"

fun scope_contains :: "string list \<Rightarrow> string \<Rightarrow> bool" where
  "scope_contains [] ws = False"
| "scope_contains (s # scope) ws = (if s = ws then True else scope_contains scope ws)"

definition WorkspaceInScope :: "string list \<Rightarrow> string \<Rightarrow> bool" where
  "WorkspaceInScope scope ws = (if scope = [] then True else scope_contains scope ws)"

section \<open>Audit recipients\<close>

definition effectiveAuditRecipients :: "string \<Rightarrow> string list \<Rightarrow> string list" where
  "effectiveAuditRecipients single xs =
     (if xs \<noteq> [] then filter (\<lambda>r. r \<noteq> '''') xs
      else if single \<noteq> '''' then [single] else [])"

definition EffectiveAuditRecipients :: "ClusterConfig \<Rightarrow> string list" where
  "EffectiveAuditRecipients c = effectiveAuditRecipients (cc_AuditRecipient c) (cc_AuditRecipients c)"

definition AnchorAuditRecipients :: "TrustAnchors \<Rightarrow> string list" where
  "AnchorAuditRecipients a = effectiveAuditRecipients (ta_AuditRecipient a) (ta_AuditRecipients a)"

definition AuditKeyID :: "crypto \<Rightarrow> string list \<Rightarrow> string" where
  "AuditKeyID c recipients =
     (case recipients of
        [] \<Rightarrow> ''''
      | [r] \<Rightarrow> ''age-sha256:'' @ hex_EncodeToString (take 8 (sha256_Sum256 c r))
      | _ \<Rightarrow> ''age-set-sha256:'' @
             hex_EncodeToString (take 8 (sha256_Sum256 c (strings_Join (sort recipients) [CHR 0x0A]))))"

section \<open>Relays and controllers\<close>

definition RelaysByRegion :: "ClusterConfig \<Rightarrow> (string \<rightharpoonup> RelayNode list)" where
  "RelaysByRegion c =
     foldl (\<lambda>m r. m(rn_RegionID r \<mapsto>
               (case m (rn_RegionID r) of None \<Rightarrow> [] | Some rs \<Rightarrow> rs) @ [r]))
       Map.empty (cc_Relays c)"

definition RelayByID :: "ClusterConfig \<Rightarrow> string \<Rightarrow> RelayNode option" where
  "RelayByID c relayID = find (\<lambda>r. rn_RelayID r = relayID) (cc_Relays c)"

definition is_ip_addr :: "(string \<Rightarrow> bool) \<Rightarrow> string \<Rightarrow> bool" where
  "is_ip_addr parseIP a =
     (case SplitHostPort a of None \<Rightarrow> False | Some (host, _) \<Rightarrow> parseIP host)"

definition ipFirstAddrs :: "(string \<Rightarrow> bool) \<Rightarrow> string list \<Rightarrow> string list" where
  "ipFirstAddrs parseIP addrs =
     filter (is_ip_addr parseIP) addrs @ filter (\<lambda>a. \<not> is_ip_addr parseIP a) addrs"

definition dial_addrs :: "bool \<Rightarrow> ControllerEndpoint \<Rightarrow> string list" where
  "dial_addrs control gw =
     (if control \<and> ce_ControlAddrs gw \<noteq> [] then ce_ControlAddrs gw else ce_Addrs gw)"

text \<open>One round of the interleaving: the \<open>i\<close>-th address of every controller that has one.\<close>

definition round_addrs :: "string list list \<Rightarrow> nat \<Rightarrow> string list" where
  "round_addrs cols i = concat (map (\<lambda>col. if i < length col then [col ! i] else []) cols)"

definition FailoverAddrs ::
    "(string \<Rightarrow> bool) \<Rightarrow> ControllerEndpoint list \<Rightarrow> bool \<Rightarrow> string list" where
  "FailoverAddrs parseIP gws control =
     (let cols = map (\<lambda>gw. ipFirstAddrs parseIP (dial_addrs control gw)) gws;
          maxLen = foldl (\<lambda>m c. if length c > m then length c else m) 0 cols
      in concat (map (round_addrs cols) [0..<maxLen]))"

section \<open>Verification of the documents\<close>

definition VerifyClusterConfig ::
    "crypto \<Rightarrow> (bytes \<Rightarrow> ClusterConfig option) \<Rightarrow> keyset \<Rightarrow> Signed option \<Rightarrow> int
       \<Rightarrow> doc_error + ClusterConfig" where
  "VerifyClusterConfig c u trusted s currentVersion =
     bindE (mapE EnvErr (Verify c trusted ContextClusterConfig s (Some u))) (\<lambda>(_, cfg).
     bindE (checkE (\<not> cc_ConfigVersion (the cfg) < currentVersion)
              (ErrRollback (cc_ConfigVersion (the cfg)) currentVersion)) (\<lambda>_.
     Inr (the cfg)))"

definition VerifyRootKeys ::
    "crypto \<Rightarrow> (bytes \<Rightarrow> RootKeys option) \<Rightarrow> keyset \<Rightarrow> Signed option \<Rightarrow> int \<Rightarrow> gotime
       \<Rightarrow> doc_error + RootKeys" where
  "VerifyRootKeys c u rootTrusted s currentVersion now =
     bindE (mapE EnvErr (Verify c rootTrusted ContextRootKeys s (Some u))) (\<lambda>(_, p).
     let r = the p in
     bindE (checkE (\<not> rk_Version r < currentVersion) (ErrRollback (rk_Version r) currentVersion)) (\<lambda>_.
     bindE (checkE (\<not> (rk_ExpiresAt r \<noteq> 0 \<and> now > rk_ExpiresAt r)) (ErrExpired (rk_ExpiresAt r))) (\<lambda>_.
     Inr r)))"

definition VerifyArtifactChain ::
    "crypto \<Rightarrow> (bytes \<Rightarrow> RootKeys option) \<Rightarrow> (bytes \<Rightarrow> Manifest option) \<Rightarrow> keyset
       \<Rightarrow> Signed option \<Rightarrow> Signed option \<Rightarrow> int \<Rightarrow> gotime \<Rightarrow> doc_error + RootKeys \<times> Manifest" where
  "VerifyArtifactChain c ur um rootTrusted rootKeys manifest rootVersion now =
     bindE (mapE (Wrapped ''root-keys'') (VerifyRootKeys c ur rootTrusted rootKeys rootVersion now)) (\<lambda>rk.
     bindE (SigningKeys rk) (\<lambda>signers.
     bindE (mapE (\<lambda>e. Wrapped ''manifest'' (EnvErr e))
              (Verify c signers ContextManifest manifest (Some um))) (\<lambda>(_, m).
     Inr (rk, the m))))"

definition AnchorDigestOf :: "crypto \<Rightarrow> bytes \<Rightarrow> bytes" where
  "AnchorDigestOf c anchorPayload = sha256_Sum256 c anchorPayload"

definition bytesEqual :: "bytes \<Rightarrow> bytes \<Rightarrow> bool" where
  "bytesEqual a b = (if length a \<noteq> length b then False else list_all2 (=) a b)"

definition VerifyFleetState ::
    "crypto \<Rightarrow> (bytes \<Rightarrow> TrustAnchors option) \<Rightarrow> (bytes \<Rightarrow> RoutineMap option)
       \<Rightarrow> keyset \<Rightarrow> int \<Rightarrow> int \<Rightarrow> int \<Rightarrow> MultiSigned option \<Rightarrow> Signed option \<Rightarrow> gotime
       \<Rightarrow> doc_error + FleetState" where
  "VerifyFleetState c ua um pinned threshold heldAnchorV heldConfigV anchorEnv mapEnv now =
     bindE (mapE (\<lambda>e. Wrapped ''trust anchors'' (EnvErr e))
              (VerifyMultiSig c pinned threshold ContextTrustAnchors anchorEnv (Some ua)))
       (\<lambda>(anchorPayload, a).
     let anchors = the a in
     bindE (checkE (\<not> ta_AnchorVersion anchors < heldAnchorV)
              (ErrRollback (ta_AnchorVersion anchors) heldAnchorV)) (\<lambda>_.
     bindE (checkE (\<not> (ta_ExpiresAt anchors \<noteq> 0 \<and> now > ta_ExpiresAt anchors))
              (ErrExpired (ta_ExpiresAt anchors))) (\<lambda>_.
     bindE (TrustedGrantKeys anchors) (\<lambda>grantKeys.
     bindE (mapE (\<lambda>e. Wrapped ''routine map'' (EnvErr e))
              (Verify c grantKeys ContextRoutineMap mapEnv (Some um))) (\<lambda>(_, m).
     let rm = the m in
     bindE (checkE (\<not> rm_ConfigVersion rm < heldConfigV)
              (ErrRollback (rm_ConfigVersion rm) heldConfigV)) (\<lambda>_.
     bindE (checkE (rm_AnchorVersion rm = ta_AnchorVersion anchors)
              (ErrAnchorBinding (rm_AnchorVersion rm) (ta_AnchorVersion anchors))) (\<lambda>_.
     bindE (checkE (bytesEqual (rm_AnchorDigest rm) (AnchorDigestOf c anchorPayload))
              ErrAnchorDigest) (\<lambda>_.
     Inr \<lparr>fs_Anchors = anchors, fs_Map = rm, fs_AnchorPayload = anchorPayload\<rparr>))))))))"

definition BlobPath :: "Manifest \<Rightarrow> string" where
  "BlobPath m = ''/v1/artifacts/'' @ mf_SHA256 m"

text \<open>\<open>VerifyBlob\<close> over the bytes the reader delivers.\<close>

definition VerifyBlob :: "crypto \<Rightarrow> Manifest \<Rightarrow> bytes \<Rightarrow> doc_error + unit" where
  "VerifyBlob c m blob =
     (if int (length blob) \<noteq> mf_Size m then Inl (ErrBlobSize (int (length blob)) (mf_Size m))
      else let got = hex_EncodeToString (sha256_Sum256 c blob)
           in if got \<noteq> mf_SHA256 m then Inl (ErrBlobHash got (mf_SHA256 m)) else Inr ())"

section \<open>Lemmas\<close>

lemma keys_to_map_Inr [errE]:
  "keys_to_map kid pub ks m = Inr m' \<longleftrightarrow>
     (\<forall>k \<in> set ks. length (pub k) = PublicKeySize) \<and>
     m' = foldl (\<lambda>m k. m(kid k \<mapsto> pub k)) m ks"
  by (induction ks arbitrary: m) auto

lemma keys_to_map_empty_Inr:
  "keys_to_map kid pub ks Map.empty = Inr m \<longleftrightarrow>
     (\<forall>k \<in> set ks. length (pub k) = PublicKeySize) \<and> m = map_of_range kid pub ks"
  by (simp add: keys_to_map_Inr map_of_range_def)

lemma keys_to_map_nonempty_Inr [errE]:
  "keys_to_map_nonempty kid pub ks = Inr m \<longleftrightarrow>
     ks \<noteq> [] \<and> (\<forall>k \<in> set ks. length (pub k) = PublicKeySize) \<and> m = map_of_range kid pub ks"
  by (auto simp: keys_to_map_nonempty_def keys_to_map_empty_Inr bindE_eq_Inr checkE_eq_Inr)

lemmas keyset_defs =
  TrustedKeys_def TrustedConfigKeys_def TrustedGrantKeys_def PinnedTrustKeys_def SigningKeys_def

lemma scope_contains_iff [simp]: "scope_contains scope ws \<longleftrightarrow> ws \<in> set scope"
  by (induction scope) auto

lemma WorkspaceInScope_iff: "WorkspaceInScope scope ws \<longleftrightarrow> scope = [] \<or> ws \<in> set scope"
  by (simp add: WorkspaceInScope_def)

lemma bytesEqual_iff [simp]: "bytesEqual a b \<longleftrightarrow> a = b"
  by (auto simp: bytesEqual_def list_all2_conv_all_nth intro: nth_equalityI)

lemma VerifyClusterConfig_accepts_iff [errE]:
  "VerifyClusterConfig c u trusted s cur = Inr cfg \<longleftrightarrow>
     (\<exists>env. s = Some env \<and> u (s_Payload env) = Some cfg \<and> cur \<le> cc_ConfigVersion cfg \<and>
        sig_valid c trusted (signingInput ContextClusterConfig (s_Payload env)) (s_KeyID env) (s_Sig env))"
  by (auto simp: VerifyClusterConfig_def errE)

lemma VerifyRootKeys_accepts_iff [errE]:
  "VerifyRootKeys c u trusted s cur now = Inr r \<longleftrightarrow>
     (\<exists>env. s = Some env \<and> u (s_Payload env) = Some r \<and> cur \<le> rk_Version r \<and>
        (rk_ExpiresAt r = 0 \<or> now \<le> rk_ExpiresAt r) \<and>
        sig_valid c trusted (signingInput ContextRootKeys (s_Payload env)) (s_KeyID env) (s_Sig env))"
  by (auto simp: VerifyRootKeys_def Let_def errE not_less)

lemma VerifyFleetState_accepts_iff [errE]:
  "VerifyFleetState c ua um pinned t ha hc ae me now = Inr fs \<longleftrightarrow>
     (\<exists>av mv. ae = Some av \<and> me = Some mv \<and>
        fs_AnchorPayload fs = ms_Payload av \<and> ua (ms_Payload av) = Some (fs_Anchors fs) \<and>
        um (s_Payload mv) = Some (fs_Map fs) \<and>
        max 1 t \<le> int (card (valid_signers c pinned
                          (signingInput ContextTrustAnchors (ms_Payload av)) (ms_Sigs av))) \<and>
        ha \<le> ta_AnchorVersion (fs_Anchors fs) \<and>
        (ta_ExpiresAt (fs_Anchors fs) = 0 \<or> now \<le> ta_ExpiresAt (fs_Anchors fs)) \<and>
        ta_GrantKeys (fs_Anchors fs) \<noteq> [] \<and>
        (\<forall>k \<in> set (ta_GrantKeys (fs_Anchors fs)). length (gk_PublicKey k) = PublicKeySize) \<and>
        sig_valid c (map_of_range gk_KeyID gk_PublicKey (ta_GrantKeys (fs_Anchors fs)))
          (signingInput ContextRoutineMap (s_Payload mv)) (s_KeyID mv) (s_Sig mv) \<and>
        hc \<le> rm_ConfigVersion (fs_Map fs) \<and>
        rm_AnchorVersion (fs_Map fs) = ta_AnchorVersion (fs_Anchors fs) \<and>
        rm_AnchorDigest (fs_Map fs) = sha256_Sum256 c (ms_Payload av))"
  unfolding VerifyFleetState_def Let_def TrustedGrantKeys_def AnchorDigestOf_def
  by (cases fs) (auto simp: errE not_less)

subsection \<open>Failover order\<close>

lemma mset_ipFirstAddrs [simp]: "mset (ipFirstAddrs p addrs) = mset addrs"
  by (simp add: ipFirstAddrs_def)

lemma ipFirstAddrs_Nil_iff [simp]: "ipFirstAddrs p addrs = [] \<longleftrightarrow> addrs = []"
  using mset_ipFirstAddrs [of p addrs] by (metis mset_zero_iff)

lemma column_read: "concat (map (\<lambda>i. if i < length c then [c ! i] else []) [0..<n]) = take n c"
  by (induction n) (auto simp: take_Suc_conv_app_nth)

lemma round_addrs_Cons:
  "round_addrs (c # cols) i = (if i < length c then [c ! i] else []) @ round_addrs cols i"
  by (simp add: round_addrs_def)

lemma mset_rounds_split:
  "mset (concat (map (\<lambda>i. f i @ g i) is)) = mset (concat (map f is)) + mset (concat (map g is))"
  by (induction "is") auto

lemma mset_rounds:
  "(\<And>c. c \<in> set cols \<Longrightarrow> length c \<le> n) \<Longrightarrow>
   mset (concat (map (round_addrs cols) [0..<n])) = sum_list (map mset cols)"
proof (induction cols)
  case Nil
  have "round_addrs [] = (\<lambda>_. [])" by (simp add: round_addrs_def fun_eq_iff)
  then show ?case by (induction n) simp_all
next
  case (Cons c cols)
  have f: "round_addrs (c # cols) = (\<lambda>i. (if i < length c then [c ! i] else []) @ round_addrs cols i)"
    by (simp add: round_addrs_Cons fun_eq_iff)
  have "take n c = c" using Cons.prems [of c] by simp
  then show ?case
    unfolding f mset_rounds_split column_read using Cons by simp
qed

lemma maxLen_ge:
  "length c \<le> m \<or> c \<in> set cols \<Longrightarrow>
   length c \<le> foldl (\<lambda>m c. if length c > m then length c else m) m cols"
proof (induction cols arbitrary: m)
  case Nil
  then show ?case by simp
next
  case (Cons d cols)
  let ?m = "if length d > m then length d else m"
  have "length c \<le> ?m \<or> c \<in> set cols" using Cons.prems by auto
  from Cons.IH [OF this] show ?case by simp
qed

lemma round_addrs_0: "round_addrs cols 0 = map hd (filter (\<lambda>c. c \<noteq> []) cols)"
  by (induction cols) (auto simp: round_addrs_def hd_conv_nth)

lemma FailoverAddrs_first_round:
  assumes "gw \<in> set gws" and "dial_addrs control gw \<noteq> []"
  shows "\<exists>rest. FailoverAddrs p gws control =
           round_addrs (map (\<lambda>gw. ipFirstAddrs p (dial_addrs control gw)) gws) 0 @ rest"
proof -
  let ?cols = "map (\<lambda>gw. ipFirstAddrs p (dial_addrs control gw)) gws"
  let ?n = "foldl (\<lambda>m c. if length c > m then length c else m) 0 ?cols"
  have "length (ipFirstAddrs p (dial_addrs control gw)) \<le> ?n"
    using assms(1) by (intro maxLen_ge) auto
  moreover have "length (ipFirstAddrs p (dial_addrs control gw)) > 0" using assms(2) by simp
  ultimately have "0 < ?n" by linarith
  then have "[0..<?n] = 0 # [1..<?n]" by (simp add: upt_conv_Cons)
  then show ?thesis by (simp add: FailoverAddrs_def Let_def)
qed

lemma AuditKeyID_several:
  "length xs \<noteq> 1 \<Longrightarrow> AuditKeyID c xs =
     (if length xs = 0 then '''' else ''age-set-sha256:'' @
        hex_EncodeToString (take 8 (sha256_Sum256 c (strings_Join (sort xs) [CHR 0x0A]))))"
  by (auto simp: AuditKeyID_def split: list.splits)

section \<open>Properties\<close>

text \<open>
  C3: The split-mode trust decision.  \<open>VerifyFleetState\<close> accepts a pair of documents exactly when
  at least \<open>threshold\<close> (and one) distinct pinned trust keys signed the anchor bytes, the anchors are
  not older than the held ones and not expired, they list at least one grant key and only
  well-formed ones, the routine map is signed by a grant key those anchors list, it is not older
  than the held map, and it names this anchor version and the digest of exactly these anchor bytes.
\<close>

theorem VerifyFleetState_decision:
  "VerifyFleetState c ua um pinned threshold heldA heldC (Some av) (Some mv) now =
     Inr \<lparr>fs_Anchors = a, fs_Map = m, fs_AnchorPayload = payload\<rparr> \<longleftrightarrow>
   payload = ms_Payload av \<and> ua payload = Some a \<and> um (s_Payload mv) = Some m \<and>
   max 1 threshold \<le> int (card {os_KeyID one | one. one \<in> set (ms_Sigs av) \<and>
      sig_valid c pinned (signingInput ContextTrustAnchors payload) (os_KeyID one) (os_Sig one)}) \<and>
   heldA \<le> ta_AnchorVersion a \<and> (ta_ExpiresAt a = 0 \<or> now \<le> ta_ExpiresAt a) \<and>
   (\<exists>grants. TrustedGrantKeys a = Inr grants \<and>
      sig_valid c grants (signingInput ContextRoutineMap (s_Payload mv)) (s_KeyID mv) (s_Sig mv)) \<and>
   heldC \<le> rm_ConfigVersion m \<and> rm_AnchorVersion m = ta_AnchorVersion a \<and>
   rm_AnchorDigest m = AnchorDigestOf c payload"
  unfolding valid_signers_def [symmetric] VerifyFleetState_accepts_iff TrustedGrantKeys_def
    AnchorDigestOf_def keys_to_map_nonempty_Inr
  by auto

text \<open>
  C32: Role separation of the artifact chain.  A manifest is accepted only under a root-keys document
  that a pinned root key signed and that is neither rolled back nor expired, and only with a valid
  signature by a key that document lists; in particular a manifest signed under a key id the
  document does not list (the root's own id included) is rejected whatever its signature.
\<close>

theorem VerifyArtifactChain_role_separation:
  "VerifyArtifactChain c ur um rootTrusted rootKeys manifest rootVersion now = Inr (rk, m) \<longleftrightarrow>
   (\<exists>re me. rootKeys = Some re \<and> manifest = Some me \<and>
      ur (s_Payload re) = Some rk \<and> um (s_Payload me) = Some m \<and>
      sig_valid c rootTrusted (signingInput ContextRootKeys (s_Payload re)) (s_KeyID re) (s_Sig re) \<and>
      rootVersion \<le> rk_Version rk \<and> (rk_ExpiresAt rk = 0 \<or> now \<le> rk_ExpiresAt rk) \<and>
      (\<exists>signers. SigningKeys rk = Inr signers \<and> dom signers = ak_KeyID ` set (rk_Keys rk) \<and>
         s_KeyID me \<in> ak_KeyID ` set (rk_Keys rk) \<and>
         sig_valid c signers (signingInput ContextManifest (s_Payload me)) (s_KeyID me) (s_Sig me)))"
proof -
  have "s_KeyID me \<in> ak_KeyID ` set ks"
    if "sig_valid c (map_of_range ak_KeyID ak_PublicKey ks) i (s_KeyID me) sg" for ks i sg and me :: Signed
    using that dom_map_of_range [of ak_KeyID ak_PublicKey ks]
    by (auto simp: sig_valid_iff domI)
  then show ?thesis
    unfolding VerifyArtifactChain_def SigningKeys_def
    by (auto simp: errE dom_map_of_range)
qed

text \<open>
  Failover order.  The dial list is a permutation of all advertised addresses (control
  addresses where asked for and present), none lost and none repeated, and it starts with exactly
  one address of every controller that advertises any: a hung controller costs one step.
\<close>

theorem FailoverAddrs_interleaves:
  "mset (FailoverAddrs p gws control) = (\<Sum>gw \<leftarrow> gws. mset (dial_addrs control gw)) \<and>
   (let live = filter (\<lambda>gw. dial_addrs control gw \<noteq> []) gws
    in take (length live) (FailoverAddrs p gws control) =
       map (\<lambda>gw. hd (ipFirstAddrs p (dial_addrs control gw))) live)"
proof -
  let ?cols = "map (\<lambda>gw. ipFirstAddrs p (dial_addrs control gw)) gws"
  let ?live = "filter (\<lambda>gw. dial_addrs control gw \<noteq> []) gws"
  have "mset (FailoverAddrs p gws control) = sum_list (map mset ?cols)"
    unfolding FailoverAddrs_def Let_def by (rule mset_rounds) (simp add: maxLen_ge)
  moreover have "sum_list (map mset ?cols) = (\<Sum>gw \<leftarrow> gws. mset (dial_addrs control gw))"
    by (induction gws) simp_all
  moreover have first: "round_addrs ?cols 0 = map (\<lambda>gw. hd (ipFirstAddrs p (dial_addrs control gw))) ?live"
    unfolding round_addrs_0 by (induction gws) auto
  moreover have "take (length ?live) (FailoverAddrs p gws control) = round_addrs ?cols 0"
  proof (cases "?live = []")
    case True
    then show ?thesis by (simp add: first)
  next
    case False
    then obtain gw where "gw \<in> set gws" "dial_addrs control gw \<noteq> []"
      by (auto simp: filter_empty_conv)
    then show ?thesis using FailoverAddrs_first_round [of gw gws control p] by (auto simp: first)
  qed
  ultimately show ?thesis by (simp add: Let_def)
qed

text \<open>
  The audit key id names the recipient set, not its listing order: two listings of the same
  recipients have the same id.
\<close>

theorem AuditKeyID_order_independent:
  assumes "mset xs = mset ys"
  shows "AuditKeyID c xs = AuditKeyID c ys"
proof (cases "length xs = 1")
  case True
  then obtain x where "xs = [x]" by (auto simp: length_Suc_conv)
  with assms have "xs = ys" by simp
  then show ?thesis by simp
next
  case False
  have "sort xs = sort ys" using assms by (metis properties_for_sort mset_sort sorted_sort)
  moreover have "length xs = length ys" using assms by (rule mset_eq_length)
  ultimately show ?thesis
    using AuditKeyID_several [of xs c] AuditKeyID_several [of ys c] False by simp
qed

theorem AuditKeyID_order_independent_witness:
  "AuditKeyID \<lparr>ed25519_Verify = (\<lambda>_ _ _. True), sha256_Sum256 = id\<rparr> [''b'', ''a''] =
   AuditKeyID \<lparr>ed25519_Verify = (\<lambda>_ _ _. True), sha256_Sum256 = id\<rparr> [''a'', ''b'']"
  by (rule AuditKeyID_order_independent) (simp add: add_mset_commute)

end
