(* ===== verification/Fleet_Adoption.thy ===== *)
theory Fleet_Adoption
  imports Trust_Docs
begin

text \<open>
  How the two kinds of fleet member adopt pushed trust documents: the agent's worker
  (\<open>internal/agentd/worker.go\<close>: \<open>handleFleetPush\<close>, \<open>handleClusterConfig\<close>, \<open>handleFleetState\<close>,
  \<open>adoptFleetState\<close>, with the reload path of \<open>internal/agentd/state.go\<close>) and the relay's
  \<open>controllerControlResolver\<close> (\<open>internal/relay/registrar.go\<close>).

  The state is the trust-relevant part of \<open>Worker\<close> and \<open>State\<close>: held documents, pinned key sets,
  version floors and the persisted files.  The handlers hold one mutex for their whole body, so a
  push is one step.  The outcome of each file write is an argument (\<open>io\<close>); the TLS reload and the
  RPC that forwards the policy to the session host change none of this state.
\<close>

section \<open>Parameters and state\<close>

record codec =
  dec_Signed :: "bytes \<Rightarrow> Signed option"
  dec_MultiSigned :: "bytes \<Rightarrow> MultiSigned option"
  dec_ClusterConfig :: "bytes \<Rightarrow> ClusterConfig option"
  dec_TrustAnchors :: "bytes \<Rightarrow> TrustAnchors option"
  dec_RoutineMap :: "bytes \<Rightarrow> RoutineMap option"

text \<open>The persisted documents of \<open>State\<close>; an absent file is the empty byte string.\<close>

record agent_state =
  st_CARootsPEM :: bytes
  st_ClusterRaw :: bytes
  st_AnchorRaw :: bytes
  st_RoutineMapRaw :: bytes

record worker =
  w_st :: agent_state
  w_cluster :: "ClusterConfig option"
  w_trusted :: keyset
  w_configTrust :: keyset
  w_pinnedTrust :: "keyset option"
  w_pinnedThreshold :: int
  w_anchorVersion :: int
  w_anchorRaw :: bytes
  w_routineRaw :: bytes
  w_connStale :: bool

record io =
  io_config :: bool \<comment> \<open>\<open>SaveClusterConfig\<close> succeeds\<close>
  io_fleet :: bool \<comment> \<open>\<open>SaveFleetState\<close> succeeds\<close>
  io_roots :: bool \<comment> \<open>\<open>SaveCARoots\<close> succeeds\<close>

section \<open>Agent operations\<close>

definition SplitMode :: "agent_state \<Rightarrow> bool" where
  "SplitMode s \<longleftrightarrow> length (st_AnchorRaw s) > 0 \<and> length (st_RoutineMapRaw s) > 0"

definition clusterVersion :: "worker \<Rightarrow> int" where
  "clusterVersion w = (case w_cluster w of None \<Rightarrow> 0 | Some c \<Rightarrow> cc_ConfigVersion c)"

definition alreadyPinned :: "worker \<Rightarrow> bool" where
  "alreadyPinned w = (case w_pinnedTrust w of None \<Rightarrow> False | Some _ \<Rightarrow> True)"

definition clusterViewFromFleetState :: "FleetState \<Rightarrow> ClusterConfig" where
  "clusterViewFromFleetState fs =
     \<lparr>cc_ConfigVersion = rm_ConfigVersion (fs_Map fs),
      cc_CARootsPEM = ta_CARootsPEM (fs_Anchors fs),
      cc_GrantKeys = ta_GrantKeys (fs_Anchors fs),
      cc_AgentPolicy = ta_AgentPolicy (fs_Anchors fs),
      cc_RelayAddrs = rm_RelayAddrs (fs_Map fs),
      cc_Relays = rm_Relays (fs_Map fs),
      cc_ControllerEndpoints = rm_ControllerEndpoints (fs_Map fs),
      cc_TrustKeys = [],
      cc_AuditRecipient = ta_AuditRecipient (fs_Anchors fs),
      cc_AuditRecipients = ta_AuditRecipients (fs_Anchors fs)\<rparr>"

text \<open>The CA roots are written only when the document carries some and they differ.\<close>

definition roots_change :: "worker \<Rightarrow> bytes \<Rightarrow> bool" where
  "roots_change w pem \<longleftrightarrow> length pem > 0 \<and> pem \<noteq> st_CARootsPEM (w_st w)"

definition save_roots :: "bytes \<Rightarrow> worker \<Rightarrow> worker" where
  "save_roots pem w =
     (if roots_change w pem
      then w\<lparr>w_st := (w_st w)\<lparr>st_CARootsPEM := pem\<rparr>, w_connStale := True\<rparr> else w)"

definition handleClusterConfig :: "crypto \<Rightarrow> codec \<Rightarrow> io \<Rightarrow> bytes \<Rightarrow> worker \<Rightarrow> worker" where
  "handleClusterConfig c cd d raw w =
     (case DecodeSigned (dec_Signed cd) raw of
        Inl _ \<Rightarrow> w
      | Inr env \<Rightarrow>
          (case VerifyClusterConfig c (dec_ClusterConfig cd) (w_configTrust w) (Some env)
                  (clusterVersion w) of
             Inl _ \<Rightarrow> w
           | Inr newCfg \<Rightarrow>
               if cc_ConfigVersion newCfg = clusterVersion w then w
               else
                 (case (TrustedKeys newCfg, TrustedConfigKeys newCfg) of
                    (Inr newTrusted, Inr newConfigTrust) \<Rightarrow>
                      if \<not> io_config d then w
                      else
                        let w1 = w\<lparr>w_st := (w_st w)\<lparr>st_ClusterRaw := raw\<rparr>\<rparr> in
                        if roots_change w1 (cc_CARootsPEM newCfg) \<and> \<not> io_roots d then w1
                        else (save_roots (cc_CARootsPEM newCfg) w1)
                               \<lparr>w_cluster := Some newCfg, w_trusted := newTrusted,
                                w_configTrust := newConfigTrust\<rparr>
                  | _ \<Rightarrow> w)))"

definition adoptFleetState ::
    "io \<Rightarrow> FleetState \<Rightarrow> bytes \<Rightarrow> bytes \<Rightarrow> worker \<Rightarrow> doc_error option \<times> worker" where
  "adoptFleetState d fs anchorRaw mapRaw w =
     (case TrustedGrantKeys (fs_Anchors fs) of
        Inl e \<Rightarrow> (Some e, w)
      | Inr grantKeys \<Rightarrow>
          (case PinnedTrustKeys (fs_Anchors fs) of
             Inl e \<Rightarrow> (Some e, w)
           | Inr pinned \<Rightarrow>
               if roots_change w (ta_CARootsPEM (fs_Anchors fs)) \<and> \<not> io_roots d
               then (Some (Wrapped ''persist ca-roots.pem'' ErrPersist), w)
               else (None,
                 (save_roots (ta_CARootsPEM (fs_Anchors fs)) w)
                   \<lparr>w_cluster := Some (clusterViewFromFleetState fs), w_trusted := grantKeys,
                    w_pinnedTrust := Some pinned,
                    w_pinnedThreshold := ta_Threshold (fs_Anchors fs),
                    w_anchorVersion := ta_AnchorVersion (fs_Anchors fs),
                    w_anchorRaw := anchorRaw, w_routineRaw := mapRaw\<rparr>)))"

text \<open>
  The key set, threshold and floors a push is verified against: the held ones, or, on the first
  pin, those of the incoming anchors (trust on first use).
\<close>

definition verify_basis ::
    "codec \<Rightarrow> MultiSigned \<Rightarrow> worker \<Rightarrow> doc_error + keyset \<times> int \<times> int \<times> int" where
  "verify_basis cd anchorEnv w =
     (case w_pinnedTrust w of
        Some pinned \<Rightarrow> Inr (pinned, w_pinnedThreshold w, w_anchorVersion w, clusterVersion w)
      | None \<Rightarrow>
          (case dec_TrustAnchors cd (ms_Payload anchorEnv) of
             None \<Rightarrow> Inl (EnvErr ErrUnmarshal)
           | Some a \<Rightarrow>
               bindE (PinnedTrustKeys a) (\<lambda>p. Inr (p, ta_Threshold a, 0, clusterVersion w))))"

definition handleFleetState ::
    "crypto \<Rightarrow> codec \<Rightarrow> io \<Rightarrow> gotime \<Rightarrow> bytes \<Rightarrow> bytes \<Rightarrow> worker \<Rightarrow> worker" where
  "handleFleetState c cd d now anchorRaw mapRaw w =
     (if anchorRaw = [] \<or> mapRaw = [] then w
      else case (dec_MultiSigned cd anchorRaw, dec_Signed cd mapRaw) of
        (Some anchorEnv, Some mapEnv) \<Rightarrow>
          (case bindE (verify_basis cd anchorEnv w) (\<lambda>(pinned, threshold, heldA, heldC).
                  VerifyFleetState c (dec_TrustAnchors cd) (dec_RoutineMap cd) pinned threshold
                    heldA heldC (Some anchorEnv) (Some mapEnv) now) of
             Inl _ \<Rightarrow> w
           | Inr fs \<Rightarrow>
               if ta_AnchorVersion (fs_Anchors fs) = w_anchorVersion w \<and>
                  rm_ConfigVersion (fs_Map fs) = clusterVersion w \<and> SplitMode (w_st w)
               then w
               else if \<not> io_fleet d then w
               else
                 let w1 = w\<lparr>w_st := (w_st w)\<lparr>st_AnchorRaw := anchorRaw, st_RoutineMapRaw := mapRaw\<rparr>\<rparr>
                 in snd (adoptFleetState d fs anchorRaw mapRaw w1))
      | _ \<Rightarrow> w)"

definition handleFleetPush ::
    "crypto \<Rightarrow> codec \<Rightarrow> io \<Rightarrow> gotime \<Rightarrow> bytes \<Rightarrow> bytes \<Rightarrow> bytes \<Rightarrow> worker \<Rightarrow> worker" where
  "handleFleetPush c cd d now anchorRaw mapRaw legacy w =
     (if length anchorRaw > 0 \<and> length mapRaw > 0 then handleFleetState c cd d now anchorRaw mapRaw w
      else if alreadyPinned w then w
      else if length legacy > 0 then handleClusterConfig c cd d legacy w
      else w)"

section \<open>Reloading the persisted documents\<close>

definition parseAndCheckClusterConfig ::
    "crypto \<Rightarrow> codec \<Rightarrow> bytes \<Rightarrow> int \<Rightarrow> doc_error + ClusterConfig \<times> keyset" where
  "parseAndCheckClusterConfig c cd raw minVersion =
     bindE (mapE EnvErr (DecodeSigned (dec_Signed cd) raw)) (\<lambda>env.
     (case dec_ClusterConfig cd (s_Payload env) of
        None \<Rightarrow> Inl (EnvErr ErrUnmarshal)
      | Some unverified \<Rightarrow>
          bindE (TrustedConfigKeys unverified) (\<lambda>trust.
          bindE (VerifyClusterConfig c (dec_ClusterConfig cd) trust (Some env) minVersion) (\<lambda>cfg.
          bindE (TrustedKeys cfg) (\<lambda>grantKeys. Inr (cfg, grantKeys))))))"

definition parseAndCheckFleetState ::
    "crypto \<Rightarrow> codec \<Rightarrow> gotime \<Rightarrow> bytes \<Rightarrow> bytes \<Rightarrow> int \<Rightarrow> int \<Rightarrow> doc_error + FleetState" where
  "parseAndCheckFleetState c cd now anchorRaw mapRaw minAnchor minConfig =
     (case dec_MultiSigned cd anchorRaw of
        None \<Rightarrow> Inl (Wrapped ''trust anchors envelope'' (EnvErr ErrDecodeEnvelope))
      | Some anchorEnv \<Rightarrow>
          (case dec_TrustAnchors cd (ms_Payload anchorEnv) of
             None \<Rightarrow> Inl (Wrapped ''trust anchors payload'' (EnvErr ErrUnmarshal))
           | Some anchors \<Rightarrow>
               bindE (PinnedTrustKeys anchors) (\<lambda>pinned.
               bindE (mapE (\<lambda>e. Wrapped ''routine map envelope'' (EnvErr e))
                        (DecodeSigned (dec_Signed cd) mapRaw)) (\<lambda>mapEnv.
               VerifyFleetState c (dec_TrustAnchors cd) (dec_RoutineMap cd) pinned
                 (ta_Threshold anchors) minAnchor minConfig (Some anchorEnv) (Some mapEnv) now))))"

text \<open>The trust part of \<open>NewWorker\<close>: the worker rebuilt from the persisted documents.\<close>

definition NewWorker :: "crypto \<Rightarrow> codec \<Rightarrow> io \<Rightarrow> gotime \<Rightarrow> agent_state \<Rightarrow> doc_error + worker" where
  "NewWorker c cd d now st =
     (let w0 = \<lparr>w_st = st, w_cluster = None, w_trusted = Map.empty, w_configTrust = Map.empty,
                w_pinnedTrust = None, w_pinnedThreshold = 0, w_anchorVersion = 0,
                w_anchorRaw = [], w_routineRaw = [], w_connStale = False\<rparr> in
      bindE (if length (st_ClusterRaw st) > 0
             then bindE (parseAndCheckClusterConfig c cd (st_ClusterRaw st) 0) (\<lambda>(cluster, trusted).
                  bindE (TrustedConfigKeys cluster) (\<lambda>ct.
                  Inr (w0\<lparr>w_cluster := Some cluster, w_trusted := trusted, w_configTrust := ct\<rparr>)))
             else Inr w0) (\<lambda>w1.
      if SplitMode st
      then bindE (parseAndCheckFleetState c cd now (st_AnchorRaw st) (st_RoutineMapRaw st) 0 0) (\<lambda>fs.
           case adoptFleetState d fs (st_AnchorRaw st) (st_RoutineMapRaw st) w1 of
             (Some e, _) \<Rightarrow> Inl e
           | (None, w2) \<Rightarrow> Inr w2)
      else Inr w1))"

section \<open>Relay resolver\<close>

record resolver =
  gr_trust :: "keyset option"
  gr_have :: int
  gr_pinnedTrust :: "keyset option"
  gr_pinnedThreshold :: int
  gr_haveAnchor :: int
  gr_haveMap :: int

definition controllerTable :: "ControllerEndpoint list \<Rightarrow> (string \<rightharpoonup> string list)" where
  "controllerTable gws =
     foldl (\<lambda>table gw. if ce_ControllerID gw \<noteq> '''' \<and> length (ce_Addrs gw) > 0
                       then table(ce_ControllerID gw \<mapsto> ce_Addrs gw) else table) Map.empty gws"

definition resolveLegacy ::
    "crypto \<Rightarrow> codec \<Rightarrow> bytes \<Rightarrow> resolver \<Rightarrow> (string \<rightharpoonup> string list) option \<times> resolver" where
  "resolveLegacy c cd signed g =
     (if signed = [] then (None, g)
      else case dec_Signed cd signed of
        None \<Rightarrow> (None, g)
      | Some env \<Rightarrow>
          (case (case gr_trust g of
                   Some t \<Rightarrow> Inr t
                 | None \<Rightarrow>
                     (case dec_ClusterConfig cd (s_Payload env) of
                        None \<Rightarrow> Inl (EnvErr ErrUnmarshal)
                      | Some unverified \<Rightarrow> TrustedConfigKeys unverified)) of
             Inl _ \<Rightarrow> (None, g)
           | Inr trust \<Rightarrow>
               (case VerifyClusterConfig c (dec_ClusterConfig cd) trust (Some env) (gr_have g) of
                  Inl _ \<Rightarrow> (None, g)
                | Inr cc \<Rightarrow>
                    (Some (controllerTable (cc_ControllerEndpoints cc)),
                     g\<lparr>gr_trust := Some trust, gr_have := cc_ConfigVersion cc\<rparr>))))"

definition resolveSplit ::
    "crypto \<Rightarrow> codec \<Rightarrow> gotime \<Rightarrow> bytes \<Rightarrow> bytes \<Rightarrow> resolver
       \<Rightarrow> (string \<rightharpoonup> string list) option \<times> resolver" where
  "resolveSplit c cd now anchorRaw mapRaw g =
     (case (dec_MultiSigned cd anchorRaw, dec_Signed cd mapRaw) of
        (Some anchorEnv, Some mapEnv) \<Rightarrow>
          (case (case gr_pinnedTrust g of
                   Some p \<Rightarrow> Inr (p, gr_pinnedThreshold g)
                 | None \<Rightarrow>
                     (case dec_TrustAnchors cd (ms_Payload anchorEnv) of
                        None \<Rightarrow> Inl (EnvErr ErrUnmarshal)
                      | Some a \<Rightarrow> bindE (PinnedTrustKeys a) (\<lambda>p. Inr (p, ta_Threshold a)))) of
             Inl _ \<Rightarrow> (None, g)
           | Inr (pinned, threshold) \<Rightarrow>
               (case VerifyFleetState c (dec_TrustAnchors cd) (dec_RoutineMap cd) pinned threshold
                       (gr_haveAnchor g) (gr_haveMap g) (Some anchorEnv) (Some mapEnv) now of
                  Inl _ \<Rightarrow> (None, g)
                | Inr fs \<Rightarrow>
                    (Some (controllerTable (rm_ControllerEndpoints (fs_Map fs))),
                     g\<lparr>gr_pinnedTrust := Some pinned, gr_pinnedThreshold := threshold,
                       gr_haveAnchor := ta_AnchorVersion (fs_Anchors fs),
                       gr_haveMap := rm_ConfigVersion (fs_Map fs)\<rparr>)))
      | _ \<Rightarrow> (None, g))"

definition resolve ::
    "crypto \<Rightarrow> codec \<Rightarrow> gotime \<Rightarrow> bytes \<Rightarrow> bytes \<Rightarrow> bytes \<Rightarrow> resolver
       \<Rightarrow> (string \<rightharpoonup> string list) option \<times> resolver" where
  "resolve c cd now legacy anchorRaw mapRaw g =
     (if length anchorRaw > 0 \<and> length mapRaw > 0 then resolveSplit c cd now anchorRaw mapRaw g
      else case gr_pinnedTrust g of
          Some _ \<Rightarrow> (None, g)
        | None \<Rightarrow> resolveLegacy c cd legacy g)"

section \<open>Lemmas\<close>

text \<open>A push as one event, so that sequences of pushes can be folded.\<close>

record push =
  p_io :: io
  p_now :: gotime
  p_anchor :: bytes
  p_map :: bytes
  p_legacy :: bytes

definition push_step :: "crypto \<Rightarrow> codec \<Rightarrow> worker \<Rightarrow> push \<Rightarrow> worker" where
  "push_step c cd w p = handleFleetPush c cd (p_io p) (p_now p) (p_anchor p) (p_map p) (p_legacy p) w"

text \<open>The anchor floor: none before the first pin.\<close>

definition anchor_floor :: "worker \<Rightarrow> int" where
  "anchor_floor w = (case w_pinnedTrust w of None \<Rightarrow> 0 | Some _ \<Rightarrow> w_anchorVersion w)"

lemma save_roots_simps [simp]:
  "w_cluster (save_roots pem w) = w_cluster w"
  "w_trusted (save_roots pem w) = w_trusted w"
  "w_pinnedTrust (save_roots pem w) = w_pinnedTrust w"
  "w_anchorVersion (save_roots pem w) = w_anchorVersion w"
  "st_AnchorRaw (w_st (save_roots pem w)) = st_AnchorRaw (w_st w)"
  "st_RoutineMapRaw (w_st (save_roots pem w)) = st_RoutineMapRaw (w_st w)"
  "st_ClusterRaw (w_st (save_roots pem w)) = st_ClusterRaw (w_st w)"
  by (simp_all add: save_roots_def)

lemma handleFleetState_cases:
  obtains (same) "handleFleetState c cd d now a m w = w"
  | (adopt) av mv p t ha hc fs where
      "a \<noteq> []" "m \<noteq> []" "dec_MultiSigned cd a = Some av" "dec_Signed cd m = Some mv"
      "verify_basis cd av w = Inr (p, t, ha, hc)"
      "VerifyFleetState c (dec_TrustAnchors cd) (dec_RoutineMap cd) p t ha hc (Some av) (Some mv) now = Inr fs"
      "handleFleetState c cd d now a m w =
         snd (adoptFleetState d fs a m (w\<lparr>w_st := (w_st w)\<lparr>st_AnchorRaw := a, st_RoutineMapRaw := m\<rparr>\<rparr>))"
proof (cases "handleFleetState c cd d now a m w = w")
  case True
  then show ?thesis by (rule same)
next
  case False
  then have ne: "a \<noteq> []" "m \<noteq> []" by (auto simp: handleFleetState_def)
  from False obtain av mv where env: "dec_MultiSigned cd a = Some av" "dec_Signed cd m = Some mv"
    by (auto simp: handleFleetState_def split: option.splits if_splits)
  from False obtain p t ha hc where b: "verify_basis cd av w = Inr (p, t, ha, hc)"
    by (cases "verify_basis cd av w") (auto simp: handleFleetState_def env ne)
  from False obtain fs where
    v: "VerifyFleetState c (dec_TrustAnchors cd) (dec_RoutineMap cd) p t ha hc (Some av) (Some mv) now = Inr fs"
    by (cases "VerifyFleetState c (dec_TrustAnchors cd) (dec_RoutineMap cd) p t ha hc (Some av) (Some mv) now")
      (auto simp: handleFleetState_def env ne b)
  have "handleFleetState c cd d now a m w =
      snd (adoptFleetState d fs a m (w\<lparr>w_st := (w_st w)\<lparr>st_AnchorRaw := a, st_RoutineMapRaw := m\<rparr>\<rparr>))"
    using False by (simp add: handleFleetState_def env ne b v split: if_splits)
  with ne env b v show ?thesis by (rule adopt)
qed

lemma adoptFleetState_cases:
  obtains (refused) e where "adoptFleetState d fs a m w = (Some e, w)"
  | (adopted) g p where
      "TrustedGrantKeys (fs_Anchors fs) = Inr g" "PinnedTrustKeys (fs_Anchors fs) = Inr p"
      "adoptFleetState d fs a m w = (None, (save_roots (ta_CARootsPEM (fs_Anchors fs)) w)
         \<lparr>w_cluster := Some (clusterViewFromFleetState fs), w_trusted := g,
          w_pinnedTrust := Some p, w_pinnedThreshold := ta_Threshold (fs_Anchors fs),
          w_anchorVersion := ta_AnchorVersion (fs_Anchors fs), w_anchorRaw := a, w_routineRaw := m\<rparr>)"
proof (cases "TrustedGrantKeys (fs_Anchors fs)")
  case (Inl e)
  then show ?thesis by (intro refused) (simp add: adoptFleetState_def)
next
  case g: (Inr g)
  show ?thesis
  proof (cases "PinnedTrustKeys (fs_Anchors fs)")
    case (Inl e)
    with g show ?thesis by (intro refused) (simp add: adoptFleetState_def)
  next
    case (Inr p)
    show ?thesis
    proof (cases "roots_change w (ta_CARootsPEM (fs_Anchors fs)) \<and> \<not> io_roots d")
      case True
      with g Inr show ?thesis by (intro refused) (simp add: adoptFleetState_def)
    next
      case False
      then have "adoptFleetState d fs a m w = (None, (save_roots (ta_CARootsPEM (fs_Anchors fs)) w)
         \<lparr>w_cluster := Some (clusterViewFromFleetState fs), w_trusted := g,
          w_pinnedTrust := Some p, w_pinnedThreshold := ta_Threshold (fs_Anchors fs),
          w_anchorVersion := ta_AnchorVersion (fs_Anchors fs), w_anchorRaw := a, w_routineRaw := m\<rparr>)"
        by (simp only: adoptFleetState_def g Inr sum.case if_False)
      with g Inr show ?thesis by (rule adopted)
    qed
  qed
qed

lemma clusterVersion_view [simp]:
  "w_cluster w = Some (clusterViewFromFleetState fs) \<Longrightarrow> clusterVersion w = rm_ConfigVersion (fs_Map fs)"
  by (simp add: clusterVersion_def clusterViewFromFleetState_def)

lemma verify_basis_floors:
  "verify_basis cd av w = Inr (p, t, ha, hc) \<Longrightarrow> ha = anchor_floor w \<and> hc = clusterVersion w"
  by (auto simp: verify_basis_def anchor_floor_def errE split: option.splits)

lemma handleFleetState_floors:
  "clusterVersion w \<le> clusterVersion (handleFleetState c cd d now a m w) \<and>
   anchor_floor w \<le> anchor_floor (handleFleetState c cd d now a m w) \<and>
   (w_pinnedTrust w \<noteq> None \<longrightarrow> w_pinnedTrust (handleFleetState c cd d now a m w) \<noteq> None)"
proof (cases rule: handleFleetState_cases [of c cd d now a m w])
  case same
  then show ?thesis by simp
next
  case (adopt av mv p t ha hc fs)
  let ?w1 = "w\<lparr>w_st := (w_st w)\<lparr>st_AnchorRaw := a, st_RoutineMapRaw := m\<rparr>\<rparr>"
  have fl: "anchor_floor w \<le> ta_AnchorVersion (fs_Anchors fs)"
    "clusterVersion w \<le> rm_ConfigVersion (fs_Map fs)"
    using adopt(6) verify_basis_floors [OF adopt(5)] by (auto simp: VerifyFleetState_accepts_iff)
  show ?thesis
  proof (cases rule: adoptFleetState_cases [of d fs a m ?w1])
    case (refused e)
    then show ?thesis
      by (simp add: adopt(7) clusterVersion_def anchor_floor_def split: option.splits)
  next
    case (adopted g p')
    with fl show ?thesis by (simp add: adopt(7)) (simp add: anchor_floor_def)
  qed
qed

lemma handleClusterConfig_floors:
  "clusterVersion w \<le> clusterVersion (handleClusterConfig c cd d raw w) \<and>
   w_pinnedTrust (handleClusterConfig c cd d raw w) = w_pinnedTrust w \<and>
   anchor_floor (handleClusterConfig c cd d raw w) = anchor_floor w"
  unfolding handleClusterConfig_def Let_def anchor_floor_def
  by (auto split: sum.splits option.splits
        simp: VerifyClusterConfig_accepts_iff clusterVersion_def)

lemma push_step_floors:
  "clusterVersion w \<le> clusterVersion (push_step c cd w p) \<and>
   anchor_floor w \<le> anchor_floor (push_step c cd w p) \<and>
   (w_pinnedTrust w \<noteq> None \<longrightarrow> w_pinnedTrust (push_step c cd w p) \<noteq> None)"
  using handleFleetState_floors [of w c cd "p_io p" "p_now p" "p_anchor p" "p_map p"]
    handleClusterConfig_floors [of w c cd "p_io p" "p_legacy p"]
  by (simp add: push_step_def handleFleetPush_def)

interpretation agent_config: versioned "push_step c cd" clusterVersion for c cd
  by unfold_locales (simp add: push_step_floors)

interpretation agent_anchor: versioned "push_step c cd" anchor_floor for c cd
  by unfold_locales (simp add: push_step_floors)

interpretation agent_pin: step_system "push_step c cd" "\<lambda>w. w_pinnedTrust w \<noteq> None" for c cd
  by unfold_locales (use push_step_floors in blast)

text \<open>The key ids of a held set that signed an anchors envelope.\<close>

definition anchor_signers :: "crypto \<Rightarrow> keyset \<Rightarrow> MultiSigned \<Rightarrow> string set" where
  "anchor_signers c K av =
     valid_signers c K (signingInput ContextTrustAnchors (ms_Payload av)) (ms_Sigs av)"

lemma handleFleetPush_pinned_change:
  assumes pin: "w_pinnedTrust w = Some K" and ch: "handleFleetPush c cd d now a m l w \<noteq> w"
  obtains av mv fs where "dec_MultiSigned cd a = Some av" "dec_Signed cd m = Some mv"
    "VerifyFleetState c (dec_TrustAnchors cd) (dec_RoutineMap cd) K (w_pinnedThreshold w)
       (w_anchorVersion w) (clusterVersion w) (Some av) (Some mv) now = Inr fs"
proof -
  have eq: "handleFleetPush c cd d now a m l w = handleFleetState c cd d now a m w"
    using pin ch by (simp add: handleFleetPush_def alreadyPinned_def split: if_splits)
  show ?thesis
  proof (cases rule: handleFleetState_cases [of c cd d now a m w])
    case same
    with ch eq show ?thesis by simp
  next
    case (adopt av mv p t ha hc fs)
    then show ?thesis using pin by (intro that [of av mv fs]) (simp_all add: verify_basis_def)
  qed
qed

lemma handleFleetPush_persists:
  assumes pin: "w_pinnedTrust w = Some K" and ch: "handleFleetPush c cd d now a m l w \<noteq> w"
  shows "st_AnchorRaw (w_st (handleFleetPush c cd d now a m l w)) = a \<and>
         st_RoutineMapRaw (w_st (handleFleetPush c cd d now a m l w)) = m \<and> a \<noteq> [] \<and> m \<noteq> []"
proof -
  have eq: "handleFleetPush c cd d now a m l w = handleFleetState c cd d now a m w"
    using pin ch by (simp add: handleFleetPush_def alreadyPinned_def split: if_splits)
  let ?w1 = "w\<lparr>w_st := (w_st w)\<lparr>st_AnchorRaw := a, st_RoutineMapRaw := m\<rparr>\<rparr>"
  show ?thesis
  proof (cases rule: handleFleetState_cases [of c cd d now a m w])
    case same
    with ch eq show ?thesis by simp
  next
    case (adopt av mv p t ha hc fs)
    show ?thesis
      by (cases rule: adoptFleetState_cases [of d fs a m ?w1]) (simp_all add: eq adopt)
  qed
qed

lemma parseAndCheckFleetState_iff:
  "parseAndCheckFleetState c cd now a m ha hc = Inr fs \<longleftrightarrow>
     (\<exists>av mv anchors p. dec_MultiSigned cd a = Some av \<and> dec_Signed cd m = Some mv \<and>
        dec_TrustAnchors cd (ms_Payload av) = Some anchors \<and> PinnedTrustKeys anchors = Inr p \<and>
        VerifyFleetState c (dec_TrustAnchors cd) (dec_RoutineMap cd) p (ta_Threshold anchors) ha hc
          (Some av) (Some mv) now = Inr fs)"
  unfolding parseAndCheckFleetState_def DecodeSigned_def
  by (auto simp: bindE_eq_Inr mapE_eq_Inr split: option.splits)

text \<open>Re-verifying an accepted pair under another key set, floor and clock.\<close>

lemma VerifyFleetState_again:
  assumes "VerifyFleetState c ua um K t ha hc (Some av) (Some mv) now = Inr fs"
  shows "VerifyFleetState c ua um K' t' 0 0 (Some av) (Some mv) now' = Inr fs' \<longleftrightarrow>
     fs' = fs \<and> max 1 t' \<le> int (card (anchor_signers c K' av)) \<and>
     0 \<le> ta_AnchorVersion (fs_Anchors fs) \<and> 0 \<le> rm_ConfigVersion (fs_Map fs) \<and>
     (ta_ExpiresAt (fs_Anchors fs) = 0 \<or> now' \<le> ta_ExpiresAt (fs_Anchors fs))"
  using assms unfolding VerifyFleetState_accepts_iff anchor_signers_def
  by (cases fs; cases fs') auto

lemma adoptFleetState_ok_iff:
  assumes "TrustedGrantKeys (fs_Anchors fs) = Inr g" and "io_roots d"
  shows "fst (adoptFleetState d fs a m w) = None \<longleftrightarrow> okE (PinnedTrustKeys (fs_Anchors fs))"
  using assms by (auto simp: adoptFleetState_def okE_iff split: sum.splits)

text \<open>The legacy half of the reload: nothing held, or a config that verifies against its own keys.\<close>

definition legacy_reloads :: "crypto \<Rightarrow> codec \<Rightarrow> agent_state \<Rightarrow> bool" where
  "legacy_reloads c cd st \<longleftrightarrow>
     st_ClusterRaw st = [] \<or> okE (parseAndCheckClusterConfig c cd (st_ClusterRaw st) 0)"

lemma parseAndCheckClusterConfig_trust:
  "parseAndCheckClusterConfig c cd raw v = Inr (cfg, g) \<Longrightarrow> okE (TrustedConfigKeys cfg)"
  by (auto simp: parseAndCheckClusterConfig_def bindE_eq_Inr mapE_eq_Inr okE_iff
        VerifyClusterConfig_accepts_iff split: option.splits)

lemma NewWorker_split_iff:
  assumes "SplitMode st" and "io_roots d"
  shows "okE (NewWorker c cd d now st) \<longleftrightarrow>
     legacy_reloads c cd st \<and>
     (\<exists>fs. parseAndCheckFleetState c cd now (st_AnchorRaw st) (st_RoutineMapRaw st) 0 0 = Inr fs)"
    (is "_ \<longleftrightarrow> _ \<and> ?split")
proof -
  have ad: "\<exists>w2. adoptFleetState d fs a m w1 = (None, w2)"
    if "parseAndCheckFleetState c cd now a m 0 0 = Inr fs" for fs a m w1
  proof -
    from that have "okE (PinnedTrustKeys (fs_Anchors fs))"
      "\<exists>g. TrustedGrantKeys (fs_Anchors fs) = Inr g"
      by (auto simp: parseAndCheckFleetState_iff VerifyFleetState_accepts_iff TrustedGrantKeys_def
            keys_to_map_nonempty_Inr)
    then show ?thesis using adoptFleetState_ok_iff [OF _ assms(2)] by (metis fst_conv surj_pair)
  qed
  let ?w0 = "\<lparr>w_st = st, w_cluster = None, w_trusted = Map.empty, w_configTrust = Map.empty,
    w_pinnedTrust = None, w_pinnedThreshold = 0, w_anchorVersion = 0,
    w_anchorRaw = [], w_routineRaw = [], w_connStale = False\<rparr>"
  let ?legacy = "if length (st_ClusterRaw st) > 0
     then bindE (parseAndCheckClusterConfig c cd (st_ClusterRaw st) 0) (\<lambda>(cluster, trusted).
          bindE (TrustedConfigKeys cluster) (\<lambda>ct.
          Inr (?w0\<lparr>w_cluster := Some cluster, w_trusted := trusted, w_configTrust := ct\<rparr>)))
     else Inr ?w0"
  have leg: "okE ?legacy \<longleftrightarrow> legacy_reloads c cd st"
    using parseAndCheckClusterConfig_trust [of c cd "st_ClusterRaw st" 0]
    by (cases "parseAndCheckClusterConfig c cd (st_ClusterRaw st) 0")
      (auto simp: legacy_reloads_def okE_iff)
  show ?thesis
  proof (cases ?legacy)
    case (Inl e)
    then show ?thesis using leg by (simp add: NewWorker_def Let_def)
  next
    case (Inr w1)
    then have "legacy_reloads c cd st" using leg by simp
    moreover have "okE (NewWorker c cd d now st) \<longleftrightarrow> ?split"
      using Inr assms(1) ad [of "st_AnchorRaw st" "st_RoutineMapRaw st" _ w1]
      by (cases "parseAndCheckFleetState c cd now (st_AnchorRaw st) (st_RoutineMapRaw st) 0 0")
        (auto simp: NewWorker_def Let_def)
    ultimately show ?thesis by simp
  qed
qed

subsection \<open>Relay\<close>

record rpush =
  rp_now :: gotime
  rp_legacy :: bytes
  rp_anchor :: bytes
  rp_map :: bytes

definition resolve_step :: "crypto \<Rightarrow> codec \<Rightarrow> resolver \<Rightarrow> rpush \<Rightarrow> resolver" where
  "resolve_step c cd g p = snd (resolve c cd (rp_now p) (rp_legacy p) (rp_anchor p) (rp_map p) g)"

definition pinned_to :: "keyset \<Rightarrow> int \<Rightarrow> resolver \<Rightarrow> bool" where
  "pinned_to K t g \<longleftrightarrow> gr_pinnedTrust g = Some K \<and> gr_pinnedThreshold g = t"

lemma resolve_pinned_to:
  "pinned_to K t g \<Longrightarrow> pinned_to K t (snd (resolve c cd now l a m g))"
  by (auto simp: resolve_def resolveSplit_def pinned_to_def split: option.splits sum.splits)

lemma resolve_accepts_pinned:
  assumes "pinned_to K t g" and "fst (resolve c cd now l a m g) = Some table"
  shows "\<exists>av. dec_MultiSigned cd a = Some av \<and> max 1 t \<le> int (card (anchor_signers c K av))"
  using assms
  by (auto simp: resolve_def resolveSplit_def pinned_to_def VerifyFleetState_accepts_iff
        anchor_signers_def split: option.splits sum.splits if_splits)

lemma resolve_step_floors:
  "gr_have g \<le> gr_have (resolve_step c cd g p)"
  "gr_haveAnchor g \<le> gr_haveAnchor (resolve_step c cd g p)"
  "gr_haveMap g \<le> gr_haveMap (resolve_step c cd g p)"
  unfolding resolve_step_def resolve_def resolveSplit_def resolveLegacy_def
  by (auto simp: VerifyFleetState_accepts_iff VerifyClusterConfig_accepts_iff
        split: option.splits sum.splits)

interpretation relay_pin: step_system "resolve_step c cd" "pinned_to K t" for c cd K t
  by unfold_locales (simp add: resolve_step_def resolve_pinned_to)

interpretation relay_config: versioned "resolve_step c cd" gr_have for c cd
  by unfold_locales (rule resolve_step_floors)

interpretation relay_anchor: versioned "resolve_step c cd" gr_haveAnchor for c cd
  by unfold_locales (rule resolve_step_floors)

interpretation relay_map: versioned "resolve_step c cd" gr_haveMap for c cd
  by unfold_locales (rule resolve_step_floors)

section \<open>A two-document fleet for the witnesses\<close>

text \<open>
  Two trust keys, \<open>old\<close> and \<open>new\<close>, and one grant key; a signature is valid when it starts with the
  key.  The anchors \<open>A1\<close> list the old trust key; \<open>A2\<close> rotates to the new one and is signed by the
  old one only.
\<close>

definition demo_key :: "char \<Rightarrow> bytes" where "demo_key x = replicate 32 x"
definition demo_sig :: "char \<Rightarrow> bytes" where "demo_sig x = replicate 64 x"

definition demo_crypto :: crypto where
  "demo_crypto = \<lparr>ed25519_Verify = (\<lambda>pub _ sig. hd sig = hd pub), sha256_Sum256 = id\<rparr>"

definition demo_anchors :: "int \<Rightarrow> char \<Rightarrow> TrustAnchors" where
  "demo_anchors v x =
     \<lparr>ta_AnchorVersion = v, ta_GrantKeys = [\<lparr>gk_KeyID = ''g'', gk_PublicKey = demo_key CHR ''g'',
        gk_Workspaces = []\<rparr>], ta_CARootsPEM = [],
      ta_AgentPolicy = \<lparr>ap_ForbidDetach = False, ap_MaxSessions = 0, ap_MaxDetached = 0,
        ap_RingBufferBytes = 0, ap_DetachedTTLSec = 0, ap_IdleReapSec = 0\<rparr>,
      ta_AuditRecipient = [], ta_AuditRecipients = [],
      ta_TrustKeys = [\<lparr>tk_KeyID = [x], tk_PublicKey = demo_key x\<rparr>], ta_Threshold = 1,
      ta_ExpiresAt = 0\<rparr>"

definition demo_map :: "int \<Rightarrow> bytes \<Rightarrow> RoutineMap" where
  "demo_map v digest = \<lparr>rm_ConfigVersion = v, rm_AnchorVersion = v, rm_AnchorDigest = digest,
     rm_RelayAddrs = [], rm_Relays = [], rm_ControllerEndpoints = []\<rparr>"

definition demo_codec :: codec where
  "demo_codec =
     \<lparr>dec_Signed = (\<lambda>b. Some \<lparr>s_Payload = b, s_Sig = demo_sig CHR ''g'', s_KeyID = ''g''\<rparr>),
      dec_MultiSigned = (\<lambda>b. Some \<lparr>ms_Payload = b, ms_Sigs = [\<lparr>os_KeyID = ''o'', os_Sig = demo_sig CHR ''o''\<rparr>]\<rparr>),
      dec_ClusterConfig = (\<lambda>_. None),
      dec_TrustAnchors = (\<lambda>b. if b = ''A1'' then Some (demo_anchors 1 CHR ''o'')
                              else if b = ''A2'' then Some (demo_anchors 2 CHR ''n'') else None),
      dec_RoutineMap = (\<lambda>b. if b = ''M1'' then Some (demo_map 1 ''A1'')
                            else if b = ''M2'' then Some (demo_map 2 ''A2'') else None)\<rparr>"

definition demo_io :: io where "demo_io = \<lparr>io_config = True, io_fleet = True, io_roots = True\<rparr>"

text \<open>A node that holds the first pair, pinned to the old trust key.\<close>

definition demo_worker :: worker where
  "demo_worker =
     \<lparr>w_st = \<lparr>st_CARootsPEM = [], st_ClusterRaw = [], st_AnchorRaw = ''A1'', st_RoutineMapRaw = ''M1''\<rparr>,
      w_cluster = Some (clusterViewFromFleetState
        \<lparr>fs_Anchors = demo_anchors 1 CHR ''o'', fs_Map = demo_map 1 ''A1'', fs_AnchorPayload = ''A1''\<rparr>),
      w_trusted = [''g'' \<mapsto> demo_key CHR ''g''], w_configTrust = Map.empty,
      w_pinnedTrust = Some [''o'' \<mapsto> demo_key CHR ''o''], w_pinnedThreshold = 1,
      w_anchorVersion = 1, w_anchorRaw = ''A1'', w_routineRaw = ''M1'', w_connStale = False\<rparr>"

lemmas demo_defs =
  demo_key_def demo_sig_def demo_crypto_def demo_anchors_def demo_map_def demo_codec_def demo_io_def
  demo_worker_def

lemmas demo_eval =
  demo_defs handleFleetPush_def handleFleetState_def adoptFleetState_def verify_basis_def
  VerifyFleetState_def VerifyMultiSig_def Verify_def unmarshal_into_def keyset_defs
  keys_to_map_nonempty_def clusterVersion_def clusterViewFromFleetState_def SplitMode_def
  save_roots_def roots_change_def AnchorDigestOf_def alreadyPinned_def

lemma demo_rotation:
  "handleFleetPush demo_crypto demo_codec demo_io 0 ''A2'' ''M2'' [] demo_worker =
     demo_worker\<lparr>w_st := (w_st demo_worker)\<lparr>st_AnchorRaw := ''A2'', st_RoutineMapRaw := ''M2''\<rparr>,
       w_cluster := Some (clusterViewFromFleetState
         \<lparr>fs_Anchors = demo_anchors 2 CHR ''n'', fs_Map = demo_map 2 ''A2'', fs_AnchorPayload = ''A2''\<rparr>),
       w_pinnedTrust := Some [''n'' \<mapsto> demo_key CHR ''n''],
       w_anchorVersion := 2, w_anchorRaw := ''A2'', w_routineRaw := ''M2''\<rparr>"
  by (simp add: demo_eval)

lemma demo_rotation_changes:
  "handleFleetPush demo_crypto demo_codec demo_io 0 ''A2'' ''M2'' [] demo_worker \<noteq> demo_worker"
  by (simp add: demo_rotation) (simp add: demo_worker_def)

section \<open>Properties\<close>

text \<open>
  C1: Containment of a compromised controller.  Once an agent has pinned a trust set, a push that
  changes anything in its trust state (pinned keys, grant keys, versions or persisted documents)
  carries anchors signed by a quorum of the keys it already holds, no older than the held ones, and
  a routine map no older than the held one; legacy configs and everything else are ignored.
\<close>

theorem pinned_agent_needs_held_quorum:
  assumes "w_pinnedTrust w = Some K" and "handleFleetPush c cd d now a m l w \<noteq> w"
  shows "\<exists>av mv anchors rm. dec_MultiSigned cd a = Some av \<and> dec_Signed cd m = Some mv \<and>
      dec_TrustAnchors cd (ms_Payload av) = Some anchors \<and> dec_RoutineMap cd (s_Payload mv) = Some rm \<and>
      max 1 (w_pinnedThreshold w) \<le> int (card {os_KeyID one | one. one \<in> set (ms_Sigs av) \<and>
         sig_valid c K (signingInput ContextTrustAnchors (ms_Payload av)) (os_KeyID one) (os_Sig one)}) \<and>
      w_anchorVersion w \<le> ta_AnchorVersion anchors \<and> clusterVersion w \<le> rm_ConfigVersion rm"
  using assms
  by (rule handleFleetPush_pinned_change)
    (auto simp: VerifyFleetState_accepts_iff simp flip: valid_signers_def)

theorem pinned_agent_needs_held_quorum_witness:
  "\<exists>av. dec_MultiSigned demo_codec ''A2'' = Some av \<and>
     1 \<le> int (card {os_KeyID one | one. one \<in> set (ms_Sigs av) \<and>
         sig_valid demo_crypto [''o'' \<mapsto> demo_key CHR ''o'']
           (signingInput ContextTrustAnchors (ms_Payload av)) (os_KeyID one) (os_Sig one)})"
proof -
  have "w_pinnedTrust demo_worker = Some [''o'' \<mapsto> demo_key CHR ''o'']"
    and "w_pinnedThreshold demo_worker = 1" by (simp_all add: demo_worker_def)
  with pinned_agent_needs_held_quorum [OF _ demo_rotation_changes] show ?thesis by fastforce
qed

text \<open>
  C5: Rollback protection over any history.  However many pushes of whatever content arrive, in
  whatever order and whichever writes fail, the config version and the anchor version an agent holds
  never decrease, and a node that has pinned a split trust root stays pinned.
\<close>

theorem agent_never_rolls_back:
  "clusterVersion (foldl (push_step c cd) w ps) \<le> clusterVersion (foldl (push_step c cd) w (ps @ qs)) \<and>
   anchor_floor (foldl (push_step c cd) w ps) \<le> anchor_floor (foldl (push_step c cd) w (ps @ qs)) \<and>
   (alreadyPinned (foldl (push_step c cd) w ps) \<longrightarrow> alreadyPinned (foldl (push_step c cd) w (ps @ qs)))"
  using agent_config.ver_run [of "foldl (push_step c cd) w ps" c cd qs]
    agent_anchor.ver_run [of "foldl (push_step c cd) w ps" c cd qs]
    agent_pin.run_inv [of "foldl (push_step c cd) w ps" c cd qs]
  by (auto simp: alreadyPinned_def split: option.splits)

theorem agent_never_rolls_back_witness:
  "alreadyPinned (foldl (push_step demo_crypto demo_codec) demo_worker
     [\<lparr>p_io = demo_io, p_now = 0, p_anchor = [], p_map = [], p_legacy = ''x''\<rparr>])"
proof -
  have "alreadyPinned demo_worker" by (simp add: demo_worker_def alreadyPinned_def)
  then show ?thesis
    using agent_never_rolls_back [of demo_crypto demo_codec demo_worker "[]"
      "[\<lparr>p_io = demo_io, p_now = 0, p_anchor = [], p_map = [], p_legacy = ''x''\<rparr>]"] by simp
qed

text \<open>
  What a restart needs.  After a push changed a pinned agent, the persisted pair reloads exactly
  when the anchors are signed by a quorum of the trust keys they themselves list (the reload
  verifies them against their own set), they have not expired meanwhile, versions are not negative,
  and the legacy config, if one is still held, passes its own self-check.  A rotation signed only by
  the outgoing keys is therefore adopted and persisted but refused at the next start.
\<close>

theorem adopted_pair_reloads_iff:
  assumes pin: "w_pinnedTrust w = Some K"
    and adopted: "handleFleetPush c cd d now a m l w = w'" "w' \<noteq> w"
    and roots: "io_roots d'"
  shows "okE (NewWorker c cd d' now' (w_st w')) \<longleftrightarrow>
     legacy_reloads c cd (w_st w') \<and>
     (\<exists>av mv anchors rm own. dec_MultiSigned cd a = Some av \<and> dec_Signed cd m = Some mv \<and>
        dec_TrustAnchors cd (ms_Payload av) = Some anchors \<and>
        dec_RoutineMap cd (s_Payload mv) = Some rm \<and>
        PinnedTrustKeys anchors = Inr own \<and>
        max 1 (ta_Threshold anchors) \<le> int (card (anchor_signers c own av)) \<and>
        (ta_ExpiresAt anchors = 0 \<or> now' \<le> ta_ExpiresAt anchors) \<and>
        0 \<le> ta_AnchorVersion anchors \<and> 0 \<le> rm_ConfigVersion rm)"
proof -
  obtain av mv fs where dec: "dec_MultiSigned cd a = Some av" "dec_Signed cd m = Some mv"
    and v: "VerifyFleetState c (dec_TrustAnchors cd) (dec_RoutineMap cd) K (w_pinnedThreshold w)
       (w_anchorVersion w) (clusterVersion w) (Some av) (Some mv) now = Inr fs"
    using handleFleetPush_pinned_change [OF pin] adopted by blast
  have st: "st_AnchorRaw (w_st w') = a" "st_RoutineMapRaw (w_st w') = m" "a \<noteq> []" "m \<noteq> []"
    using handleFleetPush_persists [OF pin] adopted by blast+
  then have split: "SplitMode (w_st w')" by (simp add: SplitMode_def)
  from v have ua: "dec_TrustAnchors cd (ms_Payload av) = Some (fs_Anchors fs)"
    and um: "dec_RoutineMap cd (s_Payload mv) = Some (fs_Map fs)"
    by (auto simp: VerifyFleetState_accepts_iff)
  show ?thesis
    unfolding NewWorker_split_iff [OF split roots] parseAndCheckFleetState_iff st
    using VerifyFleetState_again [OF v] dec ua um by auto
qed

text \<open>The rotation of the example is adopted, and the node then fails to start.\<close>

theorem adopted_pair_reloads_iff_witness:
  "\<not> okE (NewWorker demo_crypto demo_codec demo_io 0
      (w_st (handleFleetPush demo_crypto demo_codec demo_io 0 ''A2'' ''M2'' [] demo_worker)))"
proof -
  have pin: "w_pinnedTrust demo_worker = Some [''o'' \<mapsto> demo_key CHR ''o'']"
    by (simp add: demo_worker_def)
  have roots: "io_roots demo_io" by (simp add: demo_io_def)
  show ?thesis
    unfolding adopted_pair_reloads_iff [OF pin refl demo_rotation_changes roots]
    by (simp add: demo_defs keyset_defs keys_to_map_nonempty_def anchor_signers_def valid_signers_Cons
          sig_valid_def)
qed

text \<open>
  A relay's pin is fixed for the life of the process.  Whatever rotations a pinned relay
  accepts, it keeps the key set and threshold of its first pin, so every later anchors document it
  accepts is signed by a quorum of that first set; it does not re-pin to the rotated set the way an
  agent does.
\<close>

theorem relay_never_repins:
  assumes "gr_pinnedTrust g = Some K"
  shows "gr_pinnedTrust (foldl (resolve_step c cd) g ps) = Some K \<and>
     gr_pinnedThreshold (foldl (resolve_step c cd) g ps) = gr_pinnedThreshold g \<and>
     (\<forall>now l a m table. fst (resolve c cd now l a m (foldl (resolve_step c cd) g ps)) = Some table \<longrightarrow>
        (\<exists>av. dec_MultiSigned cd a = Some av \<and>
           max 1 (gr_pinnedThreshold g) \<le> int (card (anchor_signers c K av))))"
proof -
  have "pinned_to K (gr_pinnedThreshold g) (foldl (resolve_step c cd) g ps)"
    by (rule relay_pin.run_inv) (simp add: pinned_to_def assms)
  then show ?thesis using resolve_accepts_pinned by (fastforce simp: pinned_to_def)
qed

theorem relay_never_repins_witness:
  "gr_pinnedTrust (foldl (resolve_step demo_crypto demo_codec)
      \<lparr>gr_trust = None, gr_have = 0, gr_pinnedTrust = Some [''o'' \<mapsto> demo_key CHR ''o''],
       gr_pinnedThreshold = 1, gr_haveAnchor = 1, gr_haveMap = 1\<rparr>
      [\<lparr>rp_now = 0, rp_legacy = [], rp_anchor = ''A2'', rp_map = ''M2''\<rparr>])
   = Some [''o'' \<mapsto> demo_key CHR ''o'']"
  by (rule relay_never_repins [THEN conjunct1]) simp

end
