(* ===== verification/Grants.thy ===== *)
theory Grants
  imports Trust_Docs
begin

text \<open>
  The session grant and the signed enforcement payloads: \<open>internal/types/grant.go\<close> and
  \<open>internal/types/sessionpolicy.go\<close>.  \<open>VerifyDowngrade\<close> is the anti-escalation gate of a policy
  delta; its specification is the order \<open>caps_le\<close> on capability sets.
\<close>

section \<open>Data\<close>

definition ActionShell :: string where "ActionShell = ''shell''"
definition ActionExec :: string where "ActionExec = ''exec''"
definition ActionSFTP :: string where "ActionSFTP = ''sftp''"
definition ActionForward :: string where "ActionForward = ''forward''"
definition ActionAttach :: string where "ActionAttach = ''attach''"
definition ActionVPN :: string where "ActionVPN = ''vpn''"

lemmas action_defs =
  ActionShell_def ActionExec_def ActionSFTP_def ActionForward_def ActionAttach_def ActionVPN_def

definition PathNative :: string where "PathNative = ''native''"
definition PathWeb :: string where "PathWeb = ''web''"

definition PathSupportsICE :: "string \<Rightarrow> bool" where
  "PathSupportsICE clientPath \<longleftrightarrow> clientPath = PathNative"

record RelayCandidate =
  rc_RegionID :: string
  rc_RelayID :: string
  rc_TurnURL :: string
  rc_TurnUser :: string
  rc_TurnPass :: string
  rc_Realm :: string

record SessionGrant =
  g_V :: int
  g_ID :: string
  g_User :: string
  g_Roles :: "string list"
  g_WorkspaceID :: string
  g_NetworkVNI :: nat
  g_NodeID :: string
  g_Action :: string
  g_Command :: string
  g_AttachID :: string
  g_AllowPTY :: bool
  g_AllowDetach :: bool
  g_ForwardTarget :: string
  g_ClientNoisePub :: bytes
  g_AgentNoisePub :: bytes
  g_RelayAddr :: string
  g_RelayFloor :: "string list"
  g_RelayToken :: string
  g_RelayCandidates :: "RelayCandidate list"
  g_ClientPath :: string
  g_IssuedAt :: gotime
  g_ExpiresAt :: gotime
  g_MaxSessionTTL :: duration
  g_Record :: bool
  g_Service :: string
  g_ServiceKind :: string
  g_Routes :: "string list"
  g_OverlayIP :: string

datatype grant_error =
    GrantEnv env_error
  | BadVersion int
  | WrongNode string
  | NoiseMismatch
  | NotYetValid
  | GrantExpired gotime
  | BadClientNoise
  | UnknownAction string
  | ExecNoCommand
  | AttachNoID
  | ForwardNoTarget
  | VPNNoRoutes

section \<open>Grant validation\<close>

definition Validate :: "SessionGrant \<Rightarrow> string \<Rightarrow> bytes \<Rightarrow> gotime \<Rightarrow> grant_error + unit" where
  "Validate g nodeID agentNoisePub now =
     (if g_V g \<noteq> 1 then Inl (BadVersion (g_V g))
      else if g_NodeID g \<noteq> nodeID then Inl (WrongNode (g_NodeID g))
      else if g_AgentNoisePub g \<noteq> agentNoisePub then Inl NoiseMismatch
      else if now < g_IssuedAt g + (- 2 * minute) then Inl NotYetValid
      else if now > g_ExpiresAt g then Inl (GrantExpired (g_ExpiresAt g))
      else if length (g_ClientNoisePub g) \<noteq> 32 then Inl BadClientNoise
      else if g_Action g \<notin> {ActionShell, ActionExec, ActionSFTP, ActionForward, ActionAttach, ActionVPN}
      then Inl (UnknownAction (g_Action g))
      else if g_Action g = ActionExec \<and> g_Command g = [] then Inl ExecNoCommand
      else if g_Action g = ActionAttach \<and> g_AttachID g = [] then Inl AttachNoID
      else if g_Action g = ActionForward \<and> g_ForwardTarget g = [] then Inl ForwardNoTarget
      else if g_Action g = ActionVPN \<and> g_Routes g = [] then Inl VPNNoRoutes
      else Inr ())"

definition VerifyGrant ::
    "crypto \<Rightarrow> (bytes \<Rightarrow> SessionGrant option) \<Rightarrow> keyset \<Rightarrow> Signed option \<Rightarrow> grant_error + SessionGrant" where
  "VerifyGrant c u trusted s =
     bindE (mapE GrantEnv (Verify c trusted ContextGrant s (Some u))) (\<lambda>(_, g). Inr (the g))"

section \<open>Capabilities\<close>

record CapsPayload =
  cp_Allow :: bool
  cp_AllowPTY :: bool
  cp_AllowInput :: bool
  cp_ForwardTargets :: "string list"
  cp_AllowSFTPWrite :: bool
  cp_AllowNewChannels :: bool

record LeasePayload =
  lp_SessionID :: string
  lp_Epoch :: int
  lp_ExpiryUnixMs :: int
  lp_ClientNoisePub :: bytes

record DeltaPayload =
  dp_SessionID :: string
  dp_Epoch :: int
  dp_Op :: string
  dp_Target :: string
  dp_Caps :: "CapsPayload option"
  dp_LeaseExpiryUnixMs :: int
  dp_ClientNoisePub :: bytes

record RevokePayload =
  rp_SessionID :: string
  rp_Epoch :: int
  rp_Reason :: string
  rp_ClientNoisePub :: bytes

definition grantImpliedCaps :: "SessionGrant \<Rightarrow> CapsPayload" where
  "grantImpliedCaps g =
     \<lparr>cp_Allow = True, cp_AllowPTY = g_AllowPTY g, cp_AllowInput = g_AllowPTY g,
      cp_ForwardTargets = (if g_ForwardTarget g \<noteq> [] then [g_ForwardTarget g] else []),
      cp_AllowSFTPWrite = (g_Action g = ActionSFTP), cp_AllowNewChannels = True\<rparr>"

datatype downgrade_error = NilCaps | GrantsPTY | GrantsInput | GrantsSFTPWrite | AddsTarget string

fun contains_str :: "string list \<Rightarrow> string \<Rightarrow> bool" where
  "contains_str [] x = False"
| "contains_str (v # xs) x = (if v = x then True else contains_str xs x)"

fun check_targets :: "string list \<Rightarrow> string list \<Rightarrow> downgrade_error + unit" where
  "check_targets ceil [] = Inr ()"
| "check_targets ceil (t # ts) =
     (if \<not> contains_str ceil t then Inl (AddsTarget t) else check_targets ceil ts)"

definition VerifyDowngrade :: "SessionGrant \<Rightarrow> CapsPayload option \<Rightarrow> downgrade_error + unit" where
  "VerifyDowngrade grant caps =
     (case caps of
        None \<Rightarrow> Inl NilCaps
      | Some caps \<Rightarrow>
          if \<not> cp_Allow caps then Inr ()
          else let ceil = grantImpliedCaps grant in
            if cp_AllowPTY caps \<and> \<not> cp_AllowPTY ceil then Inl GrantsPTY
            else if cp_AllowInput caps \<and> \<not> cp_AllowInput ceil then Inl GrantsInput
            else if cp_AllowSFTPWrite caps \<and> \<not> cp_AllowSFTPWrite ceil then Inl GrantsSFTPWrite
            else check_targets (cp_ForwardTargets ceil) (cp_ForwardTargets caps))"

section \<open>Lemmas\<close>

lemma contains_str_iff [simp]: "contains_str xs x \<longleftrightarrow> x \<in> set xs"
  by (induction xs) auto

lemma check_targets_iff [simp]: "check_targets ceil ts = Inr u \<longleftrightarrow> set ts \<subseteq> set ceil"
  by (induction ts) auto

text \<open>The capability order: no bit on that the ceiling has off, no target outside its list.\<close>

definition caps_le :: "CapsPayload \<Rightarrow> CapsPayload \<Rightarrow> bool" where
  "caps_le a b \<longleftrightarrow>
     (cp_Allow a \<longrightarrow> cp_Allow b) \<and> (cp_AllowPTY a \<longrightarrow> cp_AllowPTY b) \<and>
     (cp_AllowInput a \<longrightarrow> cp_AllowInput b) \<and> (cp_AllowSFTPWrite a \<longrightarrow> cp_AllowSFTPWrite b) \<and>
     (cp_AllowNewChannels a \<longrightarrow> cp_AllowNewChannels b) \<and>
     set (cp_ForwardTargets a) \<subseteq> set (cp_ForwardTargets b)"

lemma VerifyDowngrade_iff:
  "VerifyDowngrade g caps = Inr u \<longleftrightarrow>
     (\<exists>c. caps = Some c \<and> (\<not> cp_Allow c \<or> caps_le c (grantImpliedCaps g)))"
  by (auto simp: VerifyDowngrade_def caps_le_def Let_def grantImpliedCaps_def split: option.splits if_splits)

lemma Validate_accepts_iff:
  "Validate g nodeID noise now = Inr u \<longleftrightarrow>
     g_V g = 1 \<and> g_NodeID g = nodeID \<and> g_AgentNoisePub g = noise \<and>
     g_IssuedAt g - 2 * minute \<le> now \<and> now \<le> g_ExpiresAt g \<and> length (g_ClientNoisePub g) = 32 \<and>
     (g_Action g = ActionShell \<or> g_Action g = ActionSFTP \<or>
      g_Action g = ActionExec \<and> g_Command g \<noteq> [] \<or>
      g_Action g = ActionAttach \<and> g_AttachID g \<noteq> [] \<or>
      g_Action g = ActionForward \<and> g_ForwardTarget g \<noteq> [] \<or>
      g_Action g = ActionVPN \<and> g_Routes g \<noteq> [])"
  by (auto simp: Validate_def action_defs)

lemma VerifyGrant_accepts_iff [errE]:
  "VerifyGrant c u trusted s = Inr g \<longleftrightarrow>
     (\<exists>env. s = Some env \<and> u (s_Payload env) = Some g \<and>
        sig_valid c trusted (signingInput ContextGrant (s_Payload env)) (s_KeyID env) (s_Sig env))"
  by (auto simp: VerifyGrant_def errE)

end
