(* ===== verification/Agent_Gate.thy ===== *)
theory Agent_Gate
  imports Grants
begin

text \<open>
  The agent's authorization gate and its realtime enforcement point: \<open>internal/agentd/offer.go\<close>
  (\<open>EvaluateOffer\<close>, \<open>handleSessionOffer\<close>, the handshake callback of \<open>establishTunnel\<close>, the exec and
  forward scopes), \<open>internal/agentd/lease.go\<close> (leases, policy deltas, revokes, tracked splices) and
  the live-session table of \<open>internal/agentd/worker.go\<close>.

  The table \<open>Worker.live\<close> is a map from session id to \<open>liveSession\<close>.  What the operations do to the
  outside is recorded in the state: conduits torn (\<open>cancel\<close>), host sessions killed, capability sets
  pushed to the session host, events emitted.  A timer is a deadline and an armed flag; a firing is
  an event with the clock at which the callback runs, so a late or already-queued callback is
  covered.  Each handler runs under the session's mutex; \<open>applyDelta\<close> has two critical sections and
  its commit re-checks the epoch, which is part of the model.
\<close>

section \<open>The offer gate\<close>

record agent_codec =
  ac_Signed :: "bytes \<Rightarrow> Signed option"
  ac_Grant :: "bytes \<Rightarrow> SessionGrant option"
  ac_Lease :: "bytes \<Rightarrow> LeasePayload option"
  ac_Delta :: "bytes \<Rightarrow> DeltaPayload option"
  ac_Revoke :: "bytes \<Rightarrow> RevokePayload option"

datatype offer_error =
    OfferEnv env_error
  | OfferGrant grant_error
  | WrongWorkspace string string
  | KeyNotScoped string string
  | DetachForbidden
  | NoSelfWorkspace
  | GrantIDMismatch string
  | InitiatorKeyMismatch

definition maxAgentSessionTTL :: duration where "maxAgentSessionTTL = 24 * hour"

definition EvaluateOffer ::
    "crypto \<Rightarrow> agent_codec \<Rightarrow> bytes \<Rightarrow> keyset \<Rightarrow> (string \<rightharpoonup> string list) \<Rightarrow> string \<Rightarrow> string
       \<Rightarrow> bytes \<Rightarrow> AgentPolicy \<Rightarrow> gotime \<Rightarrow> offer_error + SessionGrant" where
  "EvaluateOffer c ac signedGrant trusted keyScopes selfWorkspace nodeID agentNoisePub pol now =
     bindE (mapE OfferEnv (DecodeSigned (ac_Signed ac) signedGrant)) (\<lambda>env.
     bindE (mapE OfferGrant (VerifyGrant c (ac_Grant ac) trusted (Some env))) (\<lambda>grant.
     bindE (mapE OfferGrant (Validate grant nodeID agentNoisePub now)) (\<lambda>_.
     bindE (checkE (\<not> (selfWorkspace \<noteq> [] \<and> g_WorkspaceID grant \<noteq> selfWorkspace))
              (WrongWorkspace (g_WorkspaceID grant) selfWorkspace)) (\<lambda>_.
     bindE (checkE (WorkspaceInScope
                      (case keyScopes (s_KeyID env) of None \<Rightarrow> [] | Some ws \<Rightarrow> ws) (g_WorkspaceID grant))
              (KeyNotScoped (s_KeyID env) (g_WorkspaceID grant))) (\<lambda>_.
     bindE (checkE (\<not> (g_AllowDetach grant \<and> ap_ForbidDetach pol)) DetachForbidden) (\<lambda>_.
     Inr (if g_MaxSessionTTL grant \<le> 0 \<or> g_MaxSessionTTL grant > maxAgentSessionTTL
          then grant\<lparr>g_MaxSessionTTL := maxAgentSessionTTL\<rparr> else grant)))))))"

definition ExecCommandAllowed :: "string \<Rightarrow> string \<Rightarrow> bool" where
  "ExecCommandAllowed grantCommand requested \<longleftrightarrow> grantCommand \<noteq> [] \<and> grantCommand = requested"

definition ForwardTargetAllowed :: "string \<Rightarrow> string \<Rightarrow> nat \<Rightarrow> bool" where
  "ForwardTargetAllowed grantTarget destAddr destPort =
     (if grantTarget = [] then False
      else JoinHostPort destAddr (FormatUint destPort) = grantTarget)"

text \<open>The authorize callback of the Noise responder.\<close>

definition authorizeTunnel ::
    "crypto \<Rightarrow> agent_codec \<Rightarrow> keyset \<Rightarrow> SessionGrant \<Rightarrow> bytes \<Rightarrow> bytes \<Rightarrow> offer_error + unit" where
  "authorizeTunnel c ac trusted grant remoteStatic payload =
     bindE (mapE OfferEnv (DecodeSigned (ac_Signed ac) payload)) (\<lambda>env.
     bindE (mapE OfferGrant (VerifyGrant c (ac_Grant ac) trusted (Some env))) (\<lambda>g2.
     bindE (checkE (g_ID g2 = g_ID grant) (GrantIDMismatch (g_ID g2))) (\<lambda>_.
     checkE (remoteStatic = g_ClientNoisePub grant) InitiatorKeyMismatch)))"

section \<open>Live sessions\<close>

record SessionCaps =
  sc_Allow :: bool
  sc_AllowPty :: bool
  sc_AllowInput :: bool
  sc_ForwardTargets :: "string list"
  sc_AllowSftpWrite :: bool
  sc_AllowNewChannels :: bool

definition capsFromProto :: "SessionCaps option \<Rightarrow> CapsPayload option" where
  "capsFromProto c =
     (case c of
        None \<Rightarrow> None
      | Some c \<Rightarrow> Some \<lparr>cp_Allow = sc_Allow c, cp_AllowPTY = sc_AllowPty c,
          cp_AllowInput = sc_AllowInput c, cp_ForwardTargets = sc_ForwardTargets c,
          cp_AllowSFTPWrite = sc_AllowSftpWrite c, cp_AllowNewChannels = sc_AllowNewChannels c\<rparr>)"

record trackedSplice =
  ts_destAddr :: string
  ts_destPort :: nat
  ts_cancelled :: bool

record liveSession =
  ls_grant :: SessionGrant
  ls_pathClass :: string
  ls_clientNoisePub :: bytes
  ls_epoch :: int
  ls_leaseDeadline :: gotime
  ls_timerArmed :: bool
  ls_caps :: "SessionCaps option"
  ls_fwds :: "nat \<rightharpoonup> trackedSplice" \<comment> \<open>by the identity of the splice\<close>
  ls_sftp :: "bool option" \<comment> \<open>an open sftp channel, and whether it was cancelled\<close>

record SessionEvent =
  ev_SessionId :: string
  ev_Event :: string
  ev_Detail :: string
  ev_PathClass :: string
  ev_Epoch :: int

record agent =
  ag_live :: "string \<rightharpoonup> liveSession"
  ag_torn :: "string list"
  ag_killed :: "string list"
  ag_hostCaps :: "(string \<times> SessionCaps) list"
  ag_events :: "SessionEvent list"

definition SessionLeaseTTL :: duration where "SessionLeaseTTL = 120 * second"

definition stopLeaseTimer :: "liveSession \<Rightarrow> liveSession" where
  "stopLeaseTimer ls = ls\<lparr>ls_timerArmed := False\<rparr>"

definition rearmLocked :: "int \<Rightarrow> liveSession \<Rightarrow> liveSession" where
  "rearmLocked expiryUnixMs ls =
     ls\<lparr>ls_leaseDeadline := time_UnixMilli expiryUnixMs, ls_timerArmed := True\<rparr>"

definition upd_live :: "string \<Rightarrow> (liveSession \<Rightarrow> liveSession) \<Rightarrow> agent \<Rightarrow> agent" where
  "upd_live sid f a =
     (case ag_live a sid of
        None \<Rightarrow> a
      | Some ls \<Rightarrow> a\<lparr>ag_live := (ag_live a)(sid \<mapsto> f ls)\<rparr>)"

definition armLeaseTimer :: "string \<Rightarrow> int \<Rightarrow> agent \<Rightarrow> agent" where
  "armLeaseTimer sid expiryUnixMs = upd_live sid (rearmLocked expiryUnixMs)"

definition registerLive :: "string \<Rightarrow> SessionGrant \<Rightarrow> string \<Rightarrow> gotime \<Rightarrow> agent \<Rightarrow> agent" where
  "registerLive sid grant pathClass now a =
     armLeaseTimer sid (Time_UnixMilli (now + SessionLeaseTTL))
       (a\<lparr>ag_live := (ag_live a)(sid \<mapsto>
          \<lparr>ls_grant = grant, ls_pathClass = pathClass, ls_clientNoisePub = g_ClientNoisePub grant,
           ls_epoch = 0, ls_leaseDeadline = 0, ls_timerArmed = False, ls_caps = None,
           ls_fwds = Map.empty, ls_sftp = None\<rparr>)\<rparr>)"

definition unregisterLive :: "string \<Rightarrow> agent \<Rightarrow> agent" where
  "unregisterLive sid a = a\<lparr>ag_live := (ag_live a)(sid := None)\<rparr>"

definition onLeaseExpired :: "string \<Rightarrow> gotime \<Rightarrow> agent \<Rightarrow> agent" where
  "onLeaseExpired sid now a =
     (case ag_live a sid of
        None \<Rightarrow> a
      | Some ls \<Rightarrow>
          if now < ls_leaseDeadline ls then a
          else a\<lparr>ag_live := (ag_live a)(sid := None), ag_torn := ag_torn a @ [sid]\<rparr>)"

definition revokeLive :: "string \<Rightarrow> string \<Rightarrow> agent \<Rightarrow> agent" where
  "revokeLive sid reason a =
     (let (torn, pathClass, epoch) =
            (case ag_live a sid of
               None \<Rightarrow> ([], [], 0)
             | Some ls \<Rightarrow> ([sid], ls_pathClass ls, ls_epoch ls))
      in a\<lparr>ag_live := (ag_live a)(sid := None),
           ag_torn := ag_torn a @ torn,
           ag_killed := ag_killed a @ [sid],
           ag_events := ag_events a @
             [\<lparr>ev_SessionId = sid, ev_Event = ''revoked'', ev_Detail = reason,
               ev_PathClass = pathClass, ev_Epoch = epoch\<rparr>]\<rparr>)"

section \<open>Enforcement messages\<close>

definition verifyEnforcement ::
    "crypto \<Rightarrow> agent_codec \<Rightarrow> keyset \<Rightarrow> (bytes \<Rightarrow> 'p option) \<Rightarrow> bytes \<Rightarrow> env_error + 'p" where
  "verifyEnforcement c ac trusted u sigBytes =
     bindE (DecodeSigned (ac_Signed ac) sigBytes) (\<lambda>env.
     bindE (Verify c trusted ContextSessionPolicy (Some env) (Some u)) (\<lambda>(_, p). Inr (the p)))"

record SessionLease =
  sl_SessionId :: string
  sl_Sig :: bytes

record SessionPolicyDelta =
  sd_SessionId :: string
  sd_Caps :: "SessionCaps option"
  sd_Sig :: bytes

record SessionRevoke =
  sr_SessionId :: string
  sr_Sig :: bytes

definition lease_session :: "string \<Rightarrow> LeasePayload \<Rightarrow> liveSession \<Rightarrow> liveSession" where
  "lease_session sid p ls =
     (if lp_SessionID p \<noteq> sid \<or> lp_ClientNoisePub p \<noteq> ls_clientNoisePub ls then ls
      else if lp_Epoch p \<le> ls_epoch ls then ls
      else rearmLocked (lp_ExpiryUnixMs p) (ls\<lparr>ls_epoch := lp_Epoch p\<rparr>))"

definition applyLease :: "crypto \<Rightarrow> agent_codec \<Rightarrow> keyset \<Rightarrow> SessionLease \<Rightarrow> agent \<Rightarrow> agent" where
  "applyLease c ac trusted l a =
     (case verifyEnforcement c ac trusted (ac_Lease ac) (sl_Sig l) of
        Inl _ \<Rightarrow> a
      | Inr p \<Rightarrow> upd_live (sl_SessionId l) (lease_session (sl_SessionId l) p) a)"

fun targetAllowed :: "string list \<Rightarrow> string \<Rightarrow> nat \<Rightarrow> bool" where
  "targetAllowed [] addr port = False"
| "targetAllowed (t # allowed) addr port =
     (if ForwardTargetAllowed t addr port then True else targetAllowed allowed addr port)"

definition capsAllowForward :: "SessionCaps option \<Rightarrow> string \<Rightarrow> nat \<Rightarrow> bool" where
  "capsAllowForward caps addr port =
     (case caps of None \<Rightarrow> True | Some c \<Rightarrow> targetAllowed (sc_ForwardTargets c) addr port)"

definition tearForwards :: "string \<Rightarrow> string list \<Rightarrow> agent \<Rightarrow> agent" where
  "tearForwards sid allowed = upd_live sid (\<lambda>ls.
     ls\<lparr>ls_fwds := (\<lambda>i. map_option (\<lambda>ts.
        if \<not> targetAllowed allowed (ts_destAddr ts) (ts_destPort ts) then ts\<lparr>ts_cancelled := True\<rparr>
        else ts) (ls_fwds ls i))\<rparr>)"

definition tearWrites :: "string \<Rightarrow> agent \<Rightarrow> agent" where
  "tearWrites sid = upd_live sid (\<lambda>ls. ls\<lparr>ls_sftp := map_option (\<lambda>_. True) (ls_sftp ls)\<rparr>)"

definition setHostCaps :: "string \<Rightarrow> SessionCaps option \<Rightarrow> agent \<Rightarrow> agent" where
  "setHostCaps sid c a =
     (case c of None \<Rightarrow> a | Some c \<Rightarrow> a\<lparr>ag_hostCaps := ag_hostCaps a @ [(sid, c)]\<rparr>)"

definition delta_commit :: "DeltaPayload \<Rightarrow> SessionCaps option \<Rightarrow> liveSession \<Rightarrow> liveSession" where
  "delta_commit p caps ls =
     (if dp_Epoch p \<le> ls_epoch ls then ls
      else
        let ls1 = ls\<lparr>ls_epoch := dp_Epoch p, ls_caps := caps\<rparr> in
        if dp_LeaseExpiryUnixMs p > 0 then rearmLocked (dp_LeaseExpiryUnixMs p) ls1 else ls1)"

definition applyDelta :: "crypto \<Rightarrow> agent_codec \<Rightarrow> keyset \<Rightarrow> SessionPolicyDelta \<Rightarrow> agent \<Rightarrow> agent" where
  "applyDelta c ac trusted d a =
     (case verifyEnforcement c ac trusted (ac_Delta ac) (sd_Sig d) of
        Inl _ \<Rightarrow> a
      | Inr p \<Rightarrow>
          let sid = sd_SessionId d in
          (case ag_live a sid of
             None \<Rightarrow> a
           | Some ls \<Rightarrow>
               if dp_SessionID p \<noteq> sid \<or> dp_ClientNoisePub p \<noteq> ls_clientNoisePub ls then a
               else if dp_Epoch p \<le> ls_epoch ls then a
               else
                 let caps = capsFromProto (sd_Caps d) in
                 (case VerifyDowngrade (ls_grant ls) caps of
                    Inl _ \<Rightarrow> a
                  | Inr _ \<Rightarrow>
                      if (case caps of None \<Rightarrow> False | Some cp \<Rightarrow> \<not> cp_Allow cp)
                      then revokeLive sid ''policy delta: cut'' a
                      else
                        let a1 = upd_live sid (delta_commit p (sd_Caps d)) a;
                            a2 = setHostCaps sid (sd_Caps d) a1;
                            a3 = tearForwards sid (case sd_Caps d of None \<Rightarrow> [] | Some pc \<Rightarrow> sc_ForwardTargets pc) a2
                        in if (case sd_Caps d of None \<Rightarrow> True | Some pc \<Rightarrow> \<not> sc_AllowSftpWrite pc)
                           then tearWrites sid a3 else a3)))"

definition applyRevoke :: "crypto \<Rightarrow> agent_codec \<Rightarrow> keyset \<Rightarrow> SessionRevoke \<Rightarrow> agent \<Rightarrow> agent" where
  "applyRevoke c ac trusted rv a =
     (case verifyEnforcement c ac trusted (ac_Revoke ac) (sr_Sig rv) of
        Inl _ \<Rightarrow> a
      | Inr p \<Rightarrow>
          let sid = sr_SessionId rv in
          if rp_SessionID p \<noteq> sid then a
          else
            (case ag_live a sid of
               None \<Rightarrow> revokeLive sid (rp_Reason p) a
             | Some ls \<Rightarrow>
                 if rp_ClientNoisePub p \<noteq> ls_clientNoisePub ls then a
                 else if rp_Epoch p \<le> ls_epoch ls then a
                 else revokeLive sid (rp_Reason p) a))"

definition trackSplice :: "string \<Rightarrow> nat \<Rightarrow> trackedSplice \<Rightarrow> agent \<Rightarrow> agent" where
  "trackSplice sid ptr ts = upd_live sid (\<lambda>ls. ls\<lparr>ls_fwds := (ls_fwds ls)(ptr \<mapsto> ts)\<rparr>)"

definition untrackSplice :: "string \<Rightarrow> nat \<Rightarrow> agent \<Rightarrow> agent" where
  "untrackSplice sid ptr = upd_live sid (\<lambda>ls. ls\<lparr>ls_fwds := (ls_fwds ls)(ptr := None)\<rparr>)"

definition setSftpCancel :: "string \<Rightarrow> agent \<Rightarrow> agent" where
  "setSftpCancel sid = upd_live sid (\<lambda>ls. ls\<lparr>ls_sftp := Some False\<rparr>)"

definition clearSftpCancel :: "string \<Rightarrow> agent \<Rightarrow> agent" where
  "clearSftpCancel sid = upd_live sid (\<lambda>ls. ls\<lparr>ls_sftp := None\<rparr>)"

definition sessionCaps :: "string \<Rightarrow> agent \<Rightarrow> SessionCaps option" where
  "sessionCaps sid a = (case ag_live a sid of None \<Rightarrow> None | Some ls \<Rightarrow> ls_caps ls)"

definition sessionAudit :: "string \<Rightarrow> agent \<Rightarrow> string \<times> int" where
  "sessionAudit sid a =
     (case ag_live a sid of None \<Rightarrow> ([], 0) | Some ls \<Rightarrow> (ls_pathClass ls, ls_epoch ls))"

text \<open>
  \<open>handleSessionOffer\<close>: the acknowledgement sent, the events emitted, and the grant whose session is
  started, if any.  \<open>send_ok\<close> is the outcome of the send; \<open>show_err\<close> is the error's text.
\<close>

record SessionOfferAck =
  ack_SessionId :: string
  ack_Accepted :: bool
  ack_Reason :: string

definition handleSessionOffer ::
    "crypto \<Rightarrow> agent_codec \<Rightarrow> (offer_error \<Rightarrow> string) \<Rightarrow> bytes \<Rightarrow> keyset \<Rightarrow> (string \<rightharpoonup> string list)
       \<Rightarrow> string \<Rightarrow> string \<Rightarrow> bytes \<Rightarrow> AgentPolicy \<Rightarrow> gotime \<Rightarrow> bool \<Rightarrow> agent
       \<Rightarrow> SessionOfferAck \<times> SessionGrant option \<times> agent" where
  "handleSessionOffer c ac show_err signedGrant trusted keyScopes selfWS nodeID noise pol now send_ok a =
     (case (if selfWS = [] then Inl NoSelfWorkspace
            else EvaluateOffer c ac signedGrant trusted keyScopes selfWS nodeID noise pol now) of
        Inl e \<Rightarrow>
          (\<lparr>ack_SessionId = [], ack_Accepted = False, ack_Reason = show_err e\<rparr>, None,
           a\<lparr>ag_events := ag_events a @
               [\<lparr>ev_SessionId = [], ev_Event = ''rejected'', ev_Detail = show_err e,
                 ev_PathClass = [], ev_Epoch = 0\<rparr>]\<rparr>)
      | Inr grant \<Rightarrow>
          (\<lparr>ack_SessionId = g_ID grant, ack_Accepted = True, ack_Reason = []\<rparr>,
           (if send_ok then Some grant else None), a))"

text \<open>
  The controller's side of the acknowledgement (\<open>internal/controller/registry.go\<close>): offers wait
  under their session id, and \<open>deliverAck\<close> finds the waiter by the id in the ack.
\<close>

definition addWaiter :: "string \<Rightarrow> string set \<Rightarrow> (string set) option" where
  "addWaiter sessionID waiters =
     (if sessionID \<in> waiters then None else Some (insert sessionID waiters))"

definition deliverAck :: "string set \<Rightarrow> SessionOfferAck \<Rightarrow> string option" where
  "deliverAck waiters ack =
     (if ack_SessionId ack \<in> waiters then Some (ack_SessionId ack) else None)"

section \<open>Lemmas\<close>

lemma clamp_ttl:
  "(if g_MaxSessionTTL g \<le> 0 \<or> g_MaxSessionTTL g > maxAgentSessionTTL
    then g\<lparr>g_MaxSessionTTL := maxAgentSessionTTL\<rparr> else g) =
   g\<lparr>g_MaxSessionTTL := (if 0 < g_MaxSessionTTL g \<and> g_MaxSessionTTL g \<le> maxAgentSessionTTL
                          then g_MaxSessionTTL g else maxAgentSessionTTL)\<rparr>"
  by (cases g) simp

lemma EvaluateOffer_accepts_iff:
  "EvaluateOffer c ac raw trusted scopes ws node noise pol now = Inr g \<longleftrightarrow>
     (\<exists>env g0. ac_Signed ac raw = Some env \<and> ac_Grant ac (s_Payload env) = Some g0 \<and>
        sig_valid c trusted (signingInput ContextGrant (s_Payload env)) (s_KeyID env) (s_Sig env) \<and>
        Validate g0 node noise now = Inr () \<and>
        (ws = [] \<or> g_WorkspaceID g0 = ws) \<and>
        (\<forall>scope. scopes (s_KeyID env) = Some scope \<longrightarrow> scope = [] \<or> g_WorkspaceID g0 \<in> set scope) \<and>
        \<not> (g_AllowDetach g0 \<and> ap_ForbidDetach pol) \<and>
        g = g0\<lparr>g_MaxSessionTTL := (if 0 < g_MaxSessionTTL g0 \<and> g_MaxSessionTTL g0 \<le> maxAgentSessionTTL
                                   then g_MaxSessionTTL g0 else maxAgentSessionTTL)\<rparr>)"
proof -
  have scope: "WorkspaceInScope (case scopes k of None \<Rightarrow> [] | Some w \<Rightarrow> w) x \<longleftrightarrow>
      (\<forall>scope. scopes k = Some scope \<longrightarrow> scope = [] \<or> x \<in> set scope)" for k x
    by (simp add: WorkspaceInScope_iff split: option.splits)
  show ?thesis
    unfolding EvaluateOffer_def clamp_ttl bindE_eq_Inr mapE_eq_Inr checkE_eq_Inr DecodeSigned_Inr
      VerifyGrant_accepts_iff scope sum.inject option.inject
    by (simp only: ex_simps simp_thms ex_unit) blast
qed

lemma upd_live_None [simp]: "ag_live a sid = None \<Longrightarrow> upd_live sid f a = a"
  by (simp add: upd_live_def)

lemma ag_live_upd_live:
  "ag_live (upd_live sid f a) i =
     (if i = sid then map_option f (ag_live a sid) else ag_live a i)"
  by (simp add: upd_live_def split: option.splits)

lemma upd_live_frame [simp]:
  "ag_torn (upd_live sid f a) = ag_torn a"
  "ag_killed (upd_live sid f a) = ag_killed a"
  "ag_hostCaps (upd_live sid f a) = ag_hostCaps a"
  "ag_events (upd_live sid f a) = ag_events a"
  by (simp_all add: upd_live_def split: option.splits)

lemma ag_live_setHostCaps [simp]: "ag_live (setHostCaps sid c a) = ag_live a"
  by (simp add: setHostCaps_def split: option.splits)

lemma rearmLocked_simps [simp]:
  "ls_grant (rearmLocked e ls) = ls_grant ls"
  "ls_caps (rearmLocked e ls) = ls_caps ls"
  "ls_epoch (rearmLocked e ls) = ls_epoch ls"
  "ls_clientNoisePub (rearmLocked e ls) = ls_clientNoisePub ls"
  "ls_fwds (rearmLocked e ls) = ls_fwds ls"
  "ls_sftp (rearmLocked e ls) = ls_sftp ls"
  "ls_timerArmed (rearmLocked e ls)"
  "ls_leaseDeadline (rearmLocked e ls) = time_UnixMilli e"
  by (simp_all add: rearmLocked_def)

lemma targetAllowed_iff:
  "targetAllowed allowed addr port \<longleftrightarrow> (\<exists>t \<in> set allowed. ForwardTargetAllowed t addr port)"
  by (induction allowed) auto

lemma revokeLive_simps [simp]:
  "ag_live (revokeLive sid r a) = (ag_live a)(sid := None)"
  "ag_killed (revokeLive sid r a) = ag_killed a @ [sid]"
  by (simp_all add: revokeLive_def split: option.splits)

subsection \<open>The session invariant\<close>

text \<open>
  What every live session satisfies: it is bound to the client key of its grant, its lease timer is
  armed, and its live capability set, if any, allows something and is within what the grant implies.
\<close>

definition session_ok :: "liveSession \<Rightarrow> bool" where
  "session_ok ls \<longleftrightarrow>
     ls_clientNoisePub ls = g_ClientNoisePub (ls_grant ls) \<and> ls_timerArmed ls \<and>
     (\<forall>cp. capsFromProto (ls_caps ls) = Some cp \<longrightarrow>
        cp_Allow cp \<and> caps_le cp (grantImpliedCaps (ls_grant ls)))"

definition agent_ok :: "agent \<Rightarrow> bool" where
  "agent_ok a \<longleftrightarrow> (\<forall>sid ls. ag_live a sid = Some ls \<longrightarrow> session_ok ls)"

lemma agent_ok_upd_live:
  "agent_ok a \<Longrightarrow> (\<And>ls. ag_live a sid = Some ls \<Longrightarrow> session_ok ls \<Longrightarrow> session_ok (f ls)) \<Longrightarrow>
   agent_ok (upd_live sid f a)"
  by (auto simp: agent_ok_def ag_live_upd_live)

lemma agent_ok_remove: "agent_ok a \<Longrightarrow> agent_ok (a\<lparr>ag_live := (ag_live a)(sid := None)\<rparr>)"
  by (simp add: agent_ok_def)

lemma agent_ok_live_cong: "ag_live a = ag_live b \<Longrightarrow> agent_ok a \<longleftrightarrow> agent_ok b"
  by (simp add: agent_ok_def)

lemma session_ok_lease: "session_ok ls \<Longrightarrow> session_ok (lease_session sid p ls)"
  by (simp add: lease_session_def session_ok_def)

lemma session_ok_delta:
  assumes "session_ok ls" and "VerifyDowngrade (ls_grant ls) (capsFromProto caps) = Inr u"
    and "case capsFromProto caps of None \<Rightarrow> False | Some cp \<Rightarrow> cp_Allow cp"
  shows "session_ok (delta_commit p caps ls)"
  using assms
  by (auto simp: delta_commit_def session_ok_def Let_def VerifyDowngrade_iff split: option.splits)

lemma agent_ok_registerLive: "agent_ok a \<Longrightarrow> agent_ok (registerLive sid g pc now a)"
  by (auto simp: agent_ok_def registerLive_def armLeaseTimer_def ag_live_upd_live session_ok_def
        capsFromProto_def)

lemma agent_ok_tear:
  "agent_ok a \<Longrightarrow> agent_ok (tearForwards sid allowed a)"
  "agent_ok a \<Longrightarrow> agent_ok (tearWrites sid a)"
  unfolding tearForwards_def tearWrites_def
  by (auto intro!: agent_ok_upd_live simp: session_ok_def)

lemma agent_ok_setHostCaps: "agent_ok a \<Longrightarrow> agent_ok (setHostCaps sid c a)"
  by (simp add: agent_ok_def)

lemma agent_ok_applyLease: "agent_ok a \<Longrightarrow> agent_ok (applyLease c ac trusted l a)"
  unfolding applyLease_def
  by (auto intro!: agent_ok_upd_live session_ok_lease split: sum.splits)

lemma agent_ok_revokeLive: "agent_ok a \<Longrightarrow> agent_ok (revokeLive sid r a)"
  by (simp add: agent_ok_def)

lemma agent_ok_applyRevoke: "agent_ok a \<Longrightarrow> agent_ok (applyRevoke c ac trusted rv a)"
  by (auto simp: applyRevoke_def Let_def agent_ok_revokeLive split: sum.splits option.splits)

text \<open>The three outcomes of a delta: dropped, a full cut, or committed and pushed everywhere.\<close>

lemma applyDelta_cases:
  obtains (dropped) "applyDelta c ac trusted d a = a"
  | (cut) "applyDelta c ac trusted d a = revokeLive (sd_SessionId d) ''policy delta: cut'' a"
  | (committed) p ls caps where
      "verifyEnforcement c ac trusted (ac_Delta ac) (sd_Sig d) = Inr p"
      "ag_live a (sd_SessionId d) = Some ls" "dp_SessionID p = sd_SessionId d"
      "dp_ClientNoisePub p = ls_clientNoisePub ls" "ls_epoch ls < dp_Epoch p"
      "sd_Caps d = Some caps" "sc_Allow caps"
      "caps_le (the (capsFromProto (Some caps))) (grantImpliedCaps (ls_grant ls))"
      "applyDelta c ac trusted d a =
         (if sc_AllowSftpWrite caps then (\<lambda>x. x) else tearWrites (sd_SessionId d))
           (tearForwards (sd_SessionId d) (sc_ForwardTargets caps)
             (setHostCaps (sd_SessionId d) (Some caps)
               (upd_live (sd_SessionId d) (delta_commit p (Some caps)) a)))"
proof (cases "verifyEnforcement c ac trusted (ac_Delta ac) (sd_Sig d)")
  case (Inl e)
  then show ?thesis by (intro dropped) (simp add: applyDelta_def)
next
  case v: (Inr p)
  show ?thesis
  proof (cases "ag_live a (sd_SessionId d)")
    case None
    with v show ?thesis by (intro dropped) (simp add: applyDelta_def)
  next
    case l: (Some ls)
    show ?thesis
    proof (cases "dp_SessionID p = sd_SessionId d \<and> dp_ClientNoisePub p = ls_clientNoisePub ls \<and>
        ls_epoch ls < dp_Epoch p \<and> okE (VerifyDowngrade (ls_grant ls) (capsFromProto (sd_Caps d)))")
      case False
      then show ?thesis using v l
        by (intro dropped) (auto simp: applyDelta_def Let_def okE_iff split: sum.splits)
    next
      case True
      then obtain caps where caps: "sd_Caps d = Some caps"
        by (auto simp: okE_iff VerifyDowngrade_iff capsFromProto_def split: option.splits)
      show ?thesis
      proof (cases "sc_Allow caps")
        case False
        then show ?thesis using v l True caps
          by (intro cut) (auto simp: applyDelta_def Let_def okE_iff capsFromProto_def split: sum.splits)
      next
        case allow: True
        have "caps_le (the (capsFromProto (Some caps))) (grantImpliedCaps (ls_grant ls))"
          using True caps allow by (auto simp: okE_iff VerifyDowngrade_iff capsFromProto_def)
        moreover have "applyDelta c ac trusted d a =
         (if sc_AllowSftpWrite caps then (\<lambda>x. x) else tearWrites (sd_SessionId d))
           (tearForwards (sd_SessionId d) (sc_ForwardTargets caps)
             (setHostCaps (sd_SessionId d) (Some caps)
               (upd_live (sd_SessionId d) (delta_commit p (Some caps)) a)))"
          using v l True caps allow
          by (auto simp: applyDelta_def Let_def okE_iff capsFromProto_def split: sum.splits)
        ultimately show ?thesis using v l True caps allow by (intro committed) auto
      qed
    qed
  qed
qed

lemma agent_ok_applyDelta: "agent_ok a \<Longrightarrow> agent_ok (applyDelta c ac trusted d a)"
proof (cases rule: applyDelta_cases [of c ac trusted d a])
  case dropped
  then show "agent_ok a \<Longrightarrow> ?thesis" by simp
next
  case cut
  then show "agent_ok a \<Longrightarrow> ?thesis" by (simp add: agent_ok_revokeLive)
next
  case (committed p ls caps)
  assume ok: "agent_ok a"
  have "agent_ok (upd_live (sd_SessionId d) (delta_commit p (Some caps)) a)"
    using ok
  proof (rule agent_ok_upd_live)
    fix ls'
    assume "ag_live a (sd_SessionId d) = Some ls'" and "session_ok ls'"
    then show "session_ok (delta_commit p (Some caps) ls')"
      using committed by (intro session_ok_delta) (auto simp: VerifyDowngrade_iff capsFromProto_def)
  qed
  then show ?thesis
    by (simp add: committed(9) agent_ok_tear agent_ok_setHostCaps)
qed

subsection \<open>Histories\<close>

datatype agent_event =
    EvRegister string SessionGrant string gotime
  | EvUnregister string
  | EvLease SessionLease
  | EvDelta SessionPolicyDelta
  | EvRevoke SessionRevoke
  | EvTimer string gotime
  | EvTrack string nat trackedSplice
  | EvUntrack string nat
  | EvSftpOpen string
  | EvSftpClose string

fun agent_step :: "crypto \<Rightarrow> agent_codec \<Rightarrow> keyset \<Rightarrow> agent \<Rightarrow> agent_event \<Rightarrow> agent" where
  "agent_step c ac trusted a (EvRegister sid g pc now) = registerLive sid g pc now a"
| "agent_step c ac trusted a (EvUnregister sid) = unregisterLive sid a"
| "agent_step c ac trusted a (EvLease l) = applyLease c ac trusted l a"
| "agent_step c ac trusted a (EvDelta d) = applyDelta c ac trusted d a"
| "agent_step c ac trusted a (EvRevoke rv) = applyRevoke c ac trusted rv a"
| "agent_step c ac trusted a (EvTimer sid now) = onLeaseExpired sid now a"
| "agent_step c ac trusted a (EvTrack sid ptr ts) = trackSplice sid ptr ts a"
| "agent_step c ac trusted a (EvUntrack sid ptr) = untrackSplice sid ptr a"
| "agent_step c ac trusted a (EvSftpOpen sid) = setSftpCancel sid a"
| "agent_step c ac trusted a (EvSftpClose sid) = clearSftpCancel sid a"

lemma agent_ok_onLeaseExpired: "agent_ok a \<Longrightarrow> agent_ok (onLeaseExpired sid now a)"
  by (auto simp: onLeaseExpired_def agent_ok_def split: option.splits)

lemma agent_step_ok: "agent_ok a \<Longrightarrow> agent_ok (agent_step c ac trusted a ev)"
proof (cases ev)
  case (EvUnregister sid)
  then show "agent_ok a \<Longrightarrow> ?thesis" by (simp add: unregisterLive_def agent_ok_remove)
qed (auto simp: agent_ok_registerLive agent_ok_applyLease agent_ok_applyDelta agent_ok_applyRevoke
       agent_ok_onLeaseExpired trackSplice_def untrackSplice_def setSftpCancel_def clearSftpCancel_def
       session_ok_def intro!: agent_ok_upd_live)

interpretation live_agent: step_system "agent_step c ac trusted" agent_ok for c ac trusted
  by unfold_locales (rule agent_step_ok)

text \<open>The two epoch-stamped messages as they act on one live session.\<close>

datatype enforcement = LeaseMsg LeasePayload | DeltaMsg DeltaPayload "SessionCaps option"

fun enforce_step :: "string \<Rightarrow> liveSession \<Rightarrow> enforcement \<Rightarrow> liveSession" where
  "enforce_step sid ls (LeaseMsg p) = lease_session sid p ls"
| "enforce_step sid ls (DeltaMsg p caps) = delta_commit p caps ls"

fun enforce_epoch :: "enforcement \<Rightarrow> int" where
  "enforce_epoch (LeaseMsg p) = lp_Epoch p"
| "enforce_epoch (DeltaMsg p caps) = dp_Epoch p"

interpretation epochs: anti_replay "enforce_step sid" ls_epoch enforce_epoch for sid
proof unfold_locales
  show "ls_epoch s \<le> ls_epoch (enforce_step sid s m)" for s m
    by (cases m) (simp_all add: lease_session_def delta_commit_def Let_def)
  show "enforce_epoch m \<le> ls_epoch s \<Longrightarrow> enforce_step sid s m = s" for s m
    by (cases m) (simp_all add: lease_session_def delta_commit_def)
  show "enforce_step sid s m \<noteq> s \<Longrightarrow> ls_epoch (enforce_step sid s m) = enforce_epoch m" for s m
    by (cases m) (auto simp: lease_session_def delta_commit_def Let_def split: if_splits)
qed

lemma applyDelta_stale:
  "verifyEnforcement c ac trusted (ac_Delta ac) (sd_Sig d) = Inr p \<Longrightarrow>
   ag_live a (sd_SessionId d) = Some ls \<Longrightarrow> dp_Epoch p \<le> ls_epoch ls \<Longrightarrow>
   applyDelta c ac trusted d a = a"
  by (simp add: applyDelta_def Let_def)

lemma applyRevoke_stale:
  "verifyEnforcement c ac trusted (ac_Revoke ac) (sr_Sig rv) = Inr p \<Longrightarrow>
   ag_live a (sr_SessionId rv) = Some ls \<Longrightarrow> rp_Epoch p \<le> ls_epoch ls \<Longrightarrow>
   applyRevoke c ac trusted rv a = a"
  by (simp add: applyRevoke_def Let_def)

lemma cancelled_fixpoint: "z = z\<lparr>ts_cancelled := True\<rparr> \<Longrightarrow> ts_cancelled z"
  by (cases z) simp

section \<open>A concrete session for the witnesses\<close>

definition demo_grant :: SessionGrant where
  "demo_grant =
     \<lparr>g_V = 1, g_ID = ''s1'', g_User = ''u'', g_Roles = [], g_WorkspaceID = ''w'', g_NetworkVNI = 0,
      g_NodeID = ''n1'', g_Action = ActionShell, g_Command = [], g_AttachID = [], g_AllowPTY = True,
      g_AllowDetach = False, g_ForwardTarget = ''db:5432'', g_ClientNoisePub = replicate 32 CHR ''c'',
      g_AgentNoisePub = ''a'', g_RelayAddr = [], g_RelayFloor = [], g_RelayToken = [],
      g_RelayCandidates = [], g_ClientPath = PathNative, g_IssuedAt = 0, g_ExpiresAt = 10,
      g_MaxSessionTTL = 0, g_Record = False, g_Service = [], g_ServiceKind = [], g_Routes = [],
      g_OverlayIP = []\<rparr>"

definition demo_caps :: SessionCaps where
  "demo_caps = \<lparr>sc_Allow = True, sc_AllowPty = True, sc_AllowInput = False, sc_ForwardTargets = [],
                sc_AllowSftpWrite = False, sc_AllowNewChannels = True\<rparr>"

definition demo_session :: liveSession where
  "demo_session =
     \<lparr>ls_grant = demo_grant, ls_pathClass = ''p2p'', ls_clientNoisePub = replicate 32 CHR ''c'',
      ls_epoch = 3, ls_leaseDeadline = 100, ls_timerArmed = True, ls_caps = None,
      ls_fwds = [7 \<mapsto> \<lparr>ts_destAddr = ''db'', ts_destPort = 5432, ts_cancelled = False\<rparr>],
      ls_sftp = None\<rparr>"

definition demo_agent :: agent where
  "demo_agent = \<lparr>ag_live = [''s1'' \<mapsto> demo_session], ag_torn = [], ag_killed = [], ag_hostCaps = [],
                 ag_events = []\<rparr>"

text \<open>
  Envelopes are signed by the key \<open>k\<close>; the payload of every delta is for session \<open>s1\<close>, epoch 4,
  and asks for a full cut.
\<close>

definition gate_crypto :: crypto where
  "gate_crypto = \<lparr>ed25519_Verify = (\<lambda>_ _ _. True), sha256_Sum256 = id\<rparr>"

definition gate_keys :: keyset where "gate_keys = [''k'' \<mapsto> replicate 32 CHR ''k'']"

definition gate_codec :: agent_codec where
  "gate_codec =
     \<lparr>ac_Signed = (\<lambda>b. Some \<lparr>s_Payload = b, s_Sig = replicate 64 CHR ''x'', s_KeyID = ''k''\<rparr>),
      ac_Grant = (\<lambda>_. Some demo_grant),
      ac_Lease = (\<lambda>_. Some \<lparr>lp_SessionID = ''s1'', lp_Epoch = 4, lp_ExpiryUnixMs = 0,
                            lp_ClientNoisePub = replicate 32 CHR ''c''\<rparr>),
      ac_Delta = (\<lambda>_. Some \<lparr>dp_SessionID = ''s1'', dp_Epoch = 4, dp_Op = ''cut'', dp_Target = [],
                            dp_Caps = Some \<lparr>cp_Allow = False, cp_AllowPTY = False, cp_AllowInput = False,
                              cp_ForwardTargets = [], cp_AllowSFTPWrite = False, cp_AllowNewChannels = False\<rparr>,
                            dp_LeaseExpiryUnixMs = 0, dp_ClientNoisePub = replicate 32 CHR ''c''\<rparr>),
      ac_Revoke = (\<lambda>_. None)\<rparr>"

lemmas gate_defs =
  demo_grant_def demo_caps_def demo_session_def demo_agent_def gate_crypto_def gate_keys_def
  gate_codec_def

lemma gate_verify:
  "verifyEnforcement gate_crypto gate_codec gate_keys u raw =
     (case u raw of None \<Rightarrow> Inl ErrUnmarshal | Some p \<Rightarrow> Inr p)"
  by (simp add: verifyEnforcement_def DecodeSigned_def Verify_def unmarshal_into_def gate_crypto_def
        gate_codec_def gate_keys_def split: option.splits)

section \<open>Properties\<close>

text \<open>
  C6: The offer gate.  The agent accepts an offer exactly when the envelope decodes, carries a valid
  signature under the grant context by a currently trusted key, the grant validates for this node,
  noise key and clock, it is for the agent's own workspace, the signing key's scope (if the config
  gives one) covers that workspace, and the policy does not forbid a detachable session; the grant
  it runs has its lifetime clamped to at most 24 hours and is otherwise the signed one.
\<close>

theorem EvaluateOffer_gate:
  "EvaluateOffer c ac raw trusted scopes ws node noise pol now = Inr g \<longleftrightarrow>
     (\<exists>env g0. ac_Signed ac raw = Some env \<and> ac_Grant ac (s_Payload env) = Some g0 \<and>
        sig_valid c trusted (signingInput ContextGrant (s_Payload env)) (s_KeyID env) (s_Sig env) \<and>
        g_V g0 = 1 \<and> g_NodeID g0 = node \<and> g_AgentNoisePub g0 = noise \<and>
        g_IssuedAt g0 - 2 * minute \<le> now \<and> now \<le> g_ExpiresAt g0 \<and>
        length (g_ClientNoisePub g0) = 32 \<and>
        (g_Action g0 = ActionShell \<or> g_Action g0 = ActionSFTP \<or>
         g_Action g0 = ActionExec \<and> g_Command g0 \<noteq> [] \<or>
         g_Action g0 = ActionAttach \<and> g_AttachID g0 \<noteq> [] \<or>
         g_Action g0 = ActionForward \<and> g_ForwardTarget g0 \<noteq> [] \<or>
         g_Action g0 = ActionVPN \<and> g_Routes g0 \<noteq> []) \<and>
        (ws = [] \<or> g_WorkspaceID g0 = ws) \<and>
        (case scopes (s_KeyID env) of None \<Rightarrow> True | Some scope \<Rightarrow> scope = [] \<or> g_WorkspaceID g0 \<in> set scope) \<and>
        \<not> (g_AllowDetach g0 \<and> ap_ForbidDetach pol) \<and>
        g = g0\<lparr>g_MaxSessionTTL := (if 0 < g_MaxSessionTTL g0 \<and> g_MaxSessionTTL g0 \<le> 24 * hour
                                   then g_MaxSessionTTL g0 else 24 * hour)\<rparr>)"
proof -
  have scope: "(case o' of None \<Rightarrow> True | Some x \<Rightarrow> Q x) \<longleftrightarrow> (\<forall>x. o' = Some x \<longrightarrow> Q x)"
    for o' :: "string list option" and Q
    by (simp split: option.splits)
  show ?thesis
    unfolding EvaluateOffer_accepts_iff Validate_accepts_iff maxAgentSessionTTL_def scope
    by (simp only: conj_assoc)
qed

text \<open>
  Forward scope.  A grant for \<open>host:port\<close> admits a forward to exactly that host and port: no
  other destination, however spelled, joins to the same target string.
\<close>

theorem ForwardTargetAllowed_exact:
  "ForwardTargetAllowed (JoinHostPort host (FormatUint port)) destAddr destPort \<longleftrightarrow>
     destAddr = host \<and> destPort = port"
proof -
  have "JoinHostPort host (FormatUint port) \<noteq> []" by (simp add: JoinHostPort_def)
  then show ?thesis
    using JoinHostPort_inject [of "FormatUint destPort" "FormatUint port" destAddr host]
    by (auto simp: ForwardTargetAllowed_def)
qed

text \<open>
  C18: No escalation, in any history.  Starting with no live session, after any sequence of
  registrations, leases, deltas, revokes, timer firings and channel events, every live session is
  bound to its grant's client key, has its fail-closed timer armed, and enforces a capability set
  that allows nothing its grant does not imply.
\<close>

theorem agent_never_escalates:
  assumes "ag_live a0 = Map.empty"
    and "ag_live (foldl (agent_step c ac trusted) a0 evs) sid = Some ls"
  shows "ls_clientNoisePub ls = g_ClientNoisePub (ls_grant ls) \<and> ls_timerArmed ls \<and>
     (case ls_caps ls of
        None \<Rightarrow> True
      | Some caps \<Rightarrow> sc_Allow caps \<and> caps_le (the (capsFromProto (Some caps))) (grantImpliedCaps (ls_grant ls)))"
proof -
  have "agent_ok (foldl (agent_step c ac trusted) a0 evs)"
    by (rule live_agent.run_inv) (simp add: agent_ok_def assms(1))
  with assms(2) have "session_ok ls" by (simp add: agent_ok_def)
  then show ?thesis
    by (auto simp: session_ok_def capsFromProto_def split: option.splits)
qed

theorem agent_never_escalates_witness:
  "ls_timerArmed (the (ag_live (foldl (agent_step gate_crypto gate_codec gate_keys)
      (demo_agent\<lparr>ag_live := Map.empty\<rparr>) [EvRegister ''s1'' demo_grant ''p2p'' 0]) ''s1''))"
proof -
  have "\<exists>ls. ag_live (foldl (agent_step gate_crypto gate_codec gate_keys)
      (demo_agent\<lparr>ag_live := Map.empty\<rparr>) [EvRegister ''s1'' demo_grant ''p2p'' 0]) ''s1'' = Some ls"
    by (simp add: registerLive_def armLeaseTimer_def ag_live_upd_live)
  then obtain ls where ls: "ag_live (foldl (agent_step gate_crypto gate_codec gate_keys)
      (demo_agent\<lparr>ag_live := Map.empty\<rparr>) [EvRegister ''s1'' demo_grant ''p2p'' 0]) ''s1'' = Some ls" ..
  from agent_never_escalates [OF _ ls] have "ls_timerArmed ls" by simp
  then show ?thesis unfolding ls option.sel .
qed

text \<open>
  C20: Replay protection.  A lease or delta that took effect on a live session raised its epoch, and
  delivering the same message again after any further leases and deltas changes nothing.
\<close>

theorem enforcement_never_replays:
  assumes "enforce_step sid ls m \<noteq> ls"
  shows "ls_epoch ls < ls_epoch (enforce_step sid ls m) \<and>
     enforce_step sid (foldl (enforce_step sid) (enforce_step sid ls m) ms) m =
       foldl (enforce_step sid) (enforce_step sid ls m) ms"
  using epochs.applied_increases [OF assms] epochs.replay_ignored [OF assms] by blast

theorem enforcement_never_replays_witness:
  "ls_epoch demo_session < ls_epoch (enforce_step ''s1'' demo_session
     (LeaseMsg \<lparr>lp_SessionID = ''s1'', lp_Epoch = 4, lp_ExpiryUnixMs = 0,
                lp_ClientNoisePub = replicate 32 CHR ''c''\<rparr>))"
  by (rule enforcement_never_replays [THEN conjunct1])
    (simp add: demo_session_def lease_session_def rearmLocked_def)

text \<open>
  Starvation is fail-closed but not a denial; a revoke is a denial.  When the lease timer runs
  at or past the deadline the session leaves the table and its conduit is torn while no host session
  is killed; before the deadline nothing changes; an explicit revoke kills the host session and
  acknowledges it whether or not the session is live here.
\<close>

theorem starvation_tears_revoke_kills:
  "(case ag_live a sid of
      None \<Rightarrow> onLeaseExpired sid now a = a
    | Some ls \<Rightarrow>
        (if now < ls_leaseDeadline ls then onLeaseExpired sid now a = a
         else ag_live (onLeaseExpired sid now a) = (ag_live a)(sid := None) \<and>
              ag_torn (onLeaseExpired sid now a) = ag_torn a @ [sid] \<and>
              ag_killed (onLeaseExpired sid now a) = ag_killed a \<and>
              ag_events (onLeaseExpired sid now a) = ag_events a)) \<and>
   ag_live (revokeLive sid reason a) = (ag_live a)(sid := None) \<and>
   ag_torn (revokeLive sid reason a) = ag_torn a @ (if ag_live a sid = None then [] else [sid]) \<and>
   ag_killed (revokeLive sid reason a) = ag_killed a @ [sid] \<and>
   map ev_SessionId (ag_events (revokeLive sid reason a)) = map ev_SessionId (ag_events a) @ [sid] \<and>
   map ev_Event (ag_events (revokeLive sid reason a)) = map ev_Event (ag_events a) @ [''revoked'']"
  by (auto simp: onLeaseExpired_def revokeLive_def split: option.splits)

text \<open>
  What a delta enforces.  For a verified, correctly bound, fresh delta whose message caps are a
  permitted downgrade, the session ends up enforcing, and the host is sent, exactly the caps of the
  unsigned message field, whatever capability set the signed payload carries; every tracked splice
  to a target outside the new list is cancelled, and so is an open sftp channel that lost write.
\<close>

theorem delta_enforces_message_caps:
  assumes "verifyEnforcement c ac trusted (ac_Delta ac) (sd_Sig d) = Inr p"
    and "ag_live a (sd_SessionId d) = Some ls"
    and "dp_SessionID p = sd_SessionId d" and "dp_ClientNoisePub p = ls_clientNoisePub ls"
    and "ls_epoch ls < dp_Epoch p"
    and "sd_Caps d = Some caps" and "sc_Allow caps"
    and "VerifyDowngrade (ls_grant ls) (capsFromProto (Some caps)) = Inr ()"
  shows "sessionCaps (sd_SessionId d) (applyDelta c ac trusted d a) = Some caps \<and>
     ag_hostCaps (applyDelta c ac trusted d a) = ag_hostCaps a @ [(sd_SessionId d, caps)] \<and>
     (case ag_live (applyDelta c ac trusted d a) (sd_SessionId d) of
        None \<Rightarrow> False
      | Some ls' \<Rightarrow>
          ls_epoch ls' = dp_Epoch p \<and>
          (\<forall>i ts. ls_fwds ls' i = Some ts \<longrightarrow>
             ts_cancelled ts \<or> targetAllowed (sc_ForwardTargets caps) (ts_destAddr ts) (ts_destPort ts)) \<and>
          (sc_AllowSftpWrite caps \<or> ls_sftp ls' \<noteq> Some False))"
proof -
  have eq: "applyDelta c ac trusted d a =
     (if sc_AllowSftpWrite caps then (\<lambda>x. x) else tearWrites (sd_SessionId d))
       (tearForwards (sd_SessionId d) (sc_ForwardTargets caps)
         (setHostCaps (sd_SessionId d) (Some caps)
           (upd_live (sd_SessionId d) (delta_commit p (Some caps)) a)))"
    using assms by (auto simp: applyDelta_def Let_def capsFromProto_def)
  show ?thesis
    unfolding eq using assms(2,5)
    by (auto simp: sessionCaps_def tearForwards_def tearWrites_def ag_live_upd_live delta_commit_def
          Let_def setHostCaps_def split: if_splits dest: cancelled_fixpoint)
qed

text \<open>The signed payload of the example asks for a full cut; the unsigned field keeps the PTY.\<close>

theorem delta_enforces_message_caps_witness:
  "sessionCaps ''s1'' (applyDelta gate_crypto gate_codec gate_keys
      \<lparr>sd_SessionId = ''s1'', sd_Caps = Some demo_caps, sd_Sig = ''x''\<rparr> demo_agent) = Some demo_caps"
proof -
  let ?d = "\<lparr>sd_SessionId = ''s1'', sd_Caps = Some demo_caps, sd_Sig = ''x''\<rparr>"
  have v: "verifyEnforcement gate_crypto gate_codec gate_keys (ac_Delta gate_codec) (sd_Sig ?d) =
      Inr (the (ac_Delta gate_codec ''x''))"
    by (simp add: gate_verify) (simp add: gate_codec_def)
  have "VerifyDowngrade (ls_grant demo_session) (capsFromProto (Some demo_caps)) = Inr ()"
    by (simp add: VerifyDowngrade_iff capsFromProto_def caps_le_def grantImpliedCaps_def demo_caps_def
          demo_session_def demo_grant_def)
  from delta_enforces_message_caps [OF v _ _ _ _ _ _ this, of demo_agent]
  show ?thesis by (simp add: demo_agent_def demo_session_def gate_codec_def demo_caps_def)
qed

text \<open>
  A rejection is never correlated.  When the agent refuses an offer, the acknowledgement and the
  \<open>rejected\<close> event it sends carry an empty session id, so the controller, which keeps the waiting
  offer under its session id, finds no waiter for it and runs into its timeout.
\<close>

theorem rejected_offer_finds_no_waiter:
  assumes "handleSessionOffer c ac show_err raw trusted scopes ws node noise pol now ok a = (ack, started, a')"
    and "\<not> ack_Accepted ack" and "[] \<notin> waiters"
  shows "ack_SessionId ack = [] \<and> deliverAck waiters ack = None \<and> started = None \<and>
     (\<exists>ev. ag_events a' = ag_events a @ [ev] \<and> ev_Event ev = ''rejected'' \<and> ev_SessionId ev = [])"
  using assms
  by (auto simp: handleSessionOffer_def deliverAck_def split: sum.splits)

theorem rejected_offer_finds_no_waiter_witness:
  "deliverAck {''s1''} (fst (handleSessionOffer gate_crypto gate_codec (\<lambda>_. ''no'') ''x'' gate_keys
     Map.empty ''other'' ''n1'' ''a'' \<lparr>ap_ForbidDetach = False, ap_MaxSessions = 0, ap_MaxDetached = 0,
        ap_RingBufferBytes = 0, ap_DetachedTTLSec = 0, ap_IdleReapSec = 0\<rparr> 0 True demo_agent)) = None"
proof -
  let ?r = "handleSessionOffer gate_crypto gate_codec (\<lambda>_. ''no'') ''x'' gate_keys
     Map.empty ''other'' ''n1'' ''a'' \<lparr>ap_ForbidDetach = False, ap_MaxSessions = 0, ap_MaxDetached = 0,
        ap_RingBufferBytes = 0, ap_DetachedTTLSec = 0, ap_IdleReapSec = 0\<rparr> 0 True demo_agent"
  have "\<not> okE (EvaluateOffer gate_crypto gate_codec ''x'' gate_keys Map.empty ''other'' ''n1'' ''a''
     \<lparr>ap_ForbidDetach = False, ap_MaxSessions = 0, ap_MaxDetached = 0,
        ap_RingBufferBytes = 0, ap_DetachedTTLSec = 0, ap_IdleReapSec = 0\<rparr> 0)"
    unfolding okE_iff EvaluateOffer_accepts_iff by (simp add: gate_codec_def demo_grant_def)
  then have "\<not> ack_Accepted (fst ?r)"
    by (auto simp: handleSessionOffer_def okE_iff split: sum.splits)
  from rejected_offer_finds_no_waiter [OF _ this, where started = "fst (snd ?r)"
      and a' = "snd (snd ?r)" and waiters = "{''s1''}"]
  show ?thesis by simp
qed

end
