(* ===== verification/Policy_Engine.thy ===== *)
theory Policy_Engine
  imports Go_Std
begin

text \<open>
  The static policy engine, \<open>internal/policy/policy.go\<close>: role resolution, rule matching (actions,
  services, labels, clock windows) and the merge of all matching rules into one decision.

  A Go map the engine iterates (the roles, a rule's label selector) is an association list; one it
  only looks up is a partial function.  The YAML decoder is a parameter of \<open>Parse\<close>.  The wall clock
  is computed from the instant and the local zone's offset, a parameter.  \<open>fmt.Sscanf\<close> with
  \<open>"%d:%d"\<close>, \<open>strings.TrimSpace\<close> and \<open>strings.EqualFold\<close> are modelled on ASCII input.
\<close>

section \<open>Data\<close>

record TimeWindow =
  tw_Days :: "string list"
  tw_Start :: string
  tw_End :: string

record Rule =
  r_Actions :: "string list"
  r_Services :: "string list"
  r_ServiceKinds :: "string list"
  r_ServiceLabels :: "(string \<times> string) list"
  r_NodeLabels :: "(string \<times> string) list"
  r_TimeWindow :: "TimeWindow option"
  r_MaxSessionTTL :: duration
  r_AllowDetach :: "bool option"
  r_Record :: "bool option"
  r_ReadOnly :: bool
  r_ReadOnlyTimeWindow :: "TimeWindow option"
  r_RequirePresence :: bool
  r_RequireNative :: bool

record Role =
  role_Allow :: "Rule list"

record Binding =
  b_Role :: string
  b_Users :: "string list"
  b_Groups :: "string list"

record Doc =
  doc_Roles :: "(string \<times> Role) list"
  doc_Bindings :: "Binding list"

record Input =
  in_User :: string
  in_Groups :: "string list"
  in_Roles :: "string list"
  in_NodeID :: string
  in_NodeName :: string
  in_NodeLabels :: "string \<rightharpoonup> string"
  in_Action :: string
  in_ClientPath :: string
  in_Service :: string
  in_ServiceKind :: string
  in_ServiceLabels :: "string \<rightharpoonup> string"
  in_Now :: gotime

datatype reason =
    NoReason
  | NoRoles string
  | NoRule "string list" string string
  | RoleAllows string string string

record Decision =
  d_Allow :: bool
  d_Reason :: reason
  d_MatchedRole :: string
  d_MaxSessionTTL :: duration
  d_AllowDetach :: bool
  d_Record :: bool
  d_ReadOnly :: bool
  d_RequirePresence :: bool

definition denied :: "reason \<Rightarrow> Decision" where
  "denied r = \<lparr>d_Allow = False, d_Reason = r, d_MatchedRole = [], d_MaxSessionTTL = 0,
               d_AllowDetach = False, d_Record = False, d_ReadOnly = False, d_RequirePresence = False\<rparr>"

section \<open>Clock windows\<close>

definition is_space :: "char \<Rightarrow> bool" where
  "is_space c \<longleftrightarrow> c = CHR '' '' \<or> c = CHR 0x09 \<or> c = CHR 0x0B \<or> c = CHR 0x0C \<or> c = CHR 0x0D"

definition is_digit :: "char \<Rightarrow> bool" where
  "is_digit c \<longleftrightarrow> 48 \<le> (of_char c :: nat) \<and> (of_char c :: nat) \<le> 57"

definition TrimSpace :: "string \<Rightarrow> string" where
  "TrimSpace s = (let sp = (\<lambda>c. is_space c \<or> c = CHR 0x0A)
                  in rev (dropWhile sp (rev (dropWhile sp s))))"

definition to_lower :: "char \<Rightarrow> char" where
  "to_lower c = (if 65 \<le> (of_char c :: nat) \<and> (of_char c :: nat) \<le> 90 then char_of ((of_char c :: nat) + 32) else c)"

definition EqualFold :: "string \<Rightarrow> string \<Rightarrow> bool" where
  "EqualFold a b \<longleftrightarrow> map to_lower a = map to_lower b"

text \<open>\<open>%d\<close>: blanks, an optional sign, at least one digit, a value that fits an \<open>int\<close>.\<close>

definition scan_int :: "string \<Rightarrow> (int \<times> string) option" where
  "scan_int s =
     (let s1 = dropWhile is_space s;
          (sign, s2) = (case s1 of
              c # cs \<Rightarrow> if c = CHR ''-'' then (-1, cs) else if c = CHR ''+'' then (1, cs) else (1, s1)
            | [] \<Rightarrow> (1, []));
          ds = takeWhile is_digit s2;
          v = sign * int (decimal_value ds)
      in if ds = [] \<or> \<not> i64_range v then None else Some (v, dropWhile is_digit s2))"

definition parse_hm :: "string \<Rightarrow> int option" where
  "parse_hm s =
     (case scan_int s of
        None \<Rightarrow> None
      | Some (h, rest) \<Rightarrow>
          (case rest of
             [] \<Rightarrow> None
           | c # cs \<Rightarrow>
               if c \<noteq> CHR '':'' then None
               else case scan_int cs of None \<Rightarrow> None | Some (m, _) \<Rightarrow> Some (i64 (h * 60 + m))))"

type_synonym zone = "gotime \<Rightarrow> duration"

definition Weekday :: "zone \<Rightarrow> gotime \<Rightarrow> string" where
  "Weekday tz t =
     [''Sunday'', ''Monday'', ''Tuesday'', ''Wednesday'', ''Thursday'', ''Friday'', ''Saturday'']
       ! nat (((t + tz t) div (24 * hour) + 1) mod 7)"

definition Hour :: "zone \<Rightarrow> gotime \<Rightarrow> int" where
  "Hour tz t = ((t + tz t) div hour) mod 24"

definition Minute :: "zone \<Rightarrow> gotime \<Rightarrow> int" where
  "Minute tz t = ((t + tz t) div minute) mod 60"

fun day_listed :: "string list \<Rightarrow> string \<Rightarrow> bool" where
  "day_listed [] day = False"
| "day_listed (d # ds) day =
     (let dd = TrimSpace d in
      if length dd < 3 then day_listed ds day
      else if EqualFold (take 3 dd) day then True
      else day_listed ds day)"

definition window_contains :: "zone \<Rightarrow> TimeWindow \<Rightarrow> gotime \<Rightarrow> bool" where
  "window_contains tz w now =
     (if length (tw_Days w) > 0 \<and> \<not> day_listed (tw_Days w) (take 3 (Weekday tz now)) then False
      else
        (case (parse_hm (tw_Start w), parse_hm (tw_End w)) of
           (Some start, Some end) \<Rightarrow>
             let cur = Hour tz now * 60 + Minute tz now in
             if start \<le> end then cur \<ge> start \<and> cur < end else cur \<ge> start \<or> cur < end
         | _ \<Rightarrow> False))"

section \<open>Matching\<close>

fun matchList :: "string list \<Rightarrow> string \<Rightarrow> bool" where
  "matchList [] v = False"
| "matchList (x # xs) v = (if x = ''*'' \<or> x = v then True else matchList xs v)"

fun LabelsMatch :: "(string \<times> string) list \<Rightarrow> (string \<rightharpoonup> string) \<Rightarrow> bool" where
  "LabelsMatch [] labels = True"
| "LabelsMatch ((k, v) # sel) labels =
     (if k = ''*'' then LabelsMatch sel labels
      else case labels k of
          None \<Rightarrow> False
        | Some got \<Rightarrow> if v \<noteq> ''*'' \<and> got \<noteq> v then False else LabelsMatch sel labels)"

fun action_listed :: "string list \<Rightarrow> string \<Rightarrow> bool" where
  "action_listed [] action = False"
| "action_listed (a # as) action =
     (if a = ''*'' \<or> a = action then True
      else if a = ''shell'' \<and> action = ''attach'' then True
      else action_listed as action)"

definition rule_matches :: "zone \<Rightarrow> Rule \<Rightarrow> Input \<Rightarrow> gotime \<Rightarrow> bool" where
  "rule_matches tz r inp now =
     (if r_RequireNative r \<and> in_ClientPath inp \<noteq> ''native'' then False
      else if \<not> (length (r_Actions r) = 0 \<or> action_listed (r_Actions r) (in_Action inp)) then False
      else if length (r_Services r) > 0 \<and> \<not> matchList (r_Services r) (in_Service inp) then False
      else if length (r_ServiceKinds r) > 0 \<and> \<not> matchList (r_ServiceKinds r) (in_ServiceKind inp) then False
      else if \<not> LabelsMatch (r_ServiceLabels r) (in_ServiceLabels inp) then False
      else if \<not> LabelsMatch (r_NodeLabels r) (in_NodeLabels inp) then False
      else if (case r_TimeWindow r of None \<Rightarrow> False | Some w \<Rightarrow> \<not> window_contains tz w now) then False
      else True)"

section \<open>Roles and evaluation\<close>

definition binding_matches :: "string \<Rightarrow> string list \<Rightarrow> Binding \<Rightarrow> bool" where
  "binding_matches user groups b \<longleftrightarrow>
     list_ex (\<lambda>u. u = user) (b_Users b) \<or> list_ex (\<lambda>g. g \<in> set groups) (b_Groups b)"

fun bound_roles :: "string \<Rightarrow> string list \<Rightarrow> Binding list \<Rightarrow> string set \<Rightarrow> string list \<Rightarrow> string list" where
  "bound_roles user groups [] seen roles = roles"
| "bound_roles user groups (b # bs) seen roles =
     (if binding_matches user groups b \<and> b_Role b \<notin> seen
      then bound_roles user groups bs (insert (b_Role b) seen) (roles @ [b_Role b])
      else bound_roles user groups bs seen roles)"

definition RolesFor :: "Doc \<Rightarrow> string \<Rightarrow> string list \<Rightarrow> string list" where
  "RolesFor doc user groups = sort (bound_roles user groups (doc_Bindings doc) {} [])"

definition Records :: "Doc \<Rightarrow> bool" where
  "Records doc =
     list_ex (\<lambda>(_, role). list_ex (\<lambda>r. case r_Record r of None \<Rightarrow> True | Some b \<Rightarrow> b) (role_Allow role))
       (doc_Roles doc)"

datatype policy_error = PolicyYaml | UnknownRole string

fun check_bindings :: "(string \<times> Role) list \<Rightarrow> Binding list \<Rightarrow> policy_error + unit" where
  "check_bindings roles [] = Inr ()"
| "check_bindings roles (b # bs) =
     (if map_of roles (b_Role b) = None then Inl (UnknownRole (b_Role b)) else check_bindings roles bs)"

definition Parse :: "(bytes \<Rightarrow> Doc option) \<Rightarrow> bytes \<Rightarrow> policy_error + Doc" where
  "Parse yaml b =
     (case yaml b of
        None \<Rightarrow> Inl PolicyYaml
      | Some d \<Rightarrow> bindE (check_bindings (doc_Roles d) (doc_Bindings d)) (\<lambda>_. Inr d))"

definition rule_decision :: "zone \<Rightarrow> Input \<Rightarrow> gotime \<Rightarrow> string \<Rightarrow> Rule \<Rightarrow> Decision" where
  "rule_decision tz inp now rname rule =
     \<lparr>d_Allow = True,
      d_Reason = RoleAllows rname (in_Action inp) (in_NodeName inp),
      d_MatchedRole = rname,
      d_MaxSessionTTL = r_MaxSessionTTL rule,
      d_AllowDetach = (case r_AllowDetach rule of None \<Rightarrow> True | Some b \<Rightarrow> b),
      d_Record = (case r_Record rule of None \<Rightarrow> True | Some b \<Rightarrow> b),
      d_ReadOnly = (r_ReadOnly rule \<or>
         (case r_ReadOnlyTimeWindow rule of None \<Rightarrow> False | Some w \<Rightarrow> window_contains tz w now)),
      d_RequirePresence = r_RequirePresence rule\<rparr>"

text \<open>One matching rule merged into the best decision so far.\<close>

definition merge_decision :: "Decision \<Rightarrow> Decision \<Rightarrow> Decision" where
  "merge_decision best d =
     (if \<not> d_Allow best then d
      else
        best\<lparr>d_AllowDetach := (if d_AllowDetach d then True else d_AllowDetach best),
             d_Record := (if d_Record d then True else d_Record best),
             d_ReadOnly := (if d_ReadOnly d then True else d_ReadOnly best),
             d_RequirePresence := (if d_RequirePresence d then True else d_RequirePresence best),
             d_MaxSessionTTL :=
               (if d_MaxSessionTTL d = 0 \<or>
                   (d_MaxSessionTTL best \<noteq> 0 \<and> d_MaxSessionTTL d > d_MaxSessionTTL best)
                then d_MaxSessionTTL d else d_MaxSessionTTL best)\<rparr>)"

fun eval_rules :: "zone \<Rightarrow> Input \<Rightarrow> gotime \<Rightarrow> string \<Rightarrow> Rule list \<Rightarrow> Decision \<Rightarrow> Decision" where
  "eval_rules tz inp now rname [] best = best"
| "eval_rules tz inp now rname (rule # rules) best =
     (if \<not> rule_matches tz rule inp now then eval_rules tz inp now rname rules best
      else eval_rules tz inp now rname rules (merge_decision best (rule_decision tz inp now rname rule)))"

fun eval_roles :: "zone \<Rightarrow> Doc \<Rightarrow> Input \<Rightarrow> gotime \<Rightarrow> string list \<Rightarrow> Decision \<Rightarrow> Decision" where
  "eval_roles tz doc inp now [] best = best"
| "eval_roles tz doc inp now (rname # roles) best =
     (case map_of (doc_Roles doc) rname of
        None \<Rightarrow> eval_roles tz doc inp now roles best
      | Some role \<Rightarrow>
          eval_roles tz doc inp now roles (eval_rules tz inp now rname (role_Allow role) best))"

definition resolved_roles :: "Doc \<Rightarrow> Input \<Rightarrow> string list" where
  "resolved_roles doc inp =
     (if length (in_Roles inp) = 0 then RolesFor doc (in_User inp) (in_Groups inp) else in_Roles inp)"

text \<open>\<open>wall\<close> is the clock read when the input carries no time.\<close>

definition Evaluate :: "zone \<Rightarrow> gotime \<Rightarrow> Doc \<Rightarrow> Input \<Rightarrow> Decision" where
  "Evaluate tz wall doc inp =
     (let roles = resolved_roles doc inp in
      if length roles = 0 then denied (NoRoles (in_User inp))
      else
        let now = (if in_Now inp = 0 then wall else in_Now inp) in
        eval_roles tz doc inp now roles (denied (NoRule roles (in_Action inp) (in_NodeName inp))))"

section \<open>Lemmas\<close>

text \<open>The reference definition: all rules of the resolved roles that match, in order.\<close>

definition matching_rules :: "zone \<Rightarrow> Doc \<Rightarrow> Input \<Rightarrow> gotime \<Rightarrow> string list \<Rightarrow> (string \<times> Rule) list" where
  "matching_rules tz doc inp now roles =
     concat (map (\<lambda>rname. case map_of (doc_Roles doc) rname of
         None \<Rightarrow> []
       | Some role \<Rightarrow> map (Pair rname) (filter (\<lambda>r. rule_matches tz r inp now) (role_Allow role))) roles)"

lemma eval_rules_foldl:
  "eval_rules tz inp now rname rules best =
     foldl merge_decision best
       (map (rule_decision tz inp now rname) (filter (\<lambda>r. rule_matches tz r inp now) rules))"
  by (induction rules arbitrary: best) auto

lemma eval_roles_foldl:
  "eval_roles tz doc inp now roles best =
     foldl merge_decision best
       (map (\<lambda>(n, r). rule_decision tz inp now n r) (matching_rules tz doc inp now roles))"
proof (induction roles arbitrary: best)
  case Nil
  show ?case by (simp add: matching_rules_def)
next
  case (Cons n roles)
  then show ?case
    by (simp add: matching_rules_def eval_rules_foldl comp_def split: option.splits)
qed

lemma merge_Allow [simp]: "d_Allow best \<Longrightarrow> d_Allow (merge_decision best d)"
  by (simp add: merge_decision_def)

text \<open>Zero (no cap) wins over every cap; otherwise the longest cap wins.\<close>

definition merged_ttl :: "duration list \<Rightarrow> duration" where
  "merged_ttl ts = (if 0 \<in> set ts then 0 else Max (set ts))"

lemma merged_ttl_single [simp]: "merged_ttl [t] = t"
  by (simp add: merged_ttl_def)

lemma merged_ttl_step:
  "merged_ttl ((if b = 0 \<or> (a \<noteq> 0 \<and> b > a) then b else a) # ts) = merged_ttl (a # b # ts)"
proof (cases "a = 0 \<or> b = 0")
  case True
  then show ?thesis by (auto simp: merged_ttl_def)
next
  case False
  have "Max (insert (max a b) (set ts)) = Max (insert a (insert b (set ts)))"
    by (cases "ts = []") (simp_all add: max.assoc)
  moreover have "(if b = 0 \<or> (a \<noteq> 0 \<and> b > a) then b else a) = max a b" using False by (simp add: max_def)
  ultimately show ?thesis using False by (auto simp: merged_ttl_def max_def)
qed

lemma foldl_merge:
  assumes "d_Allow d"
  shows "d_Allow (foldl merge_decision d ds)"
    and "d_MatchedRole (foldl merge_decision d ds) = d_MatchedRole d"
    and "d_Reason (foldl merge_decision d ds) = d_Reason d"
    and "d_AllowDetach (foldl merge_decision d ds) \<longleftrightarrow> (\<exists>x \<in> set (d # ds). d_AllowDetach x)"
    and "d_Record (foldl merge_decision d ds) \<longleftrightarrow> (\<exists>x \<in> set (d # ds). d_Record x)"
    and "d_ReadOnly (foldl merge_decision d ds) \<longleftrightarrow> (\<exists>x \<in> set (d # ds). d_ReadOnly x)"
    and "d_RequirePresence (foldl merge_decision d ds) \<longleftrightarrow> (\<exists>x \<in> set (d # ds). d_RequirePresence x)"
    and "d_MaxSessionTTL (foldl merge_decision d ds) = merged_ttl (map d_MaxSessionTTL (d # ds))"
  using assms
proof (induction ds arbitrary: d)
  case Nil
  { case 1 then show ?case by simp next case 2 then show ?case by simp next case 3 then show ?case by simp
  next case 4 then show ?case by simp next case 5 then show ?case by simp next case 6 then show ?case by simp
  next case 7 then show ?case by simp next case 8 then show ?case by simp }
next
  case (Cons x ds)
  { case 1 then show ?case using Cons.IH(1) by simp
  next case 2 then show ?case using Cons.IH(2) by (simp add: merge_decision_def)
  next case 3 then show ?case using Cons.IH(3) by (simp add: merge_decision_def)
  next case 4 then show ?case using Cons.IH(4) [of "merge_decision d x"] by (auto simp: merge_decision_def)
  next case 5 then show ?case using Cons.IH(5) [of "merge_decision d x"] by (auto simp: merge_decision_def)
  next case 6 then show ?case using Cons.IH(6) [of "merge_decision d x"] by (auto simp: merge_decision_def)
  next case 7 then show ?case using Cons.IH(7) [of "merge_decision d x"] by (auto simp: merge_decision_def)
  next case 8 then show ?case
      using Cons.IH(8) [of "merge_decision d x"]
        merged_ttl_step [of "d_MaxSessionTTL x" "d_MaxSessionTTL d" "map d_MaxSessionTTL ds"]
      by (simp add: merge_decision_def) }
qed

lemma bound_roles_spec:
  "distinct roles \<Longrightarrow> set roles = seen \<Longrightarrow>
   distinct (bound_roles user groups bs seen roles) \<and>
   set (bound_roles user groups bs seen roles) =
     seen \<union> {b_Role b | b. b \<in> set bs \<and> binding_matches user groups b}"
proof (induction bs arbitrary: seen roles)
  case Nil
  then show ?case by simp
next
  case (Cons b bs)
  show ?case
  proof (cases "binding_matches user groups b \<and> b_Role b \<notin> seen")
    case True
    then show ?thesis using Cons.prems Cons.IH [of "roles @ [b_Role b]" "insert (b_Role b) seen"] by auto
  next
    case False
    then show ?thesis using Cons.prems Cons.IH [of roles seen] by auto
  qed
qed

lemma matchList_iff: "matchList xs v \<longleftrightarrow> ''*'' \<in> set xs \<or> v \<in> set xs"
  by (induction xs) auto

lemma LabelsMatch_iff:
  "LabelsMatch sel labels \<longleftrightarrow>
     (\<forall>(k, v) \<in> set sel. k = ''*'' \<or> (\<exists>got. labels k = Some got \<and> (v = ''*'' \<or> got = v)))"
  by (induction sel labels rule: LabelsMatch.induct) (auto split: option.splits)

lemma map_of_map_roles:
  "map_of (map (\<lambda>(n, r). (n, f r)) roles) x = map_option f (map_of roles x)"
  by (induction roles) auto

section \<open>Properties\<close>

text \<open>
  C21: The decision, against its reference definition.  A request is allowed exactly when some rule of
  some resolved role matches it; the flags of the decision are then the union over \<^emph>\<open>all\<close> matching
  rules (most permissive for detach and recording, most restrictive for read-only and presence),
  the session lifetime is unlimited if any matching rule sets none and otherwise the longest one,
  and the role named is that of the first match.
\<close>

theorem Evaluate_is_merge_of_matches:
  "let now = (if in_Now inp = 0 then wall else in_Now inp);
       ms = matching_rules tz doc inp now (resolved_roles doc inp);
       ds = map (\<lambda>(n, r). rule_decision tz inp now n r) ms;
       d = Evaluate tz wall doc inp
   in d_Allow d = (ms \<noteq> []) \<and>
      (if ms = [] then d_MatchedRole d = [] \<and> d_MaxSessionTTL d = 0 \<and> \<not> d_AllowDetach d \<and>
          \<not> d_Record d \<and> \<not> d_ReadOnly d \<and> \<not> d_RequirePresence d
       else d_MatchedRole d = fst (hd ms) \<and>
          d_AllowDetach d = list_ex d_AllowDetach ds \<and> d_Record d = list_ex d_Record ds \<and>
          d_ReadOnly d = list_ex d_ReadOnly ds \<and> d_RequirePresence d = list_ex d_RequirePresence ds \<and>
          d_MaxSessionTTL d = (if list_ex (\<lambda>x. d_MaxSessionTTL x = 0) ds then 0
                               else Max (set (map d_MaxSessionTTL ds))))"
proof -
  let ?now = "if in_Now inp = 0 then wall else in_Now inp"
  let ?roles = "resolved_roles doc inp"
  let ?ms = "matching_rules tz doc inp ?now ?roles"
  let ?deny = "denied (NoRule ?roles (in_Action inp) (in_NodeName inp))"
  show ?thesis
  proof (cases "?ms = []")
    case True
    then show ?thesis
      by (simp add: Evaluate_def Let_def eval_roles_foldl denied_def)
  next
    case False
    then have ne: "length ?roles \<noteq> 0" by (auto simp: matching_rules_def)
    from False obtain n r ms where ms: "?ms = (n, r) # ms" by (cases ?ms) auto
    let ?d0 = "rule_decision tz inp ?now n r"
    let ?ds = "map (\<lambda>(n, r). rule_decision tz inp ?now n r) ms"
    have ev: "Evaluate tz wall doc inp = foldl merge_decision ?d0 ?ds"
      using ne ms by (simp add: Evaluate_def Let_def eval_roles_foldl merge_decision_def denied_def)
    have a: "d_Allow ?d0" and role: "d_MatchedRole ?d0 = n" by (simp_all add: rule_decision_def)
    have ttl: "merged_ttl (map d_MaxSessionTTL ds) =
        (if list_ex (\<lambda>x. d_MaxSessionTTL x = 0) ds then 0 else Max (set (map d_MaxSessionTTL ds)))" for ds
      by (auto simp: merged_ttl_def list_ex_iff)
    show ?thesis
      unfolding ev Let_def ms using foldl_merge [OF a, of ?ds] ttl [of "?d0 # ?ds"] role
      by (simp add: list_ex_iff)
  qed
qed

text \<open>
  Role resolution.  The roles of a user are exactly those of the bindings that name the user or
  one of the user's groups, each once, in ascending order.
\<close>

theorem RolesFor_exact:
  "set (RolesFor doc user groups) =
     {b_Role b | b. b \<in> set (doc_Bindings doc) \<and>
        (user \<in> set (b_Users b) \<or> (\<exists>g. g \<in> set groups \<and> g \<in> set (b_Groups b)))} \<and>
   distinct (RolesFor doc user groups) \<and> sorted (RolesFor doc user groups)"
proof -
  have "binding_matches user groups b \<longleftrightarrow>
      user \<in> set (b_Users b) \<or> (\<exists>g. g \<in> set groups \<and> g \<in> set (b_Groups b))" for b
    by (auto simp: binding_matches_def list_ex_iff)
  then show ?thesis
    using bound_roles_spec [of "[]" "{}" user groups "doc_Bindings doc"]
    by (simp add: RolesFor_def)
qed

definition drop_native :: "Doc \<Rightarrow> Doc" where
  "drop_native doc = doc\<lparr>doc_Roles := map (\<lambda>(n, role).
     (n, role\<lparr>role_Allow := filter (\<lambda>r. \<not> r_RequireNative r) (role_Allow role)\<rparr>)) (doc_Roles doc)\<rparr>"

text \<open>
  A native-only rule restricts only itself.  For a client that is not on the native path, the
  decision is the one the policy would give with every native-only rule deleted: such a rule never
  turns an access that another rule allows into a denial.
\<close>

theorem native_rules_do_not_restrict_others:
  assumes "in_ClientPath inp \<noteq> ''native''"
  shows "Evaluate tz wall doc inp = Evaluate tz wall (drop_native doc) inp"
proof -
  have f: "filter (\<lambda>r. \<not> r_RequireNative r \<and> rule_matches tz r inp now) rules =
      filter (\<lambda>r. rule_matches tz r inp now) rules" for rules now
    using assms by (auto simp: rule_matches_def intro!: filter_cong)
  have "matching_rules tz (drop_native doc) inp now roles = matching_rules tz doc inp now roles" for now roles
    unfolding matching_rules_def drop_native_def
    by (auto simp: map_of_map_roles f intro!: arg_cong [where f = concat] split: option.splits)
  moreover have "resolved_roles (drop_native doc) inp = resolved_roles doc inp"
    by (simp add: resolved_roles_def RolesFor_def drop_native_def)
  ultimately show ?thesis by (simp add: Evaluate_def Let_def eval_roles_foldl)
qed

definition demo_rule :: Rule where
  "demo_rule = \<lparr>r_Actions = [''shell''], r_Services = [], r_ServiceKinds = [], r_ServiceLabels = [],
     r_NodeLabels = [], r_TimeWindow = None, r_MaxSessionTTL = 0, r_AllowDetach = None, r_Record = None,
     r_ReadOnly = False, r_ReadOnlyTimeWindow = None, r_RequirePresence = False, r_RequireNative = False\<rparr>"

definition demo_doc :: Doc where
  "demo_doc = \<lparr>doc_Roles = [(''dev'', \<lparr>role_Allow = [demo_rule\<lparr>r_RequireNative := True\<rparr>, demo_rule]\<rparr>)],
     doc_Bindings = []\<rparr>"

definition demo_input :: Input where
  "demo_input = \<lparr>in_User = ''u'', in_Groups = [], in_Roles = [''dev''], in_NodeID = ''n'',
     in_NodeName = ''n'', in_NodeLabels = Map.empty, in_Action = ''shell'', in_ClientPath = ''web'',
     in_Service = [], in_ServiceKind = [], in_ServiceLabels = Map.empty, in_Now = 1\<rparr>"

lemmas policy_demo_defs = demo_rule_def demo_doc_def demo_input_def

theorem native_rules_do_not_restrict_others_witness:
  "Evaluate (\<lambda>_. 0) 0 demo_doc demo_input = Evaluate (\<lambda>_. 0) 0 (drop_native demo_doc) demo_input \<and>
   d_Allow (Evaluate (\<lambda>_. 0) 0 demo_doc demo_input)"
proof
  show "Evaluate (\<lambda>_. 0) 0 demo_doc demo_input = Evaluate (\<lambda>_. 0) 0 (drop_native demo_doc) demo_input"
    by (rule native_rules_do_not_restrict_others) (simp add: demo_input_def)
  show "d_Allow (Evaluate (\<lambda>_. 0) 0 demo_doc demo_input)"
    by (simp add: policy_demo_defs Evaluate_def resolved_roles_def rule_matches_def merge_decision_def
          rule_decision_def denied_def)
qed

text \<open>
  A wildcard service scope is no scope.  A rule whose services, kinds or service labels are the
  wildcard matches exactly the requests it would match with the constraint left out, plain node
  access included.
\<close>

theorem wildcard_service_scope_is_no_scope:
  assumes "''*'' \<in> set svcs" and "''*'' \<in> set kinds"
  shows "rule_matches tz (r\<lparr>r_Services := svcs, r_ServiceKinds := kinds, r_ServiceLabels := [(''*'', v)]\<rparr>) inp now =
     rule_matches tz (r\<lparr>r_Services := [], r_ServiceKinds := [], r_ServiceLabels := []\<rparr>) inp now"
  using assms by (simp add: rule_matches_def matchList_iff)

theorem wildcard_service_scope_is_no_scope_witness:
  "rule_matches (\<lambda>_. 0) (demo_rule\<lparr>r_Services := [''*''], r_ServiceKinds := [''*''],
      r_ServiceLabels := [(''*'', ''*'')]\<rparr>) demo_input 0"
  using wildcard_service_scope_is_no_scope [where svcs = "[''*'']" and kinds = "[''*'']"
      and tz = "\<lambda>_. 0" and r = demo_rule and v = "''*''" and inp = demo_input and now = 0]
  by (simp add: rule_matches_def policy_demo_defs)

text \<open>
  A malformed window.  A clock window whose start or end does not parse contains no instant; so
  an access window that is malformed denies, but a read-only window that is malformed imposes
  nothing and leaves the session writable.
\<close>

theorem malformed_window_never_contains:
  assumes "parse_hm (tw_Start w) = None \<or> parse_hm (tw_End w) = None"
  shows "\<not> window_contains tz w now \<and>
     (r_TimeWindow r = Some w \<longrightarrow> \<not> rule_matches tz r inp now) \<and>
     (r_ReadOnlyTimeWindow r = Some w \<longrightarrow>
        d_ReadOnly (rule_decision tz inp now n r) = r_ReadOnly r)"
proof -
  have "\<not> window_contains tz w now"
    using assms by (auto simp: window_contains_def split: option.splits)
  then show ?thesis by (simp add: rule_matches_def rule_decision_def)
qed

theorem malformed_window_never_contains_witness:
  "\<not> d_ReadOnly (rule_decision (\<lambda>_. 0) demo_input 0 ''dev''
      (demo_rule\<lparr>r_ReadOnlyTimeWindow := Some \<lparr>tw_Days = [], tw_Start = ''noon'', tw_End = ''17:00''\<rparr>\<rparr>))"
proof -
  have "parse_hm ''noon'' = None"
    by (simp add: parse_hm_def scan_int_def is_space_def is_digit_def)
  then show ?thesis
    using malformed_window_never_contains [of "\<lparr>tw_Days = [], tw_Start = ''noon'', tw_End = ''17:00''\<rparr>"
      "\<lambda>_. 0" 0 "demo_rule\<lparr>r_ReadOnlyTimeWindow := Some \<lparr>tw_Days = [], tw_Start = ''noon'', tw_End = ''17:00''\<rparr>\<rparr>"
      demo_input "''dev''"]
    by (simp add: demo_rule_def)
qed

end
