(* ===== verification/Wire_Frames.thy ===== *)
theory Wire_Frames
  imports Go_Std
begin

text \<open>
  Byte-level encodings: the length-prefixed frames of \<open>internal/wire/frame.go\<close>, the message framing
  of \<open>internal/attachproto/attachproto.go\<close> on top of it, and the enrollment credential of
  \<open>internal/enrollcode/enrollcode.go\<close> with the unpadded base64url codec it uses.

  A writer is the byte string it has been given so far; a reader is the byte string still to come.
  A connection that fails is a reader that ends early.  The locale \<open>framing\<close> is the contract a
  self-delimiting codec offers its clients; it is interpreted on frames and on attach messages.
\<close>

section \<open>Frames\<close>

definition MaxFrame :: nat where "MaxFrame = 2 ^ 20"

datatype frame_error =
    FrameTooLarge nat
  | ReadEOF
  | ReadUnexpectedEOF
  | FrameMarshal
  | FrameUnmarshal

text \<open>\<open>binary.BigEndian.PutUint32\<close> and \<open>Uint32\<close>.\<close>

definition PutUint32 :: "nat \<Rightarrow> bytes" where
  "PutUint32 n = map char_of [n div 2 ^ 24 mod 256, n div 2 ^ 16 mod 256, n div 2 ^ 8 mod 256, n mod 256]"

definition Uint32 :: "bytes \<Rightarrow> nat" where
  "Uint32 b = foldl (\<lambda>a c. a * 256 + of_char c) 0 b"

definition WriteFrame :: "bytes \<Rightarrow> bytes \<Rightarrow> frame_error + bytes" where
  "WriteFrame w p =
     (if length p > MaxFrame then Inl (FrameTooLarge (length p))
      else Inr (w @ PutUint32 (length p mod 2 ^ 32) @ p))"

text \<open>\<open>io.ReadFull\<close>: no byte at all is \<open>EOF\<close>, too few is \<open>ErrUnexpectedEOF\<close>.\<close>

definition ReadFull :: "nat \<Rightarrow> bytes \<Rightarrow> frame_error + bytes \<times> bytes" where
  "ReadFull n r =
     (if n \<le> length r then Inr (take n r, drop n r)
      else if r = [] then Inl ReadEOF else Inl ReadUnexpectedEOF)"

definition ReadFrameLimit :: "nat \<Rightarrow> bytes \<Rightarrow> frame_error + bytes \<times> bytes" where
  "ReadFrameLimit limit r =
     bindE (ReadFull 4 r) (\<lambda>(hdr, r1).
     let n = Uint32 hdr in
     bindE (checkE (\<not> n > limit) (FrameTooLarge n)) (\<lambda>_.
     ReadFull n r1))"

definition ReadFrame :: "bytes \<Rightarrow> frame_error + bytes \<times> bytes" where
  "ReadFrame r = ReadFrameLimit MaxFrame r"

section \<open>Messages\<close>

text \<open>A message codec: \<open>json.Marshal\<close>/\<open>Unmarshal\<close> or \<open>proto.Marshal\<close>/\<open>Unmarshal\<close> at one type.\<close>

record 'm message_codec =
  marshal :: "'m \<Rightarrow> bytes option"
  unmarshal :: "bytes \<Rightarrow> 'm option"

definition WriteJSON :: "'m message_codec \<Rightarrow> bytes \<Rightarrow> 'm \<Rightarrow> frame_error + bytes" where
  "WriteJSON cd w v =
     (case marshal cd v of None \<Rightarrow> Inl FrameMarshal | Some b \<Rightarrow> WriteFrame w b)"

definition ReadJSON :: "'m message_codec \<Rightarrow> bytes \<Rightarrow> frame_error + 'm \<times> bytes" where
  "ReadJSON cd r =
     bindE (ReadFrame r) (\<lambda>(b, rest).
     (case unmarshal cd b of None \<Rightarrow> Inl FrameUnmarshal | Some v \<Rightarrow> Inr (v, rest)))"

text \<open>\<open>attachproto.writeMsg\<close> and \<open>ReadClientMsg\<close>/\<open>ReadHostMsg\<close>, which differ in the type only.\<close>

definition writeMsg :: "'m message_codec \<Rightarrow> bytes \<Rightarrow> 'm \<Rightarrow> frame_error + bytes" where
  "writeMsg cd w m =
     (case marshal cd m of None \<Rightarrow> Inl FrameMarshal | Some b \<Rightarrow> WriteFrame w b)"

definition readMsg :: "'m message_codec \<Rightarrow> bytes \<Rightarrow> frame_error + 'm \<times> bytes" where
  "readMsg cd r =
     bindE (ReadFrame r) (\<lambda>(b, rest).
     (case unmarshal cd b of None \<Rightarrow> Inl FrameUnmarshal | Some m \<Rightarrow> Inr (m, rest)))"

record AttachOpenParams =
  ao_LastSeenSeq :: nat
  ao_Cols :: nat
  ao_Rows :: nat
  ao_Term :: string

definition ParseAttachOpenParams ::
    "AttachOpenParams message_codec \<Rightarrow> bytes \<Rightarrow> frame_error + AttachOpenParams" where
  "ParseAttachOpenParams cd b =
     (if length b = 0 then Inr \<lparr>ao_LastSeenSeq = 0, ao_Cols = 0, ao_Rows = 0, ao_Term = []\<rparr>
      else case unmarshal cd b of None \<Rightarrow> Inl FrameUnmarshal | Some p \<Rightarrow> Inr p)"

section \<open>The enrollment credential\<close>

definition b64char :: "nat \<Rightarrow> char" where
  "b64char n =
     (if n < 26 then char_of (65 + n) else if n < 52 then char_of (71 + n)
      else if n < 62 then char_of (n - 4) else if n = 62 then CHR ''-'' else CHR ''_'')"

definition b64val :: "char \<Rightarrow> nat option" where
  "b64val c =
     (let k = of_char c in
      if 65 \<le> k \<and> k \<le> 90 then Some (k - 65) else if 97 \<le> k \<and> k \<le> 122 then Some (k - 71)
      else if 48 \<le> k \<and> k \<le> 57 then Some (k + 4) else if c = CHR ''-'' then Some 62
      else if c = CHR ''_'' then Some 63 else None)"

fun b64_encode :: "nat list \<Rightarrow> nat list" where
  "b64_encode [] = []"
| "b64_encode [a] = [a div 4, (a mod 4) * 16]"
| "b64_encode [a, b] = [a div 4, (a mod 4) * 16 + b div 16, (b mod 16) * 4]"
| "b64_encode (a # b # c # r) =
     (a div 4) # ((a mod 4) * 16 + b div 16) # ((b mod 16) * 4 + c div 64) # (c mod 64) # b64_encode r"

fun b64_decode :: "nat list \<Rightarrow> nat list option" where
  "b64_decode [] = Some []"
| "b64_decode [w] = None"
| "b64_decode [w, x] = Some [w * 4 + x div 16]"
| "b64_decode [w, x, y] = Some [w * 4 + x div 16, (x mod 16) * 16 + y div 4]"
| "b64_decode (w # x # y # z # r) =
     map_option (\<lambda>bs. (w * 4 + x div 16) # ((x mod 16) * 16 + y div 4) # ((y mod 4) * 64 + z) # bs)
       (b64_decode r)"

text \<open>\<open>base64.RawURLEncoding\<close>: the decoder skips line breaks and does not check trailing bits.\<close>

definition RawURL_EncodeToString :: "bytes \<Rightarrow> string" where
  "RawURL_EncodeToString b = map b64char (b64_encode (map of_char b))"

fun b64_values :: "string \<Rightarrow> nat list option" where
  "b64_values [] = Some []"
| "b64_values (c # cs) =
     (if c = CHR 0x0A \<or> c = CHR 0x0D then b64_values cs
      else case b64val c of None \<Rightarrow> None | Some v \<Rightarrow> map_option (Cons v) (b64_values cs))"

definition RawURL_DecodeString :: "string \<Rightarrow> bytes option" where
  "RawURL_DecodeString s =
     (case b64_values s of
        None \<Rightarrow> None
      | Some vs \<Rightarrow> map_option (map char_of) (b64_decode vs))"

definition Prefix :: string where "Prefix = ''gzk_''"

record Fields =
  f_Token :: string
  f_RootFP :: string
  f_HTTP :: string
  f_Runtime :: string
  f_GRPC :: string

definition Encode :: "Fields \<Rightarrow> string" where
  "Encode f =
     (let payload = strings_Join [f_Token f, f_RootFP f, f_HTTP f, f_Runtime f, f_GRPC f] '';''
      in Prefix @ RawURL_EncodeToString payload)"

definition CutPrefix :: "string \<Rightarrow> string \<Rightarrow> string option" where
  "CutPrefix s pre = (if take (length pre) s = pre then Some (drop (length pre) s) else None)"

definition Decode :: "string \<Rightarrow> Fields option" where
  "Decode code =
     (case CutPrefix code Prefix of
        None \<Rightarrow> None
      | Some body \<Rightarrow>
          (case RawURL_DecodeString body of
             None \<Rightarrow> None
           | Some raw \<Rightarrow>
               let p = split_byte CHR '';'' raw;
                   p5 = p @ replicate (5 - length p) []
               in Some \<lparr>f_Token = p5 ! 0, f_RootFP = p5 ! 1, f_HTTP = p5 ! 2, f_Runtime = p5 ! 3,
                        f_GRPC = p5 ! 4\<rparr>))"

section \<open>The framing contract\<close>

text \<open>
  \<open>put w m\<close> appends the encoding of \<open>m\<close> to what was written, \<open>get r\<close> takes one message off the
  front.  The law: what was put is got back, and the rest of the stream is untouched.
\<close>

locale framing =
  fixes put :: "bytes \<Rightarrow> 'm \<Rightarrow> 'e + bytes"
    and get :: "bytes \<Rightarrow> 'f + 'm \<times> bytes"
    and sendable :: "'m \<Rightarrow> bool"
  assumes put_get: "sendable m \<Longrightarrow> \<exists>enc. (\<forall>w. put w m = Inr (w @ enc)) \<and> (\<forall>rest. get (enc @ rest) = Inr (m, rest))"
begin

primrec put_all :: "bytes \<Rightarrow> 'm list \<Rightarrow> 'e + bytes" where
  "put_all w [] = Inr w"
| "put_all w (m # ms) = bindE (put w m) (\<lambda>w'. put_all w' ms)"

primrec get_all :: "nat \<Rightarrow> bytes \<Rightarrow> 'f + 'm list \<times> bytes" where
  "get_all 0 r = Inr ([], r)"
| "get_all (Suc n) r = bindE (get r) (\<lambda>(m, r'). bindE (get_all n r') (\<lambda>(ms, r''). Inr (m # ms, r'')))"

lemma stream_roundtrip:
  "(\<And>m. m \<in> set ms \<Longrightarrow> sendable m) \<Longrightarrow>
   \<exists>enc. (\<forall>w. put_all w ms = Inr (w @ enc)) \<and> (\<forall>rest. get_all (length ms) (enc @ rest) = Inr (ms, rest))"
proof (induction ms)
  case Nil
  show ?case by (intro exI [of _ "[]"]) simp
next
  case (Cons m ms)
  obtain e where e: "\<And>w. put w m = Inr (w @ e)" "\<And>rest. get (e @ rest) = Inr (m, rest)"
    using put_get [of m] Cons.prems by auto
  obtain es where es: "\<And>w. put_all w ms = Inr (w @ es)"
    "\<And>rest. get_all (length ms) (es @ rest) = Inr (ms, rest)"
    using Cons by auto
  show ?case by (intro exI [of _ "e @ es"]) (simp add: e es)
qed

end

section \<open>Lemmas\<close>

lemma Uint32_PutUint32: "n < 2 ^ 32 \<Longrightarrow> Uint32 (PutUint32 n) = n"
proof -
  assume "n < 2 ^ 32"
  then have "n div 2 ^ 24 mod 256 = n div 2 ^ 24" by (simp add: less_mult_imp_div_less)
  moreover have "n = ((n div 2 ^ 24 * 256 + n div 2 ^ 16 mod 256) * 256 + n div 2 ^ 8 mod 256) * 256 + n mod 256"
  proof -
    have d: "n div 2 ^ 8 = n div 256" "n div 2 ^ 16 = n div 256 div 256"
      "n div 2 ^ 24 = n div 256 div 256 div 256"
      by (simp_all add: div_mult2_eq [symmetric])
    show ?thesis unfolding d by (simp only: div_mult_mod_eq)
  qed
  ultimately show ?thesis by (simp add: Uint32_def PutUint32_def)
qed

lemma length_PutUint32 [simp]: "length (PutUint32 n) = 4"
  by (simp add: PutUint32_def)

lemma ReadFrameLimit_frame:
  assumes "length p \<le> limit" and "length p < 2 ^ 32"
  shows "ReadFrameLimit limit (PutUint32 (length p) @ p @ rest) = Inr (p, rest)"
  using assms by (simp add: ReadFrameLimit_def ReadFull_def Uint32_PutUint32)

lemma WriteFrame_ok:
  "length p \<le> MaxFrame \<Longrightarrow> WriteFrame w p = Inr (w @ PutUint32 (length p) @ p)"
  by (simp add: WriteFrame_def MaxFrame_def)

interpretation frames: framing WriteFrame ReadFrame "\<lambda>p. length p \<le> MaxFrame"
proof unfold_locales
  fix p :: bytes
  assume "length p \<le> MaxFrame"
  moreover from this have "length p < 2 ^ 32" by (simp add: MaxFrame_def)
  ultimately show "\<exists>enc. (\<forall>w. WriteFrame w p = Inr (w @ enc)) \<and>
      (\<forall>rest. ReadFrame (enc @ rest) = Inr (p, rest))"
    by (intro exI [of _ "PutUint32 (length p) @ p"])
      (simp add: WriteFrame_ok ReadFrame_def ReadFrameLimit_frame)
qed

text \<open>A message can be sent when it marshals into one frame and its codec inverts.\<close>

definition msg_sendable :: "'m message_codec \<Rightarrow> 'm \<Rightarrow> bool" where
  "msg_sendable cd m \<longleftrightarrow>
     (\<exists>b. marshal cd m = Some b \<and> length b \<le> MaxFrame \<and> unmarshal cd b = Some m)"

interpretation attach: framing "writeMsg cd" "readMsg cd" "msg_sendable cd" for cd
proof unfold_locales
  fix m
  assume "msg_sendable cd m"
  then obtain b where b: "marshal cd m = Some b" "length b \<le> MaxFrame" "unmarshal cd b = Some m"
    by (auto simp: msg_sendable_def)
  obtain e where "\<And>w. WriteFrame w b = Inr (w @ e)" "\<And>rest. ReadFrame (e @ rest) = Inr (b, rest)"
    using frames.put_get [OF b(2)] by auto
  with b show "\<exists>enc. (\<forall>w. writeMsg cd w m = Inr (w @ enc)) \<and> (\<forall>rest. readMsg cd (enc @ rest) = Inr (m, rest))"
    by (intro exI [of _ e]) (simp add: writeMsg_def readMsg_def)
qed

subsection \<open>Base64\<close>

lemma b64val_b64char: "n < 64 \<Longrightarrow> b64val (b64char n) = Some n"
  by (auto simp: b64char_def b64val_def Let_def)

lemma b64_digits_lt:
  assumes "a < 256" and "b < 256" and "c < (256 :: nat)"
  shows "a div 4 < 64" "(a mod 4) * 16 < 64" "(a mod 4) * 16 + b div 16 < 64" "(b mod 16) * 4 < 64"
    "(b mod 16) * 4 + c div 64 < 64"
proof -
  have "a mod 4 < 4" "b mod 16 < 16" "b div 16 < 16" "c div 64 < 4"
    using assms by (simp_all add: less_mult_imp_div_less)
  then show "(a mod 4) * 16 < 64" "(a mod 4) * 16 + b div 16 < 64" "(b mod 16) * 4 < 64"
    "(b mod 16) * 4 + c div 64 < 64" by linarith+
  show "a div 4 < 64" using assms(1) by (simp add: less_mult_imp_div_less)
qed

lemma b64_encode_lt: "(\<And>b. b \<in> set bs \<Longrightarrow> b < 256) \<Longrightarrow> v \<in> set (b64_encode bs) \<Longrightarrow> v < 64"
proof (induction bs rule: b64_encode.induct)
  case 1
  then show ?case by simp
next
  case (2 a)
  then show ?case using b64_digits_lt [of a 0 0] by auto
next
  case (3 a b)
  then show ?case using b64_digits_lt [of a b 0] by auto
next
  case (4 a b c r)
  then have "a < 256" "b < 256" "c < 256" by simp_all
  note b64_digits_lt [OF this]
  moreover have "v < 64" if "v \<in> set (b64_encode r)" using 4 that by simp
  ultimately show ?case using 4 by auto
qed

lemma b64_pack:
  assumes "b < 256" and "c < (256 :: nat)"
  shows "(a div 4) * 4 + ((a mod 4) * 16 + b div 16) div 16 = a"
    and "((a mod 4) * 16 + b div 16) mod 16 * 16 + ((b mod 16) * 4 + c div 64) div 4 = b"
    and "((b mod 16) * 4 + c div 64) mod 4 * 64 + c mod 64 = c"
proof -
  have "b div 16 < 16" "c div 64 < 4" using assms by (simp_all add: less_mult_imp_div_less)
  then show "(a div 4) * 4 + ((a mod 4) * 16 + b div 16) div 16 = a"
    "((a mod 4) * 16 + b div 16) mod 16 * 16 + ((b mod 16) * 4 + c div 64) div 4 = b"
    "((b mod 16) * 4 + c div 64) mod 4 * 64 + c mod 64 = c"
    by simp_all
qed

lemma b64_decode_encode: "(\<And>b. b \<in> set bs \<Longrightarrow> b < 256) \<Longrightarrow> b64_decode (b64_encode bs) = Some bs"
proof (induction bs rule: b64_encode.induct)
  case 1
  show ?case by simp
next
  case (2 a)
  show ?case using b64_pack(1) [of 0 0 a] by simp
next
  case (3 a b)
  then show ?case using b64_pack(1,2) [of b 0 a] by simp
next
  case (4 a b c r)
  then show ?case using b64_pack(1,2) [of b c a] b64_pack(3) [of b c] by simp
qed

lemma b64_values_chars:
  "(\<And>v. v \<in> set vs \<Longrightarrow> v < 64) \<Longrightarrow> b64_values (map b64char vs) = Some vs"
proof (induction vs)
  case Nil
  show ?case by simp
next
  case (Cons v vs)
  then have v: "b64val (b64char v) = Some v" by (simp add: b64val_b64char)
  have "b64val (CHR 0x0A) = None" "b64val (CHR 0x0D) = None"
    by (simp_all add: b64val_def)
  with v have "b64char v \<noteq> CHR 0x0A" "b64char v \<noteq> CHR 0x0D" by auto
  with Cons v show ?case by simp
qed

lemma RawURL_roundtrip: "RawURL_DecodeString (RawURL_EncodeToString b) = Some b"
proof -
  let ?bs = "map of_char b :: nat list"
  have lt: "\<And>x. x \<in> set ?bs \<Longrightarrow> x < 256" by auto
  have "b64_values (RawURL_EncodeToString b) = Some (b64_encode ?bs)"
    unfolding RawURL_EncodeToString_def by (rule b64_values_chars) (rule b64_encode_lt [OF lt])
  moreover have "b64_decode (b64_encode ?bs) = Some ?bs" by (rule b64_decode_encode) (rule lt)
  ultimately show ?thesis by (simp add: RawURL_DecodeString_def comp_def)
qed

section \<open>Properties\<close>

text \<open>
  Frame streams round trip, and a read is bounded.  Any sequence of payloads of at most
  \<open>MaxFrame\<close> bytes, written one after the other, is read back as exactly that sequence, leaving
  whatever followed on the stream; a longer payload is refused before a byte is written; and a read
  with a limit never yields more bytes than the limit, whatever arrives.
\<close>

theorem frame_stream_roundtrip:
  assumes "\<And>p. p \<in> set ps \<Longrightarrow> length p \<le> MaxFrame"
  shows "(\<exists>enc. (\<forall>w. frames.put_all w ps = Inr (w @ enc)) \<and>
            (\<forall>rest. frames.get_all (length ps) (enc @ rest) = Inr (ps, rest))) \<and>
         (\<forall>w p. MaxFrame < length p \<longrightarrow> WriteFrame w p = Inl (FrameTooLarge (length p))) \<and>
         (\<forall>limit r p rest. ReadFrameLimit limit r = Inr (p, rest) \<longrightarrow> length p \<le> limit)"
proof -
  have "length p \<le> limit" if "ReadFrameLimit limit r = Inr (p, rest)" for limit r p rest
    using that by (auto simp: ReadFrameLimit_def ReadFull_def Let_def bindE_eq_Inr checkE_eq_Inr split: if_splits)
  then show ?thesis
    using frames.stream_roundtrip [of ps] assms by (auto simp: WriteFrame_def)
qed

theorem frame_stream_roundtrip_witness:
  "\<exists>enc. frames.put_all [] [''a'', '''', ''bc''] = Inr enc \<and>
     frames.get_all 3 enc = Inr ([''a'', '''', ''bc''], [])"
proof -
  have "\<And>p. p \<in> set [''a'', '''', ''bc''] \<Longrightarrow> length p \<le> MaxFrame" by (auto simp: MaxFrame_def)
  from frame_stream_roundtrip [OF this]
  obtain enc where e: "\<And>w. frames.put_all w [''a'', '''', ''bc''] = Inr (w @ enc)"
    "\<And>rest. frames.get_all (length [''a'', '''', ''bc'']) (enc @ rest) = Inr ([''a'', '''', ''bc''], rest)"
    by blast
  show ?thesis
    using e(1) [of "[]"] e(2) [of "[]"] by (intro exI [of _ enc]) (simp add: numeral_3_eq_3)
qed

text \<open>
  The enrollment code round trips.  Decoding an encoded bundle gives the bundle back, provided no
  field contains the separator.
\<close>

theorem enroll_code_roundtrip:
  assumes "\<And>s. s \<in> {f_Token f, f_RootFP f, f_HTTP f, f_Runtime f, f_GRPC f} \<Longrightarrow> CHR '';'' \<notin> set s"
  shows "Decode (Encode f) = Some f"
proof -
  let ?p = "[f_Token f, f_RootFP f, f_HTTP f, f_Runtime f, f_GRPC f]"
  have "split_byte CHR '';'' (strings_Join ?p '';'') = ?p"
    by (rule split_byte_Join) (use assms in auto)
  then show ?thesis
    by (simp add: Decode_def Encode_def CutPrefix_def Prefix_def RawURL_roundtrip Let_def
          del: strings_Join.simps)
qed

theorem enroll_code_roundtrip_witness:
  "Decode (Encode \<lparr>f_Token = ''gz-1'', f_RootFP = ''sha256:00'', f_HTTP = [], f_Runtime = [], f_GRPC = ''h:1''\<rparr>) =
     Some \<lparr>f_Token = ''gz-1'', f_RootFP = ''sha256:00'', f_HTTP = [], f_Runtime = [], f_GRPC = ''h:1''\<rparr>"
  by (rule enroll_code_roundtrip) auto

end
