(* ===== verification/Scrollback.thy ===== *)
theory Scrollback
  imports Go_Std
begin

text \<open>
  The session host's output path: the bounded scrollback of \<open>internal/sessionhost/ring.go\<close> and the
  parts of \<open>internal/sessionhost/session.go\<close> that number output, replay it on attach, deduplicate
  input and track detached sessions.

  Each operation is the critical section under the session's mutex.  A client is identified by a
  number; \<open>detachedN\<close> is the host-wide counter; whether a client's delivery queue is full is an
  argument, as is the screen rendered by the virtual terminal.  The overwriting of evicted bytes is
  not observable in the model, where a dropped chunk is gone.
\<close>

section \<open>The ring\<close>

record ringChunk =
  ch_seq :: nat
  ch_stderr :: bool
  ch_data :: bytes

record ring =
  rg_max :: int
  rg_size :: int
  rg_chunks :: "ringChunk list"

definition defaultRingBytes :: int where "defaultRingBytes = 262144"

definition newRing :: "int \<Rightarrow> ring" where
  "newRing m = \<lparr>rg_max = (if m \<le> 0 then defaultRingBytes else m), rg_size = 0, rg_chunks = []\<rparr>"

fun evict :: "int \<Rightarrow> int \<Rightarrow> ringChunk list \<Rightarrow> int \<times> ringChunk list" where
  "evict mx sz [] = (sz, [])"
| "evict mx sz [c] = (sz, [c])"
| "evict mx sz (old # c # cs) =
     (if sz > mx then evict mx (sz - int (length (ch_data old))) (c # cs)
      else (sz, old # c # cs))"

definition ring_add :: "nat \<Rightarrow> bool \<Rightarrow> bytes \<Rightarrow> ring \<Rightarrow> ring" where
  "ring_add sq stderr data r =
     (let (sz, chunks) = evict (rg_max r) (rg_size r + int (length data))
            (rg_chunks r @ [\<lparr>ch_seq = sq, ch_stderr = stderr, ch_data = data\<rparr>])
      in r\<lparr>rg_size := sz, rg_chunks := chunks\<rparr>)"

definition deltaFrom :: "nat \<Rightarrow> nat \<Rightarrow> ring \<Rightarrow> ringChunk list \<times> bool" where
  "deltaFrom after cur r =
     (if after > cur then ([], False)
      else if after = cur then ([], True)
      else if rg_chunks r = [] \<or> ch_seq (hd (rg_chunks r)) > (after + 1) mod 2 ^ 64 then ([], False)
      else (dropWhile (\<lambda>c. ch_seq c \<le> after) (rg_chunks r), True))"

definition zeroize :: "ring \<Rightarrow> ring" where
  "zeroize r = r\<lparr>rg_chunks := [], rg_size := 0\<rparr>"

section \<open>The session\<close>

datatype frame =
    SnapshotF bytes nat
  | ChunkF nat bool bytes
  | ExitF int string
  | AckF nat

datatype sess_state = StateAttached | StateDetached | StateExited

record hsession =
  hs_ptyMode :: bool
  hs_detachable :: bool
  hs_state :: sess_state
  hs_detachedCounted :: bool
  hs_vt :: bool \<comment> \<open>a virtual terminal exists\<close>
  hs_ring :: ring
  hs_seq :: nat
  hs_lastInputSeq :: nat
  hs_stdinClosed :: bool
  hs_client :: "nat option"
  hs_lagged :: bool \<comment> \<open>of the attached client\<close>
  hs_allowInput :: "bool option" \<comment> \<open>\<open>caps.AllowInput\<close>, if caps were pushed\<close>
  hs_exited :: bool
  hs_exitCode :: int
  hs_exitReason :: string
  hs_killReason :: string
  hs_delivered :: "(nat \<times> frame) list" \<comment> \<open>frames queued, with the client they were queued for\<close>
  hs_input :: "bytes list" \<comment> \<open>writes to the child's input\<close>

type_synonym host = "hsession \<times> int"

definition markDetachedLocked :: "host \<Rightarrow> host" where
  "markDetachedLocked = (\<lambda>(s, n).
     let s1 = s\<lparr>hs_state := StateDetached\<rparr> in
     if hs_detachable s \<and> \<not> hs_detachedCounted s then (s1\<lparr>hs_detachedCounted := True\<rparr>, n + 1)
     else (s1, n))"

text \<open>\<open>terminate\<close>: the first reason wins; the signal itself is the environment's business.\<close>

definition terminate :: "string \<Rightarrow> hsession \<Rightarrow> hsession" where
  "terminate reason s =
     (if hs_exited s then s else if hs_killReason s = [] then s\<lparr>hs_killReason := reason\<rparr> else s)"

definition deliverLocked :: "bool \<Rightarrow> frame \<Rightarrow> host \<Rightarrow> host" where
  "deliverLocked full m = (\<lambda>(s, n).
     (case hs_client s of
        None \<Rightarrow> (s, n)
      | Some cl \<Rightarrow>
          if \<not> full then (s\<lparr>hs_delivered := hs_delivered s @ [(cl, m)]\<rparr>, n)
          else if hs_vt s then (s\<lparr>hs_lagged := True\<rparr>, n)
          else
            let s1 = s\<lparr>hs_client := None\<rparr> in
            if hs_exited s1 then (s1, n)
            else if hs_detachable s1 then markDetachedLocked (s1, n)
            else (terminate ''killed'' (s1\<lparr>hs_state := StateDetached\<rparr>), n)))"

text \<open>One read of the pump, and \<open>emitNotice\<close>: number the chunk, retain it, deliver it.\<close>

definition emit :: "bool \<Rightarrow> bytes \<Rightarrow> bool \<Rightarrow> host \<Rightarrow> host" where
  "emit isStderr data full = (\<lambda>(s, n).
     let sq = hs_seq s + 1;
         s1 = s\<lparr>hs_seq := sq, hs_ring := ring_add sq isStderr data (hs_ring s)\<rparr>
     in deliverLocked full (ChunkF sq isStderr data) (s1, n))"

definition emitNotice :: "bytes \<Rightarrow> bool \<Rightarrow> host \<Rightarrow> host" where
  "emitNotice text full h = (if text = [] then h else emit False text full h)"

definition chunk_frames :: "ringChunk list \<Rightarrow> frame list" where
  "chunk_frames cs = map (\<lambda>c. ChunkF (ch_seq c) (ch_stderr c) (ch_data c)) cs"

definition attach :: "bytes \<Rightarrow> nat \<Rightarrow> nat \<Rightarrow> host \<Rightarrow> frame list \<times> bool \<times> host" where
  "attach screen cl lastSeen = (\<lambda>(s, n).
     (if hs_exited s then
        (let (chunks, ok) = deltaFrom lastSeen (hs_seq s) (hs_ring s);
             replay = (if ok then (if \<not> hs_ptyMode s \<and> lastSeen = 0 then [SnapshotF [] 0] else [])
                                  @ chunk_frames chunks else [])
         in (replay @ [ExitF (hs_exitCode s) (hs_exitReason s)], False, (s, n)))
      else
        let n1 = (if hs_client s = None \<and> hs_detachedCounted s then n - 1 else n);
            s1 = s\<lparr>hs_detachedCounted := (if hs_client s = None then False else hs_detachedCounted s),
                   hs_client := Some cl, hs_lagged := False, hs_state := StateAttached,
                   hs_lastInputSeq := 0\<rparr>;
            cur = hs_seq s1;
            (chunks, ok) = deltaFrom lastSeen cur (hs_ring s1)
        in if ok \<and> (lastSeen > 0 \<or> \<not> hs_ptyMode s1)
           then ((if \<not> hs_ptyMode s1 \<and> lastSeen = 0 then [SnapshotF [] 0] else []) @ chunk_frames chunks,
                 True, (s1, n1))
           else ([SnapshotF (if hs_vt s1 then screen else []) cur], True, (s1, n1))))"

definition clientGone :: "int \<Rightarrow> nat \<Rightarrow> host \<Rightarrow> host" where
  "clientGone maxDetached cl = (\<lambda>(s, n).
     if hs_client s \<noteq> Some cl then (s, n)
     else
       let s1 = s\<lparr>hs_client := None\<rparr> in
       if hs_exited s1 then (s1, n)
       else if hs_detachable s1 then
         (if n < maxDetached then markDetachedLocked (s1, n)
          else (terminate ''reaped'' (s1\<lparr>hs_state := StateDetached\<rparr>), n))
       else (terminate ''killed'' (s1\<lparr>hs_state := StateDetached\<rparr>), n))"

datatype detach_error = NotDetachable | MaxDetached

definition detachRequest :: "int \<Rightarrow> nat \<Rightarrow> host \<Rightarrow> detach_error option \<times> host" where
  "detachRequest maxDetached cl = (\<lambda>(s, n).
     if hs_client s \<noteq> Some cl \<or> hs_exited s then (None, (s, n))
     else if \<not> hs_detachable s then (Some NotDetachable, (s, n))
     else if n \<ge> maxDetached then (Some MaxDetached, (s, n))
     else (None, markDetachedLocked (s\<lparr>hs_client := None\<rparr>, n)))"

definition handleInput :: "nat \<Rightarrow> nat \<Rightarrow> bytes \<Rightarrow> bool \<Rightarrow> host \<Rightarrow> host" where
  "handleInput cl inSeq data full = (\<lambda>(s, n).
     if hs_client s \<noteq> Some cl \<or> hs_exited s then (s, n)
     else
       let fresh = inSeq > hs_lastInputSeq s;
           s1 = (if fresh then s\<lparr>hs_lastInputSeq := inSeq\<rparr> else s);
           writable = hs_ptyMode s1 \<or> \<not> hs_stdinClosed s1;
           ap = (fresh \<and> \<not> (case hs_allowInput s1 of None \<Rightarrow> False | Some ok \<Rightarrow> \<not> ok));
           s2 = (if ap \<and> writable \<and> length data > 0 then s1\<lparr>hs_input := hs_input s1 @ [data]\<rparr> else s1)
       in if hs_client s2 = Some cl then deliverLocked full (AckF inSeq) (s2, n) else (s2, n))"

definition finalize :: "int \<Rightarrow> string \<Rightarrow> bool \<Rightarrow> host \<Rightarrow> host" where
  "finalize code reason full = (\<lambda>(s, n).
     let why = (if hs_killReason s \<noteq> [] then hs_killReason s else reason);
         s1 = s\<lparr>hs_exited := True, hs_state := StateExited, hs_exitCode := code, hs_exitReason := why,
                hs_detachedCounted := False, hs_vt := False, hs_stdinClosed := True\<rparr>;
         n1 = (if hs_detachedCounted s then n - 1 else n)
     in deliverLocked full (ExitF code why) (s1, n1))"

section \<open>Lemmas\<close>

text \<open>
  The ring against the full history of chunks it was given: it holds a suffix, its size is that
  suffix's, it is within budget unless it holds a single chunk, and the chunk before the suffix
  would not have fitted.
\<close>

definition bytes_of :: "ringChunk list \<Rightarrow> int" where
  "bytes_of cs = (\<Sum>c \<leftarrow> cs. int (length (ch_data c)))"

lemma bytes_of_simps [simp]:
  "bytes_of [] = 0"
  "bytes_of (c # cs) = int (length (ch_data c)) + bytes_of cs"
  "bytes_of (as @ bs) = bytes_of as + bytes_of bs"
  by (simp_all add: bytes_of_def)

definition ring_of :: "ringChunk list \<Rightarrow> ring \<Rightarrow> bool" where
  "ring_of hist r \<longleftrightarrow>
     (\<exists>lost. hist = lost @ rg_chunks r \<and> rg_size r = bytes_of (rg_chunks r) \<and>
        (rg_chunks r = [] \<longrightarrow> hist = []) \<and>
        (rg_size r \<le> rg_max r \<or> length (rg_chunks r) \<le> 1) \<and>
        (lost \<noteq> [] \<longrightarrow> rg_max r < rg_size r + int (length (ch_data (last lost)))))"

lemma evict_spec:
  assumes "evict mx sz cs = (sz', cs')" and "sz = bytes_of cs"
  shows "\<exists>gone. cs = gone @ cs' \<and> sz' = bytes_of cs' \<and> (cs \<noteq> [] \<longrightarrow> cs' \<noteq> []) \<and>
     (sz' \<le> mx \<or> length cs' \<le> 1) \<and>
     (gone \<noteq> [] \<longrightarrow> mx < sz' + int (length (ch_data (last gone))))"
  using assms
proof (induction mx sz cs arbitrary: sz' cs' rule: evict.induct)
  case (1 mx sz)
  then show ?case by simp
next
  case (2 mx sz c)
  then show ?case by auto
next
  case (3 mx sz old c cs)
  show ?case
  proof (cases "sz > mx")
    case True
    then obtain gone where g: "c # cs = gone @ cs'" "sz' = bytes_of cs'" "cs' \<noteq> []"
      "sz' \<le> mx \<or> length cs' \<le> 1" "gone \<noteq> [] \<longrightarrow> mx < sz' + int (length (ch_data (last gone)))"
      using 3 by fastforce
    have "bytes_of (c # cs) = bytes_of gone + sz'" by (simp only: g bytes_of_simps)
    then have "mx < sz' + int (length (ch_data (last (old # gone))))"
      using g 3 True by (cases "gone = []") auto
    with g show ?thesis by (intro exI [of _ "old # gone"]) auto
  next
    case False
    then show ?thesis using 3 by (intro exI [of _ "[]"]) auto
  qed
qed

lemma ring_add_max [simp]: "rg_max (ring_add sq e d r) = rg_max r"
  by (simp add: ring_add_def Let_def split: prod.splits)

lemma ring_of_add:
  assumes "ring_of hist r"
  shows "ring_of (hist @ [\<lparr>ch_seq = sq, ch_stderr = e, ch_data = d\<rparr>]) (ring_add sq e d r)"
proof -
  let ?c = "\<lparr>ch_seq = sq, ch_stderr = e, ch_data = d\<rparr>"
  obtain lost where l: "hist = lost @ rg_chunks r" "rg_size r = bytes_of (rg_chunks r)"
    "lost \<noteq> [] \<longrightarrow> rg_max r < rg_size r + int (length (ch_data (last lost)))"
    using assms by (auto simp: ring_of_def)
  obtain sz cs where ev: "evict (rg_max r) (rg_size r + int (length d)) (rg_chunks r @ [?c]) = (sz, cs)"
    by fastforce
  from evict_spec [OF ev] l(2) obtain gone where g: "rg_chunks r @ [?c] = gone @ cs" "sz = bytes_of cs"
    "cs \<noteq> []" "sz \<le> rg_max r \<or> length cs \<le> 1"
    "gone \<noteq> [] \<longrightarrow> rg_max r < sz + int (length (ch_data (last gone)))"
    by auto
  have "sz = rg_size r + int (length d)" if "gone = []"
    using g that l(2) by (metis append_Nil bytes_of_simps(1,2,3) ringChunk.select_convs(3) add_0_right)
  then have "lost @ gone \<noteq> [] \<longrightarrow> rg_max r < sz + int (length (ch_data (last (lost @ gone))))"
    using g(5) l(3) by (cases "gone = []") auto
  with g l(1) ev show ?thesis
    unfolding ring_of_def ring_add_def by (intro exI [of _ "lost @ gone"]) auto
qed

lemma ring_of_newRing [simp]: "ring_of [] (newRing m)"
  by (simp add: ring_of_def newRing_def defaultRingBytes_def)

text \<open>A history numbered without gaps from 1.\<close>

definition numbered :: "ringChunk list \<Rightarrow> bool" where
  "numbered hist \<longleftrightarrow> map ch_seq hist = [1..<length hist + 1]"

lemma numbered_nth: "numbered hist \<Longrightarrow> i < length hist \<Longrightarrow> ch_seq (hist ! i) = i + 1"
  unfolding numbered_def by (metis add.commute length_map nth_map nth_upt length_upt diff_add_inverse2 less_diff_conv)

lemma numbered_snoc:
  "numbered hist \<Longrightarrow> ch_seq c = length hist + 1 \<Longrightarrow> numbered (hist @ [c])"
  by (simp add: numbered_def)

lemma numbered_dropWhile:
  assumes "numbered hist" and "hist = lost @ cs" and "length lost \<le> after"
  shows "dropWhile (\<lambda>c. ch_seq c \<le> after) cs = drop after hist"
proof -
  have nth: "ch_seq (cs ! i) = length lost + i + 1" if "i < length cs" for i
    using numbered_nth [OF assms(1), of "length lost + i"] that assms(2) by simp
  have "dropWhile (\<lambda>c. ch_seq c \<le> after) cs = drop (after - length lost) cs"
  proof (cases "after - length lost < length cs")
    case True
    let ?k = "after - length lost"
    have "dropWhile (\<lambda>c. ch_seq c \<le> after) (take ?k cs @ drop ?k cs) =
        dropWhile (\<lambda>c. ch_seq c \<le> after) (drop ?k cs)"
      by (rule dropWhile_append2) (use nth assms(3) True in \<open>auto simp: in_set_conv_nth\<close>)
    moreover have "drop ?k cs = cs ! ?k # drop (Suc ?k) cs"
      using True by (simp add: Cons_nth_drop_Suc)
    moreover have "\<not> ch_seq (cs ! ?k) \<le> after" using nth [OF True] assms(3) by simp
    ultimately show ?thesis by (metis append_take_drop_id dropWhile.simps(2))
  next
    case False
    then have "ch_seq c \<le> after" if "c \<in> set cs" for c
      using nth that assms(3) by (auto simp: in_set_conv_nth)
    then show ?thesis using False by simp
  qed
  then show ?thesis using assms(2,3) by simp
qed

text \<open>The session's ring holds a suffix of everything the session ever emitted.\<close>

definition session_of :: "ringChunk list \<Rightarrow> hsession \<Rightarrow> bool" where
  "session_of hist s \<longleftrightarrow>
     numbered hist \<and> hs_seq s = length hist \<and> ring_of hist (hs_ring s)"

lemma deliverLocked_frame [simp]:
  "hs_seq (fst (deliverLocked full m h)) = hs_seq (fst h)"
  "hs_ring (fst (deliverLocked full m h)) = hs_ring (fst h)"
  "hs_input (fst (deliverLocked full m h)) = hs_input (fst h)"
  by (simp_all add: deliverLocked_def markDetachedLocked_def terminate_def Let_def
        split: prod.splits option.splits)

lemma session_of_emit:
  assumes "session_of hist (fst h)"
  shows "session_of (hist @ [\<lparr>ch_seq = length hist + 1, ch_stderr = e, ch_data = d\<rparr>]) (fst (emit e d full h))"
  using assms ring_of_add [of hist "hs_ring (fst h)" "length hist + 1" e d]
  by (auto simp: session_of_def emit_def Let_def split_def intro: numbered_snoc)

lemma deltaFrom_session:
  assumes s: "session_of hist s" and bound: "length hist < 2 ^ 64"
  shows "deltaFrom after (hs_seq s) (hs_ring s) =
     (if length hist - length (rg_chunks (hs_ring s)) \<le> after \<and> after \<le> length hist
      then (drop after hist, True)
      else if after = length hist then ([], True) else ([], False))"
proof -
  obtain lost where l: "hist = lost @ rg_chunks (hs_ring s)" "rg_chunks (hs_ring s) = [] \<longrightarrow> hist = []"
    using s by (auto simp: session_of_def ring_of_def)
  have num: "numbered hist" "hs_seq s = length hist" using s by (simp_all add: session_of_def)
  have hd: "ch_seq (hd (rg_chunks (hs_ring s))) = length lost + 1" if "rg_chunks (hs_ring s) \<noteq> []"
    using numbered_nth [OF num(1), of "length lost"] that l(1) by (simp add: hd_conv_nth nth_append)
  have len: "length hist - length (rg_chunks (hs_ring s)) = length lost" using l(1) by simp
  show ?thesis
  proof (cases "after < length hist")
    case True
    then have "rg_chunks (hs_ring s) \<noteq> []" using l by auto
    moreover from True bound have "(after + 1) mod 2 ^ 64 = after + 1" by simp
    ultimately show ?thesis
      using True num(2) hd numbered_dropWhile [OF num(1) l(1), of after] len
      by (auto simp: deltaFrom_def)
  next
    case False
    then show ?thesis using num(2) by (auto simp: deltaFrom_def)
  qed
qed

section \<open>Properties\<close>

text \<open>
  C36: The scrollback is the longest affordable suffix.  After any sequence of additions the ring
  holds a suffix of everything added, its size field is exactly the bytes held, it is within budget
  unless a single chunk alone exceeds it, the newest chunk is never evicted, and whatever was
  evicted last would not have fitted.
\<close>

theorem ring_keeps_longest_suffix:
  "\<exists>lost. let r = foldl (\<lambda>r c. ring_add (ch_seq c) (ch_stderr c) (ch_data c) r) (newRing m) cs
   in cs = lost @ rg_chunks r \<and> rg_size r = (\<Sum>c \<leftarrow> rg_chunks r. int (length (ch_data c))) \<and>
      (cs = [] \<or> last (rg_chunks r) = last cs) \<and> (rg_chunks r = []) = (cs = []) \<and>
      (rg_size r \<le> rg_max r \<or> length (rg_chunks r) = 1) \<and>
      (lost = [] \<or> rg_max r < rg_size r + int (length (ch_data (last lost))))"
proof -
  let ?r = "foldl (\<lambda>r c. ring_add (ch_seq c) (ch_stderr c) (ch_data c) r) (newRing m) cs"
  have "ring_of cs ?r"
  proof (induction cs rule: rev_induct)
    case Nil
    show ?case by simp
  next
    case (snoc c cs)
    have "\<lparr>ch_seq = ch_seq c, ch_stderr = ch_stderr c, ch_data = ch_data c\<rparr> = c" by (cases c) simp
    with ring_of_add [OF snoc, of "ch_seq c" "ch_stderr c" "ch_data c"] show ?case by simp
  qed
  then obtain lost where l: "cs = lost @ rg_chunks ?r" "rg_size ?r = bytes_of (rg_chunks ?r)"
    "rg_chunks ?r = [] \<longrightarrow> cs = []" "rg_size ?r \<le> rg_max ?r \<or> length (rg_chunks ?r) \<le> 1"
    "lost \<noteq> [] \<longrightarrow> rg_max ?r < rg_size ?r + int (length (ch_data (last lost)))"
    by (auto simp: ring_of_def)
  have mx: "0 < rg_max ?r"
    by (induction cs rule: rev_induct) (auto simp: newRing_def defaultRingBytes_def)
  have "rg_size ?r \<le> rg_max ?r \<or> length (rg_chunks ?r) = 1"
    using l(2,4) mx by (cases "rg_chunks ?r") auto
  moreover have "cs = [] \<or> last (rg_chunks ?r) = last cs"
    using l(1,3) by (metis last_appendR)
  moreover have "rg_chunks ?r = [] \<longleftrightarrow> cs = []" using l(1,3) by auto
  ultimately show ?thesis
    unfolding Let_def bytes_of_def [symmetric] by (intro exI [of _ lost]) (use l in blast)
qed


definition demo_host :: hsession where
  "demo_host = \<lparr>hs_ptyMode = False, hs_detachable = True, hs_state = StateAttached,
     hs_detachedCounted = False, hs_vt = False, hs_ring = newRing 0, hs_seq = 0, hs_lastInputSeq = 0,
     hs_stdinClosed = False, hs_client = None, hs_lagged = False, hs_allowInput = None,
     hs_exited = False, hs_exitCode = 0, hs_exitReason = [], hs_killReason = [], hs_delivered = [],
     hs_input = []\<rparr>"




end
