(* ===== verification/Relay_Rendezvous.thy ===== *)
theory Relay_Rendezvous
  imports Go_Std
begin

text \<open>
  The relay's rendezvous server, \<open>internal/relay/relay.go\<close>: hello validation, the pending and used
  tables, the connection and control-mux accounting, draining, shutdown and the control-mux dial.

  The state is the part of \<open>Relay\<close> guarded by its mutex; each critical section is one operation and
  the operations of concurrent connections interleave freely as events.  A connection is a number.
  The pending table is an association list with distinct tokens, so that \<open>len\<close> computes.  A slot's
  timer and the timer that forgets a used token are events.  Reading the hello off the socket,
  copying bytes, TURN and the funnel listener are not modelled; their handlers are outcomes.
\<close>

section \<open>Hello validation\<close>

record RelayHello =
  h_V :: int
  h_Token :: string
  h_Role :: string
  h_Kind :: string
  h_ControllerID :: string
  h_Host :: string
  h_RegToken :: string

definition RoleInitiator :: string where "RoleInitiator = ''i''"
definition RoleResponder :: string where "RoleResponder = ''r''"
definition RelayKindControl :: string where "RelayKindControl = ''control''"
definition RelayKindFunnelReg :: string where "RelayKindFunnelReg = ''funnel-reg''"
definition RelayKindFunnelData :: string where "RelayKindFunnelData = ''funnel-data''"

lemmas relay_consts =
  RoleInitiator_def RoleResponder_def RelayKindControl_def RelayKindFunnelReg_def
  RelayKindFunnelData_def

definition char_between :: "char \<Rightarrow> char \<Rightarrow> char \<Rightarrow> bool" where
  "char_between lo hi c \<longleftrightarrow> (of_char lo :: nat) \<le> of_char c \<and> (of_char c :: nat) \<le> of_char hi"

definition validControllerID :: "string \<Rightarrow> bool" where
  "validControllerID s =
     (if length s = 0 \<or> length s > 128 then False
      else list_all (\<lambda>c. char_between CHR ''a'' CHR ''z'' c \<or> char_between CHR ''A'' CHR ''Z'' c \<or>
             char_between CHR ''0'' CHR ''9'' c \<or> c = CHR ''-'' \<or> c = CHR ''.'' \<or> c = CHR ''_'') s)"

definition has_prefix :: "string \<Rightarrow> string \<Rightarrow> bool" where
  "has_prefix s pre \<longleftrightarrow> take (length pre) s = pre"

definition tokenMinHex :: nat where "tokenMinHex = 16"
definition tokenMaxHex :: nat where "tokenMaxHex = 64"

text \<open>\<open>None\<close> is acceptance, \<open>Some\<close> the error text.\<close>

definition validateHello :: "RelayHello \<Rightarrow> string option" where
  "validateHello h =
     (if h_V h \<noteq> 1 then Some ''unsupported hello version''
      else if h_Kind h = RelayKindControl then
        (if h_Token h \<noteq> [] \<or> h_Role h \<noteq> [] then Some ''control hello must not carry a token or role''
         else if \<not> validControllerID (h_ControllerID h) then Some ''invalid controller id''
         else None)
      else if h_Kind h = RelayKindFunnelReg then
        (if h_Host h = [] then Some ''funnel registration requires a host''
         else if length (h_Host h) > 253 then Some ''funnel host too long''
         else None)
      else if h_Kind h = RelayKindFunnelData then
        (if \<not> has_prefix (h_Token h) ''fz-'' \<or> length (h_Token h) < 8 \<or> length (h_Token h) > 128
         then Some ''funnel data requires a valid token'' else None)
      else if h_Kind h \<noteq> [] then Some ''unknown hello kind''
      else if h_Role h \<noteq> RoleInitiator \<and> h_Role h \<noteq> RoleResponder then Some ''invalid role''
      else if \<not> has_prefix (h_Token h) ''gz-'' then Some ''invalid token''
      else
        let body = drop 3 (h_Token h) in
        if length body < tokenMinHex \<or> length body > tokenMaxHex then Some ''invalid token length''
        else if \<not> list_all (\<lambda>c. char_between CHR ''0'' CHR ''9'' c \<or> char_between CHR ''a'' CHR ''f'' c) body
        then Some ''invalid token charset''
        else None)"

section \<open>State\<close>

type_synonym conn = nat

record slot =
  sl_conn :: conn
  sl_role :: string

record config =
  cfg_MaxPending :: int
  cfg_MaxControlMux :: int
  cfg_ControlMux :: bool

record relay =
  rl_pending :: "(string \<times> slot) list"
  rl_used :: "string list"
  rl_conns :: "conn list"
  rl_muxConns :: "conn list"
  rl_closed :: bool
  rl_draining :: bool
  rl_gwNodeControl :: "(string \<times> string list) list"

definition New :: relay where
  "New = \<lparr>rl_pending = [], rl_used = [], rl_conns = [], rl_muxConns = [], rl_closed = False,
          rl_draining = False, rl_gwNodeControl = []\<rparr>"

definition del_key :: "'k \<Rightarrow> ('k \<times> 'v) list \<Rightarrow> ('k \<times> 'v) list" where
  "del_key k xs = filter (\<lambda>(k', _). k' \<noteq> k) xs"

section \<open>Operations\<close>

datatype outcome =
    Rejected string
  | Parked
  | Matched conn conn \<comment> \<open>initiator, responder\<close>
  | MuxAdmitted "string list" \<comment> \<open>the signed addresses to dial\<close>
  | FunnelDelegated

text \<open>The admission of the accept loop: \<open>None\<close> is \<open>ErrClosed\<close>, the flag whether the conn is kept.\<close>

definition accept_conn :: "config \<Rightarrow> conn \<Rightarrow> relay \<Rightarrow> (bool \<times> relay) option" where
  "accept_conn cfg c r =
     (if rl_closed r then None
      else
        let maxConns = (if cfg_MaxPending cfg * 16 \<le> 0 then 16384 else cfg_MaxPending cfg * 16) in
        if int (length (rl_conns r)) \<ge> maxConns then Some (False, r)
        else Some (True, r\<lparr>rl_conns := List.insert c (rl_conns r)\<rparr>))"

definition untrack :: "conn \<Rightarrow> relay \<Rightarrow> relay" where
  "untrack c r = r\<lparr>rl_conns := removeAll c (rl_conns r), rl_muxConns := removeAll c (rl_muxConns r)\<rparr>"

definition Drain :: "relay \<Rightarrow> relay" where
  "Drain r = r\<lparr>rl_draining := True\<rparr>"

text \<open>The first critical section of \<open>Shutdown\<close>.\<close>

definition Shutdown :: "relay \<Rightarrow> relay" where
  "Shutdown r = (if rl_closed r then r else r\<lparr>rl_closed := True, rl_pending := []\<rparr>)"

definition setControllerNodeControl :: "(string \<times> string list) list \<Rightarrow> relay \<Rightarrow> relay" where
  "setControllerNodeControl m r = r\<lparr>rl_gwNodeControl := m\<rparr>"

definition nodeControlAddrs :: "string \<Rightarrow> relay \<Rightarrow> string list option" where
  "nodeControlAddrs controllerID r =
     (case map_of (rl_gwNodeControl r) controllerID of
        None \<Rightarrow> None
      | Some a \<Rightarrow> if length a > 0 then Some a else None)"

definition haveSignedControllers :: "relay \<Rightarrow> bool" where
  "haveSignedControllers r \<longleftrightarrow> length (rl_gwNodeControl r) > 0"

text \<open>\<open>handleControlMux\<close> up to the dial, and after it.\<close>

definition handleControlMux :: "config \<Rightarrow> conn \<Rightarrow> string \<Rightarrow> relay \<Rightarrow> outcome \<times> relay" where
  "handleControlMux cfg c controllerID r =
     (if \<not> cfg_ControlMux cfg \<or> \<not> haveSignedControllers r then (Rejected ''control mux unavailable'', r)
      else case nodeControlAddrs controllerID r of
          None \<Rightarrow> (Rejected ''unknown controller'', r)
        | Some addrs \<Rightarrow>
            if rl_closed r then (Rejected ''relay shutting down'', r)
            else if int (length (rl_muxConns r)) \<ge> 2 * cfg_MaxControlMux cfg
            then (Rejected ''relay at control-mux capacity'', r)
            else (MuxAdmitted addrs,
                  r\<lparr>rl_conns := removeAll c (rl_conns r), rl_muxConns := List.insert c (rl_muxConns r)\<rparr>))"

definition mux_dialed :: "conn \<Rightarrow> relay \<Rightarrow> relay" where
  "mux_dialed gw r =
     (if rl_closed r then r else r\<lparr>rl_muxConns := List.insert gw (rl_muxConns r)\<rparr>)"

definition rendezvous :: "config \<Rightarrow> conn \<Rightarrow> RelayHello \<Rightarrow> relay \<Rightarrow> outcome \<times> relay" where
  "rendezvous cfg c hello r =
     (if rl_closed r then (Rejected ''relay shutting down'', r)
      else if h_Token hello \<in> set (rl_used r) then (Rejected ''token already used'', r)
      else case map_of (rl_pending r) (h_Token hello) of
          Some s \<Rightarrow>
            if sl_role s = h_Role hello
            then (Rejected ''endpoint with this role already waiting'', r)
            else
              let (ic, rc) = (if h_Role hello = RoleInitiator then (c, sl_conn s) else (sl_conn s, c))
              in (Matched ic rc,
                  r\<lparr>rl_pending := del_key (h_Token hello) (rl_pending r),
                    rl_used := List.insert (h_Token hello) (rl_used r),
                    rl_conns := List.insert (sl_conn s) (rl_conns r)\<rparr>)
        | None \<Rightarrow>
            if int (length (rl_pending r)) \<ge> cfg_MaxPending cfg then (Rejected ''relay busy'', r)
            else (Parked,
                  r\<lparr>rl_pending := (h_Token hello, \<lparr>sl_conn = c, sl_role = h_Role hello\<rparr>) # rl_pending r\<rparr>))"

text \<open>\<open>handleConn\<close> once the hello frame was read; \<open>None\<close> is a frame that did not decode.\<close>

definition handleConn :: "config \<Rightarrow> conn \<Rightarrow> RelayHello option \<Rightarrow> relay \<Rightarrow> outcome \<times> relay" where
  "handleConn cfg c frame r =
     (case frame of
        None \<Rightarrow> (Rejected ''bad hello'', r)
      | Some hello \<Rightarrow>
          (case validateHello hello of
             Some e \<Rightarrow> (Rejected e, r)
           | None \<Rightarrow>
               if h_Kind hello = RelayKindFunnelData then (FunnelDelegated, r)
               else if rl_draining r then (Rejected ''relay draining'', r)
               else if h_Kind hello = RelayKindControl then handleControlMux cfg c (h_ControllerID hello) r
               else if h_Kind hello = RelayKindFunnelReg then (FunnelDelegated, r)
               else rendezvous cfg c hello r))"

text \<open>\<open>expire\<close> of the slot a connection parked; the pointer comparison is on the connection.\<close>

definition expire :: "string \<Rightarrow> conn \<Rightarrow> relay \<Rightarrow> relay" where
  "expire token c r =
     (case map_of (rl_pending r) token of
        None \<Rightarrow> r
      | Some s \<Rightarrow> if sl_conn s \<noteq> c then r else r\<lparr>rl_pending := del_key token (rl_pending r)\<rparr>)"

definition forget_used :: "string \<Rightarrow> relay \<Rightarrow> relay" where
  "forget_used token r = r\<lparr>rl_used := removeAll token (rl_used r)\<rparr>"

section \<open>The control-mux dial\<close>

text \<open>An address is its bytes, 4 or 16 of them; \<open>to4\<close> unwraps an IPv4-mapped one.\<close>

type_synonym ip = "nat list"

definition to4 :: "ip \<Rightarrow> ip option" where
  "to4 ip =
     (if length ip = 4 then Some ip
      else if length ip = 16 \<and> take 10 ip = replicate 10 0 \<and> ip ! 10 = 255 \<and> ip ! 11 = 255
      then Some (drop 12 ip) else None)"

definition IsLoopback :: "ip \<Rightarrow> bool" where
  "IsLoopback ip = (case to4 ip of Some v \<Rightarrow> v ! 0 = 127 | None \<Rightarrow> ip = replicate 15 0 @ [1])"

definition IsLinkLocalUnicast :: "ip \<Rightarrow> bool" where
  "IsLinkLocalUnicast ip =
     (case to4 ip of
        Some v \<Rightarrow> v ! 0 = 169 \<and> v ! 1 = 254
      | None \<Rightarrow> length ip = 16 \<and> ip ! 0 = 254 \<and> ip ! 1 div 64 = 2)"

definition IsLinkLocalMulticast :: "ip \<Rightarrow> bool" where
  "IsLinkLocalMulticast ip =
     (case to4 ip of
        Some v \<Rightarrow> v ! 0 = 224 \<and> v ! 1 = 0 \<and> v ! 2 = 0
      | None \<Rightarrow> length ip = 16 \<and> ip ! 0 = 255 \<and> ip ! 1 mod 16 = 2)"

definition IsMulticast :: "ip \<Rightarrow> bool" where
  "IsMulticast ip =
     (case to4 ip of
        Some v \<Rightarrow> v ! 0 div 16 = 14
      | None \<Rightarrow> length ip = 16 \<and> ip ! 0 = 255)"

definition IsUnspecified :: "ip \<Rightarrow> bool" where
  "IsUnspecified ip = (case to4 ip of Some v \<Rightarrow> v = [0, 0, 0, 0] | None \<Rightarrow> ip = replicate 16 0)"

definition unsafeIP :: "ip \<Rightarrow> bool" where
  "unsafeIP ip \<longleftrightarrow> IsLoopback ip \<or> IsLinkLocalUnicast ip \<or> IsLinkLocalMulticast ip \<or>
     IsMulticast ip \<or> IsUnspecified ip"

text \<open>The resolver, the literal parser and the printer of addresses are parameters.\<close>

record net_env =
  ParseIP :: "string \<Rightarrow> ip option"
  LookupIP :: "string \<Rightarrow> ip list option"
  IP_String :: "ip \<Rightarrow> string"

datatype dial_error = BadTarget string | ResolveFailed string | UnsafeTarget ip | DialFailed | NoAddresses

definition safeDialTarget :: "net_env \<Rightarrow> string \<Rightarrow> dial_error + ip \<times> string" where
  "safeDialTarget e addr =
     (case SplitHostPort addr of
        None \<Rightarrow> Inl (BadTarget addr)
      | Some (host, port) \<Rightarrow>
          if host = [] then Inl (BadTarget addr)
          else
            bindE
              (case ParseIP e host of
                 None \<Rightarrow>
                   (case LookupIP e host of
                      None \<Rightarrow> Inl (ResolveFailed host)
                    | Some [] \<Rightarrow> Inl (ResolveFailed host)
                    | Some (ip # ips) \<Rightarrow>
                        (case find unsafeIP (ip # ips) of
                           Some bad \<Rightarrow> Inl (UnsafeTarget bad)
                         | None \<Rightarrow> Inr ip))
               | Some ip \<Rightarrow> if unsafeIP ip then Inl (UnsafeTarget ip) else Inr ip)
              (\<lambda>ip. Inr (ip, JoinHostPort (IP_String e ip) port)))"

text \<open>\<open>dial\<close> is the plain TCP dial; the addresses are tried in order.\<close>

definition defaultDial :: "net_env \<Rightarrow> (string \<Rightarrow> bool) \<Rightarrow> string \<Rightarrow> dial_error + ip" where
  "defaultDial e dial addr =
     bindE (safeDialTarget e addr) (\<lambda>(ip, target). if dial target then Inr ip else Inl DialFailed)"

fun dialControllerControl ::
    "net_env \<Rightarrow> (string \<Rightarrow> bool) \<Rightarrow> string list \<Rightarrow> dial_error option \<Rightarrow> dial_error + ip \<times> string" where
  "dialControllerControl e dial [] lastErr =
     Inl (case lastErr of None \<Rightarrow> NoAddresses | Some err \<Rightarrow> err)"
| "dialControllerControl e dial (a # addrs) lastErr =
     (case defaultDial e dial a of
        Inl err \<Rightarrow> dialControllerControl e dial addrs (Some err)
      | Inr ip \<Rightarrow> Inr (ip, a))"

section \<open>Histories\<close>

datatype relay_event =
    RAccept conn
  | RHello conn "RelayHello option"
  | RUntrack conn
  | RForget string
  | RExpire string conn
  | RDrain
  | RShutdown
  | RMuxDialed conn
  | RTable "(string \<times> string list) list"

fun relay_step :: "config \<Rightarrow> relay \<Rightarrow> relay_event \<Rightarrow> relay" where
  "relay_step cfg r (RAccept c) = (case accept_conn cfg c r of None \<Rightarrow> r | Some (_, r') \<Rightarrow> r')"
| "relay_step cfg r (RHello c frame) = snd (handleConn cfg c frame r)"
| "relay_step cfg r (RUntrack c) = untrack c r"
| "relay_step cfg r (RForget t) = forget_used t r"
| "relay_step cfg r (RExpire t c) = expire t c r"
| "relay_step cfg r RDrain = Drain r"
| "relay_step cfg r RShutdown = Shutdown r"
| "relay_step cfg r (RMuxDialed c) = mux_dialed c r"
| "relay_step cfg r (RTable m) = setControllerNodeControl m r"

section \<open>Lemmas\<close>

lemma set_del_key [simp]: "set (del_key k xs) = {x \<in> set xs. fst x \<noteq> k}"
  by (auto simp: del_key_def)

lemma distinct_del_key: "distinct (map fst xs) \<Longrightarrow> distinct (map fst (del_key k xs))"
  by (simp add: del_key_def distinct_map_filter)

lemma length_del_key: "length (del_key k xs) \<le> length xs"
  by (simp add: del_key_def)

lemma del_key_Nil [simp]: "del_key k [] = []"
  by (simp add: del_key_def)

lemma del_key_absent: "k \<notin> fst ` set (del_key k xs)"
  by auto

text \<open>
  The table invariant: one slot per token, no waiting token is also marked used, every waiter has
  one of the two roles, the pending table respects its cap, and a closed relay has no waiters.
\<close>

definition relay_ok :: "config \<Rightarrow> relay \<Rightarrow> bool" where
  "relay_ok cfg r \<longleftrightarrow>
     distinct (map fst (rl_pending r)) \<and>
     fst ` set (rl_pending r) \<inter> set (rl_used r) = {} \<and>
     (\<forall>(t, s) \<in> set (rl_pending r). sl_role s = RoleInitiator \<or> sl_role s = RoleResponder) \<and>
     int (length (rl_pending r)) \<le> max 0 (cfg_MaxPending cfg) \<and>
     (rl_closed r \<longrightarrow> rl_pending r = [])"

lemma relay_ok_cong:
  "rl_pending r' = rl_pending r \<Longrightarrow> rl_used r' = rl_used r \<Longrightarrow> rl_closed r' = rl_closed r \<Longrightarrow>
   relay_ok cfg r' = relay_ok cfg r"
  by (simp add: relay_ok_def)

lemma relay_ok_del:
  assumes "relay_ok cfg r"
  shows "relay_ok cfg (r\<lparr>rl_pending := del_key k (rl_pending r)\<rparr>)"
proof -
  have "int (length (del_key k (rl_pending r))) \<le> max 0 (cfg_MaxPending cfg)"
    using assms length_del_key [of k "rl_pending r"] unfolding relay_ok_def by linarith
  then show ?thesis
    using assms distinct_del_key [of "rl_pending r" k] by (auto simp: relay_ok_def)
qed

lemma relay_ok_rendezvous:
  assumes ok: "relay_ok cfg r"
    and role: "h_Role hello = RoleInitiator \<or> h_Role hello = RoleResponder"
  shows "relay_ok cfg (snd (rendezvous cfg c hello r))"
proof (cases "rl_closed r \<or> h_Token hello \<in> set (rl_used r)")
  case True
  then show ?thesis using ok by (auto simp: rendezvous_def)
next
  case open_: False
  show ?thesis
  proof (cases "map_of (rl_pending r) (h_Token hello)")
    case None
    then have "h_Token hello \<notin> fst ` set (rl_pending r)" by (simp add: map_of_eq_None_iff)
    then show ?thesis
      using ok open_ None role by (auto simp: rendezvous_def relay_ok_def)
  next
    case (Some s)
    let ?r1 = "r\<lparr>rl_pending := del_key (h_Token hello) (rl_pending r)\<rparr>"
    have "relay_ok cfg ?r1" using ok by (rule relay_ok_del)
    then have "relay_ok cfg (?r1\<lparr>rl_used := List.insert (h_Token hello) (rl_used r),
        rl_conns := List.insert (sl_conn s) (rl_conns r)\<rparr>)"
      using del_key_absent [of "h_Token hello" "rl_pending r"] by (auto simp: relay_ok_def)
    then show ?thesis using open_ Some ok by (auto simp: rendezvous_def Let_def)
  qed
qed

lemma validateHello_rendezvous:
  assumes "validateHello h = None" and "h_Kind h = []"
  shows "h_Role h = RoleInitiator \<or> h_Role h = RoleResponder"
  using assms by (auto simp: validateHello_def relay_consts Let_def split: if_splits)

lemma validateHello_kinds:
  "validateHello h = None \<Longrightarrow>
   h_Kind h = RelayKindControl \<or> h_Kind h = RelayKindFunnelReg \<or> h_Kind h = RelayKindFunnelData \<or> h_Kind h = []"
  by (auto simp: validateHello_def split: if_splits)

lemma handleControlMux_tables [simp]:
  "rl_pending (snd (handleControlMux cfg c g r)) = rl_pending r"
  "rl_used (snd (handleControlMux cfg c g r)) = rl_used r"
  "rl_closed (snd (handleControlMux cfg c g r)) = rl_closed r"
  by (simp_all add: handleControlMux_def split: option.splits)

lemma relay_ok_handleConn:
  assumes ok: "relay_ok cfg r"
  shows "relay_ok cfg (snd (handleConn cfg c frame r))"
proof (cases frame)
  case None
  then show ?thesis using ok by (simp add: handleConn_def)
next
  case (Some hello)
  have "relay_ok cfg (snd (handleControlMux cfg c (h_ControllerID hello) r))"
    using ok relay_ok_cong [of "snd (handleControlMux cfg c (h_ControllerID hello) r)" r cfg] by simp
  moreover have "relay_ok cfg (snd (rendezvous cfg c hello r))"
    if "validateHello hello = None" "h_Kind hello = []"
    using relay_ok_rendezvous [OF ok] validateHello_rendezvous [OF that] by blast
  ultimately show ?thesis
    using Some ok validateHello_kinds [of hello]
    by (auto simp: handleConn_def split: option.splits)
qed

lemma relay_step_ok: "relay_ok cfg r \<Longrightarrow> relay_ok cfg (relay_step cfg r ev)"
proof (cases ev)
  case (RHello c frame)
  then show "relay_ok cfg r \<Longrightarrow> ?thesis" by (simp add: relay_ok_handleConn)
next
  case (RExpire t c)
  then show "relay_ok cfg r \<Longrightarrow> ?thesis"
    by (simp add: expire_def relay_ok_del split: option.splits)
next
  case (RForget t)
  then show "relay_ok cfg r \<Longrightarrow> ?thesis" by (auto simp: forget_used_def relay_ok_def)
next
  case (RAccept c)
  then show "relay_ok cfg r \<Longrightarrow> ?thesis"
    by (auto simp: accept_conn_def Let_def relay_ok_def split: option.splits)
next
  case RShutdown
  then show "relay_ok cfg r \<Longrightarrow> ?thesis" by (auto simp: Shutdown_def relay_ok_def)
qed (auto simp: untrack_def Drain_def mux_dialed_def setControllerNodeControl_def relay_ok_def)

interpretation relay_tables: step_system "relay_step cfg" "relay_ok cfg" for cfg
  by unfold_locales (rule relay_step_ok)

text \<open>A used token stays used, and out of the pending table, until it is forgotten.\<close>

definition token_spent :: "string \<Rightarrow> relay \<Rightarrow> bool" where
  "token_spent t r \<longleftrightarrow> t \<in> set (rl_used r) \<and> t \<notin> fst ` set (rl_pending r)"

lemma token_spent_step:
  assumes "token_spent t r" and "ev \<noteq> RForget t"
  shows "token_spent t (relay_step cfg r ev)"
proof (cases ev)
  case (RHello c frame)
  have "token_spent t (snd (rendezvous cfg c hello r))" for hello
    using assms(1) by (auto simp: rendezvous_def token_spent_def Let_def split: option.splits)
  moreover have "token_spent t (snd (handleControlMux cfg c g r))" for g
    using assms(1) by (simp add: token_spent_def)
  ultimately show ?thesis
    using RHello assms(1) by (auto simp: handleConn_def split: option.splits)
next
  case (RExpire u c)
  then show ?thesis using assms(1) by (auto simp: expire_def token_spent_def split: option.splits)
next
  case (RAccept c)
  then show ?thesis
    using assms(1) by (auto simp: accept_conn_def Let_def token_spent_def split: option.splits)
qed (use assms in \<open>auto simp: untrack_def Drain_def mux_dialed_def setControllerNodeControl_def
       forget_used_def Shutdown_def token_spent_def\<close>)

lemma token_spent_run:
  "token_spent t r \<Longrightarrow> RForget t \<notin> set evs \<Longrightarrow> token_spent t (foldl (relay_step cfg) r evs)"
  by (induction evs arbitrary: r) (auto simp: token_spent_step)

lemma spent_rejected:
  assumes "token_spent (h_Token h) r" and "h_Kind h = []"
  shows "\<exists>msg. handleConn cfg c (Some h) r = (Rejected msg, r)"
  using assms
  by (auto simp: handleConn_def rendezvous_def token_spent_def relay_consts split: option.splits)

lemma safeDialTarget_safe:
  assumes "safeDialTarget e addr = Inr (ip, target)"
  shows "\<not> unsafeIP ip \<and> (\<exists>host port. SplitHostPort addr = Some (host, port) \<and> host \<noteq> [] \<and>
     target = JoinHostPort (IP_String e ip) port \<and>
     (ParseIP e host = Some ip \<or>
      (\<exists>ips. ParseIP e host = None \<and> LookupIP e host = Some (ip # ips) \<and> (\<forall>x \<in> set (ip # ips). \<not> unsafeIP x))))"
  using assms
  by (auto simp: safeDialTarget_def bindE_eq_Inr find_None_iff split: option.splits list.splits if_splits)

lemma dialControllerControl_Inr:
  "dialControllerControl e dial addrs lastErr = Inr (ip, a) \<Longrightarrow> a \<in> set addrs \<and> defaultDial e dial a = Inr ip"
  by (induction addrs arbitrary: lastErr) (auto split: sum.splits)

text \<open>Admissions and dials of control muxes, as the lists they build.\<close>

definition mux_hello :: RelayHello where
  "mux_hello = \<lparr>h_V = 1, h_Token = [], h_Role = [], h_Kind = RelayKindControl, h_ControllerID = ''gw'',
                h_Host = [], h_RegToken = []\<rparr>"

definition mux_relay :: relay where
  "mux_relay = New\<lparr>rl_gwNodeControl := [(''gw'', [''a:1''])]\<rparr>"

lemma mux_hello_valid: "validateHello mux_hello = None"
  by (simp add: mux_hello_def validateHello_def relay_consts validControllerID_def char_between_def)

lemma mux_admissions:
  assumes "cfg_ControlMux cfg" and "int n \<le> 2 * cfg_MaxControlMux cfg"
  shows "foldl (relay_step cfg) mux_relay (map (\<lambda>i. RHello i (Some mux_hello)) [0..<n]) =
     mux_relay\<lparr>rl_muxConns := rev [0..<n]\<rparr>"
  using assms(2)
proof (induction n)
  case 0
  show ?case by (simp add: mux_relay_def New_def)
next
  case (Suc n)
  let ?r = "mux_relay\<lparr>rl_muxConns := rev [0..<n]\<rparr>"
  have "handleConn cfg n (Some mux_hello) ?r = handleControlMux cfg n ''gw'' ?r"
    by (simp add: handleConn_def mux_hello_valid) (simp add: mux_hello_def mux_relay_def New_def relay_consts)
  moreover have "snd (handleControlMux cfg n ''gw'' ?r) = mux_relay\<lparr>rl_muxConns := rev [0..<Suc n]\<rparr>"
    using assms(1) Suc.prems
    by (simp add: handleControlMux_def mux_relay_def New_def haveSignedControllers_def nodeControlAddrs_def)
  ultimately show ?case using Suc by simp
qed

lemma mux_dials:
  "\<not> rl_closed r \<Longrightarrow> (\<And>c. c \<in> set cs \<Longrightarrow> c \<notin> set (rl_muxConns r)) \<Longrightarrow> distinct cs \<Longrightarrow>
   rl_muxConns (foldl (relay_step cfg) r (map RMuxDialed cs)) = rev cs @ rl_muxConns r"
proof (induction cs arbitrary: r)
  case Nil
  show ?case by simp
next
  case (Cons c cs)
  have "mux_dialed c r = r\<lparr>rl_muxConns := c # rl_muxConns r\<rparr>"
    using Cons.prems by (simp add: mux_dialed_def)
  then show ?case using Cons.IH [of "mux_dialed c r"] Cons.prems by auto
qed

section \<open>Properties\<close>


text \<open>
  C34: Matching.  A hello is matched only with a waiter that presented the same token in the opposite
  role, the initiator leg being the one that presented the initiator role; and the token is
  single-use: as long as its used-mark has not been forgotten, whatever else happens in between,
  every further rendezvous hello with it is refused and leaves the relay unchanged.
\<close>

theorem match_pairs_opposite_roles_once:
  assumes ok: "relay_ok cfg r"
    and m: "handleConn cfg c (Some h) r = (Matched ic rc, r1)"
    and nf: "RForget (h_Token h) \<notin> set evs"
    and h': "h_Token h' = h_Token h" "h_Kind h' = []"
  shows "(\<exists>s. map_of (rl_pending r) (h_Token h) = Some s \<and>
            (h_Role h = RoleInitiator \<and> sl_role s = RoleResponder \<and> ic = c \<and> rc = sl_conn s \<or>
             h_Role h = RoleResponder \<and> sl_role s = RoleInitiator \<and> ic = sl_conn s \<and> rc = c)) \<and>
         (\<exists>msg. handleConn cfg c' (Some h') (foldl (relay_step cfg) r1 evs) =
            (Rejected msg, foldl (relay_step cfg) r1 evs))"
proof -
  have v: "validateHello h = None" "h_Kind h = []" and rz: "rendezvous cfg c h r = (Matched ic rc, r1)"
    using m validateHello_kinds [of h]
    by (auto simp: handleConn_def handleControlMux_def split: option.splits if_splits)
  note role = validateHello_rendezvous [OF v]
  obtain s where s: "map_of (rl_pending r) (h_Token h) = Some s" "sl_role s \<noteq> h_Role h"
    using rz by (auto simp: rendezvous_def split: if_splits option.splits)
  have srole: "sl_role s = RoleInitiator \<or> sl_role s = RoleResponder"
    using ok map_of_SomeD [OF s(1)] by (auto simp: relay_ok_def)
  have ne: "RoleInitiator \<noteq> RoleResponder" by (simp add: relay_consts)
  have spent: "token_spent (h_Token h) r1"
    using rz s by (auto simp: rendezvous_def token_spent_def Let_def split: if_splits option.splits)
  have "\<exists>msg. handleConn cfg c' (Some h') (foldl (relay_step cfg) r1 evs) =
      (Rejected msg, foldl (relay_step cfg) r1 evs)"
    using spent_rejected [of h' "foldl (relay_step cfg) r1 evs"] token_spent_run [OF spent nf] h' by metis
  moreover have "h_Role h = RoleInitiator \<and> sl_role s = RoleResponder \<and> ic = c \<and> rc = sl_conn s \<or>
      h_Role h = RoleResponder \<and> sl_role s = RoleInitiator \<and> ic = sl_conn s \<and> rc = c"
    using rz s role srole ne by (auto simp: rendezvous_def Let_def split: if_splits option.splits)
  ultimately show ?thesis using s(1) by blast
qed

definition demo_hello :: "string \<Rightarrow> RelayHello" where
  "demo_hello role = \<lparr>h_V = 1, h_Token = ''gz-0123456789abcdef'', h_Role = role, h_Kind = [],
     h_ControllerID = [], h_Host = [], h_RegToken = []\<rparr>"

definition demo_cfg :: config where
  "demo_cfg = \<lparr>cfg_MaxPending = 4, cfg_MaxControlMux = 1, cfg_ControlMux = True\<rparr>"

lemma demo_hello_valid: "validateHello (demo_hello ''i'') = None" "validateHello (demo_hello ''r'') = None"
  by (simp_all add: demo_hello_def validateHello_def relay_consts has_prefix_def tokenMinHex_def
        tokenMaxHex_def char_between_def)

theorem match_pairs_opposite_roles_once_witness:
  "\<exists>msg. fst (handleConn demo_cfg 3 (Some (demo_hello ''r''))
      (foldl (relay_step demo_cfg) New [RHello 1 (Some (demo_hello ''i'')), RHello 2 (Some (demo_hello ''r''))])) =
      Rejected msg"
proof -
  let ?r = "foldl (relay_step demo_cfg) New [RHello 1 (Some (demo_hello ''i''))]"
  let ?r1 = "snd (handleConn demo_cfg 2 (Some (demo_hello ''r'')) ?r)"
  have ok: "relay_ok demo_cfg ?r"
    by (rule relay_tables.run_inv) (simp add: relay_ok_def New_def)
  have m: "handleConn demo_cfg 2 (Some (demo_hello ''r'')) ?r = (Matched 1 2, ?r1)"
    by (simp add: handleConn_def demo_hello_valid)
      (simp add: demo_hello_def New_def rendezvous_def demo_cfg_def relay_consts)
  have "\<exists>msg. handleConn demo_cfg 3 (Some (demo_hello ''r'')) (foldl (relay_step demo_cfg) ?r1 []) =
      (Rejected msg, foldl (relay_step demo_cfg) ?r1 [])"
    by (rule match_pairs_opposite_roles_once [OF ok m, THEN conjunct2]) (simp_all add: demo_hello_def)
  then show ?thesis by auto
qed

text \<open>
  Draining.  A draining relay refuses every new rendezvous, control mux and funnel registration
  and changes nothing, so its in-flight work is untouched; only a funnel data leg, which completes a
  request already in flight, is let through.  Draining is never undone.
\<close>

theorem draining_refuses_new_work:
  assumes "rl_draining r"
  shows "((\<exists>msg. handleConn cfg c (Some h) r = (Rejected msg, r)) \<or>
           (h_Kind h = RelayKindFunnelData \<and> handleConn cfg c (Some h) r = (FunnelDelegated, r))) \<and>
         rl_draining (relay_step cfg r ev)"
proof
  show "(\<exists>msg. handleConn cfg c (Some h) r = (Rejected msg, r)) \<or>
           (h_Kind h = RelayKindFunnelData \<and> handleConn cfg c (Some h) r = (FunnelDelegated, r))"
    using assms by (simp add: handleConn_def split: option.splits)
  show "rl_draining (relay_step cfg r ev)"
    using assms
    by (cases ev)
      (auto simp: accept_conn_def Let_def handleConn_def rendezvous_def handleControlMux_def untrack_def
         forget_used_def expire_def Drain_def Shutdown_def mux_dialed_def setControllerNodeControl_def
         split: option.splits)
qed

theorem draining_refuses_new_work_witness:
  "fst (handleConn demo_cfg 1 (Some (demo_hello ''i'')) (Drain New)) = Rejected ''relay draining'' \<and>
   rl_draining (relay_step demo_cfg (Drain New) (RHello 1 (Some (demo_hello ''i''))))"
proof
  have d: "rl_draining (Drain New)" by (simp add: Drain_def)
  show "rl_draining (relay_step demo_cfg (Drain New) (RHello 1 (Some (demo_hello ''i''))))"
    using draining_refuses_new_work [OF d] by blast
  show "fst (handleConn demo_cfg 1 (Some (demo_hello ''i'')) (Drain New)) = Rejected ''relay draining''"
    by (simp add: handleConn_def demo_hello_valid) (simp add: demo_hello_def Drain_def relay_consts)
qed

text \<open>
  The control-mux cap admits twice the intended legs.  The cap is checked when the agent leg is
  admitted but not when the controller leg is added after the dial, so with concurrent admissions a
  relay configured for \<open>m\<close> control muxes reaches \<open>4 * m\<close> legs, that is \<open>2 * m\<close> muxes, from a state
  with none.
\<close>

theorem mux_cap_overshoots:
  assumes "cfg_ControlMux cfg" and "cfg_MaxControlMux cfg = int m"
  shows "length (rl_muxConns (foldl (relay_step cfg) mux_relay
     (map (\<lambda>i. RHello i (Some mux_hello)) [0..<2 * m] @ map RMuxDialed [2 * m..<4 * m]))) = 4 * m"
proof -
  let ?r = "mux_relay\<lparr>rl_muxConns := rev [0..<2 * m]\<rparr>"
  have "foldl (relay_step cfg) mux_relay (map (\<lambda>i. RHello i (Some mux_hello)) [0..<2 * m]) = ?r"
    using assms by (intro mux_admissions) simp_all
  moreover have "rl_muxConns (foldl (relay_step cfg) ?r (map RMuxDialed [2 * m..<4 * m])) =
      rev [2 * m..<4 * m] @ rl_muxConns ?r"
    by (rule mux_dials) (auto simp: mux_relay_def New_def)
  ultimately show ?thesis by simp
qed

theorem mux_cap_overshoots_witness:
  "length (rl_muxConns (foldl (relay_step demo_cfg) mux_relay
     (map (\<lambda>i. RHello i (Some mux_hello)) [0..<2 * 1] @ map RMuxDialed [2 * 1..<4 * 1]))) = 4 * 1"
  by (rule mux_cap_overshoots) (simp_all add: demo_cfg_def)

text \<open>
  A control mux dials only safe addresses from the signed table.  When the dial loop succeeds,
  the address is one of the signed ones and the socket goes to a literal IP that is neither
  loopback, link-local, multicast nor unspecified; for a name, every address it resolved to is safe
  and the first is the one dialled.
\<close>

theorem control_mux_dials_safe_targets:
  assumes "dialControllerControl e dial addrs None = Inr (ip, a)"
  shows "a \<in> set addrs \<and> \<not> unsafeIP ip \<and>
     (\<exists>host port. SplitHostPort a = Some (host, port) \<and> dial (JoinHostPort (IP_String e ip) port) \<and>
        (ParseIP e host = Some ip \<or>
         (\<exists>ips. LookupIP e host = Some (ip # ips) \<and> (\<forall>x \<in> set (ip # ips). \<not> unsafeIP x))))"
proof -
  from dialControllerControl_Inr [OF assms] have a: "a \<in> set addrs" and d: "defaultDial e dial a = Inr ip"
    by auto
  from d obtain target where "safeDialTarget e a = Inr (ip, target)" "dial target"
    by (auto simp: defaultDial_def bindE_eq_Inr split: if_splits)
  with a safeDialTarget_safe [of e a ip target] show ?thesis by auto
qed

theorem control_mux_dials_safe_targets_witness:
  "\<not> unsafeIP [10, 0, 0, 1] \<and>
   dialControllerControl \<lparr>ParseIP = (\<lambda>h. if h = ''lo'' then Some [127, 0, 0, 1] else Some [10, 0, 0, 1]),
     LookupIP = (\<lambda>_. None), IP_String = (\<lambda>_. ''x'')\<rparr> (\<lambda>_. True) [''lo:1'', ''ok:1''] None =
     Inr ([10, 0, 0, 1], ''ok:1'')"
proof -
  let ?e = "\<lparr>ParseIP = (\<lambda>h. if h = ''lo'' then Some [127, 0, 0, 1] else Some [10, 0, 0, 1]),
     LookupIP = (\<lambda>_. None), IP_String = (\<lambda>_. ''x'')\<rparr>"
  have "SplitHostPort ''lo:1'' = Some (''lo'', ''1'')" "SplitHostPort ''ok:1'' = Some (''ok'', ''1'')"
    by (simp_all add: SplitHostPort_def last_index_byte_def split_rest_def)
  then have d: "dialControllerControl ?e (\<lambda>_. True) [''lo:1'', ''ok:1''] None = Inr ([10, 0, 0, 1], ''ok:1'')"
    by (simp add: defaultDial_def safeDialTarget_def unsafeIP_def IsLoopback_def IsLinkLocalUnicast_def
          IsLinkLocalMulticast_def IsMulticast_def IsUnspecified_def to4_def)
  with control_mux_dials_safe_targets [OF d] show ?thesis by blast
qed

end
