(* ===== verification/Updater.thy ===== *)
theory Updater
  imports Trust_Docs
begin

text \<open>
  The self-updater: \<open>internal/update\<close> (persisted state, installer, health gate, pruning) and the
  desired-state loop of \<open>cmd/geneza-bootstrap\<close>.  A poll carries everything the loop observes of its
  surroundings: the answer of the controller, the clock, what a download returns, which file-system
  operations succeed, and what the health gate sees each time round.  The versions directory maps a
  version to the binary in its directory, if there is one.  The worker and the session host are
  represented by the version they were started from.

  Not modelled: the HTTP client, the drain handshake before a swap (it delays the swap and changes
  no state of the loop), and the restart-with-backoff loop of the process supervisor.
\<close>

section \<open>State\<close>

record updState =
  us_Current :: string
  us_Previous :: string
  us_Bad :: "string list"
  us_FloorUnix :: int
  us_RootKeysVersion :: int

definition RaiseFloor :: "int \<Rightarrow> updState \<Rightarrow> updState" where
  "RaiseFloor createdUnix s =
     (if createdUnix > us_FloorUnix s then s\<lparr>us_FloorUnix := createdUnix\<rparr> else s)"

definition RaiseRootKeysVersion :: "int \<Rightarrow> updState \<Rightarrow> bool \<times> updState" where
  "RaiseRootKeysVersion v s =
     (if v > us_RootKeysVersion s then (True, s\<lparr>us_RootKeysVersion := v\<rparr>) else (False, s))"

definition IsBad :: "updState \<Rightarrow> string \<Rightarrow> bool" where
  "IsBad s v \<longleftrightarrow> v \<in> set (us_Bad s)"

definition MarkBad :: "string \<Rightarrow> updState \<Rightarrow> updState" where
  "MarkBad v s = (if \<not> IsBad s v then s\<lparr>us_Bad := us_Bad s @ [v]\<rparr> else s)"

definition ResetBadOnChange :: "string \<Rightarrow> string \<Rightarrow> updState \<Rightarrow> bool \<times> updState" where
  "ResetBadOnChange desired lastDesired s =
     (if lastDesired = [] \<or> desired = lastDesired \<or> length (us_Bad s) = 0 then (False, s)
      else (True, s\<lparr>us_Bad := []\<rparr>))"

section \<open>Installer\<close>

record Installer =
  in_Client :: bool
  in_Pub :: bytes
  in_Trusted :: "keyset option" \<comment> \<open>\<open>None\<close>: no root-anchored set; a derived set is never empty\<close>
  in_Product :: string
  in_OS :: string
  in_Arch :: string
  in_MinCreatedAt :: gotime

datatype inst_error =
    NoClient | NoArtifactKeys | ManifestSig env_error | WrongProduct | WrongPlatform
  | BadVersion | Downgrade | BadSHA256 | BadSize | FsFailed | DownloadFailed
  | DownloadSize int | BlobRejected doc_error

definition version_char :: "nat \<Rightarrow> char \<Rightarrow> bool" where
  "version_char i r \<longleftrightarrow>
     (CHR ''a'' \<le> r \<and> r \<le> CHR ''z'') \<or> (CHR ''A'' \<le> r \<and> r \<le> CHR ''Z'') \<or>
     (CHR ''0'' \<le> r \<and> r \<le> CHR ''9'') \<or>
     (i > 0 \<and> (r = CHR ''.'' \<or> r = CHR ''_'' \<or> r = CHR ''+'' \<or> r = CHR ''-''))"

definition validVersion :: "string \<Rightarrow> bool" where
  "validVersion v =
     (if v = [] \<or> length v > 100 then False
      else list_all (\<lambda>(i, r). version_char i r) (enumerate 0 v))"

definition fromHexChar :: "char \<Rightarrow> nat option" where
  "fromHexChar ch =
     (if CHR ''0'' \<le> ch \<and> ch \<le> CHR ''9'' then Some (of_char ch - 48)
      else if CHR ''a'' \<le> ch \<and> ch \<le> CHR ''f'' then Some (of_char ch - 87)
      else if CHR ''A'' \<le> ch \<and> ch \<le> CHR ''F'' then Some (of_char ch - 55)
      else None)"

fun hex_DecodeString :: "string \<Rightarrow> bytes option" where
  "hex_DecodeString [] = Some []"
| "hex_DecodeString [ch] = None"
| "hex_DecodeString (h # l # s) =
     (case (fromHexChar h, fromHexChar l) of
        (Some a, Some b) \<Rightarrow> map_option (Cons (char_of (a * 16 + b))) (hex_DecodeString s)
      | _ \<Rightarrow> None)"

definition validSHA256 :: "string \<Rightarrow> bool" where
  "validSHA256 s =
     (if length s \<noteq> 64 then False
      else case hex_DecodeString s of None \<Rightarrow> False | Some b \<Rightarrow> hex_EncodeToString b = s)"

definition KeyIDFor :: "crypto \<Rightarrow> bytes \<Rightarrow> string" where
  "KeyIDFor c pub = hex_EncodeToString (take 8 (sha256_Sum256 c pub))"

text \<open>The trust set of an install, and every check made before anything is written.\<close>

definition install_trust :: "crypto \<Rightarrow> Installer \<Rightarrow> inst_error + keyset" where
  "install_trust c ins =
     (case in_Trusted ins of
        Some trusted \<Rightarrow> Inr trusted
      | None \<Rightarrow>
          if length (in_Pub ins) \<noteq> PublicKeySize then Inl NoArtifactKeys
          else Inr [KeyIDFor c (in_Pub ins) \<mapsto> in_Pub ins])"

definition check_manifest ::
    "crypto \<Rightarrow> (bytes \<Rightarrow> Manifest option) \<Rightarrow> Installer \<Rightarrow> Signed option \<Rightarrow> inst_error + Manifest" where
  "check_manifest c um ins sm =
     bindE (checkE (in_Client ins) NoClient) (\<lambda>_.
     bindE (install_trust c ins) (\<lambda>trusted.
     bindE (mapE ManifestSig (Verify c trusted ContextManifest sm (Some um))) (\<lambda>(_, p).
     let m = the p in
     bindE (checkE (mf_Product m = in_Product ins) WrongProduct) (\<lambda>_.
     bindE (checkE (mf_OS m = in_OS ins \<and> mf_Arch m = in_Arch ins) WrongPlatform) (\<lambda>_.
     bindE (checkE (validVersion (mf_Version m)) BadVersion) (\<lambda>_.
     bindE (checkE (\<not> (in_MinCreatedAt ins \<noteq> 0 \<and> mf_CreatedAt m < in_MinCreatedAt ins)) Downgrade) (\<lambda>_.
     bindE (checkE (validSHA256 (mf_SHA256 m)) BadSHA256) (\<lambda>_.
     bindE (checkE (\<not> mf_Size m \<le> 0) BadSize) (\<lambda>_.
     Inr m)))))))))"

text \<open>
  The versions directory.  \<open>mkdir\<close> is \<open>os.MkdirAll\<close> of the directory of a version, \<open>put_binary\<close>
  the rename onto its final path.
\<close>

type_synonym versions = "(string \<times> bytes option) list"

definition mkdir :: "string \<Rightarrow> versions \<Rightarrow> versions" where
  "mkdir v vd = (case map_of vd v of None \<Rightarrow> (v, None) # vd | Some _ \<Rightarrow> vd)"

definition put_binary :: "string \<Rightarrow> bytes \<Rightarrow> versions \<Rightarrow> versions" where
  "put_binary v blob vd = (v, Some blob) # filter (\<lambda>(n, _). n \<noteq> v) vd"

record install_env =
  ie_fetch :: "string \<Rightarrow> bytes option" \<comment> \<open>the body served for a path, if the request succeeds\<close>
  ie_mkdir :: bool
  ie_store :: bool
  ie_reopen :: bool
  ie_chmod :: bool
  ie_rename :: bool

definition download :: "install_env \<Rightarrow> Manifest \<Rightarrow> inst_error + bytes" where
  "download env m =
     (case ie_fetch env (BlobPath m) of
        None \<Rightarrow> Inl DownloadFailed
      | Some body \<Rightarrow>
          bindE (checkE (ie_store env) FsFailed) (\<lambda>_.
          let tmp = take (nat (mf_Size m + 1)) body in
          bindE (checkE (int (length tmp) = mf_Size m) (DownloadSize (int (length tmp)))) (\<lambda>_.
          Inr tmp)))"

definition Install ::
    "crypto \<Rightarrow> (bytes \<Rightarrow> Manifest option) \<Rightarrow> install_env \<Rightarrow> Installer \<Rightarrow> Signed option \<Rightarrow> versions
       \<Rightarrow> (inst_error + Manifest) \<times> versions" where
  "Install c um env ins sm vd =
     (case check_manifest c um ins sm of
        Inl e \<Rightarrow> (Inl e, vd)
      | Inr m \<Rightarrow>
          if \<not> ie_mkdir env then (Inl FsFailed, vd)
          else
            let vd1 = mkdir (mf_Version m) vd in
            (case bindE (download env m) (\<lambda>tmp.
                  bindE (checkE (ie_reopen env) FsFailed) (\<lambda>_.
                  bindE (mapE BlobRejected (VerifyBlob c m tmp)) (\<lambda>_.
                  bindE (checkE (ie_chmod env \<and> ie_rename env) FsFailed) (\<lambda>_.
                  Inr tmp)))) of
               Inl e \<Rightarrow> (Inl e, vd1)
             | Inr tmp \<Rightarrow> (Inr m, put_binary (mf_Version m) tmp vd1)))"

definition Prune :: "(string \<Rightarrow> bool) \<Rightarrow> string list \<Rightarrow> versions \<Rightarrow> versions" where
  "Prune removable keep vd =
     filter (\<lambda>(n, _). if n \<noteq> [] \<and> n \<in> set keep then True else \<not> removable n) vd"

section \<open>Health gate\<close>

text \<open>
  One time round the loop: the modification time of the health file if it exists, the clock, and
  whether the context is done.  With no observation left the gate has not returned yet.
\<close>

datatype gate = GateOk | GateTimeout | GateCancelled

type_synonym gate_obs = "gotime option \<times> gotime \<times> bool"

fun healthGate :: "gotime \<Rightarrow> duration \<Rightarrow> gate_obs list \<Rightarrow> gate option" where
  "healthGate since timeout [] = None"
| "healthGate since timeout ((mtime, now, cancelled) # obs) =
     (if (case mtime of None \<Rightarrow> False | Some t \<Rightarrow> \<not> t < since) then Some GateOk
      else if now > since + timeout then Some GateTimeout
      else if cancelled then Some GateCancelled
      else healthGate since timeout obs)"

section \<open>Desired-state loop\<close>

record DesiredVersionResponse =
  dv_Version :: string
  dv_SignedManifest :: "Signed option"
  dv_SignedRootKeys :: "Signed option"

record poll =
  p_desired :: "(DesiredVersionResponse option) option" \<comment> \<open>\<open>None\<close>: the request failed\<close>
  p_now :: gotime
  p_env :: install_env
  p_save :: "nat \<Rightarrow> bool" \<comment> \<open>whether the save at each of the loop's sites succeeds\<close>
  p_gateStart :: gotime
  p_gate :: "gate_obs list"
  p_ctxErr :: bool \<comment> \<open>the context is done when the gate has failed\<close>
  p_removable :: "string \<Rightarrow> bool"

record bootstrap =
  b_st :: updState
  b_disk :: updState \<comment> \<open>the state file\<close>
  b_current :: string
  b_lastDesired :: string
  b_rootTrusted :: "keyset option"
  b_installer :: Installer
  b_healthTimeout :: duration
  b_versions :: versions
  b_worker :: string \<comment> \<open>the version the worker was started from\<close>
  b_sessionHost :: "string option"

definition productAgent :: string where "productAgent = ''geneza-agent''"
definition productRelay :: string where "productRelay = ''geneza-relay''"

definition saveState :: "bool \<Rightarrow> bootstrap \<Rightarrow> bootstrap" where
  "saveState ok b = (if ok then b\<lparr>b_disk := b_st b\<rparr> else b)"

definition floorTime :: "bootstrap \<Rightarrow> gotime" where
  "floorTime b = (if us_FloorUnix (b_st b) \<le> 0 then 0 else time_Unix (us_FloorUnix (b_st b)))"

datatype trust_error = NoRootKeys | RootKeysErr doc_error

definition establishTrust ::
    "crypto \<Rightarrow> (bytes \<Rightarrow> RootKeys option) \<Rightarrow> gotime \<Rightarrow> bool \<Rightarrow> DesiredVersionResponse \<Rightarrow> bootstrap
       \<Rightarrow> trust_error + bootstrap" where
  "establishTrust c ur now save d b =
     (case b_rootTrusted b of
        None \<Rightarrow> Inr b
      | Some rootTrusted \<Rightarrow>
          if dv_SignedRootKeys d = None then Inl NoRootKeys
          else
            bindE (mapE RootKeysErr
              (VerifyRootKeys c ur rootTrusted (dv_SignedRootKeys d) (us_RootKeysVersion (b_st b)) now)) (\<lambda>rk.
            bindE (mapE RootKeysErr (SigningKeys rk)) (\<lambda>signers.
            let (raised, st') = RaiseRootKeysVersion (rk_Version rk) (b_st b);
                b' = b\<lparr>b_installer := (b_installer b)\<lparr>in_Trusted := Some signers\<rparr>, b_st := st'\<rparr>
            in Inr (if raised then saveState save b' else b'))))"

text \<open>
  \<open>swapWorker\<close>.  While the gate has not returned the new worker runs and nothing is recorded.
\<close>

definition reconcileSessionHost :: "bootstrap \<Rightarrow> bootstrap" where
  "reconcileSessionHost b =
     (if in_Product (b_installer b) \<noteq> productAgent \<or> b_sessionHost b = None then b
      else b\<lparr>b_sessionHost := Some (b_current b)\<rparr>)"

definition swap_commit :: "poll \<Rightarrow> string \<Rightarrow> int \<Rightarrow> bootstrap \<Rightarrow> bootstrap" where
  "swap_commit p newVersion createdUnix b =
     (let oldVersion = b_current b;
          st' = RaiseFloor createdUnix
                  ((b_st b)\<lparr>us_Previous := oldVersion, us_Current := newVersion, us_Bad := []\<rparr>);
          b1 = saveState (p_save p 2) (b\<lparr>b_current := newVersion, b_st := st'\<rparr>);
          b2 = b1\<lparr>b_versions := Prune (p_removable p) [newVersion, oldVersion] (b_versions b1)\<rparr>
      in reconcileSessionHost b2)"

definition swap_rollback :: "poll \<Rightarrow> string \<Rightarrow> bootstrap \<Rightarrow> bootstrap" where
  "swap_rollback p newVersion b =
     (saveState (p_save p 2) (b\<lparr>b_st := MarkBad newVersion (b_st b)\<rparr>))\<lparr>b_worker := b_current b\<rparr>"

definition swapWorker :: "poll \<Rightarrow> string \<Rightarrow> int \<Rightarrow> bootstrap \<Rightarrow> bootstrap" where
  "swapWorker p newVersion createdUnix b =
     (let b1 = b\<lparr>b_worker := newVersion\<rparr> in
      case healthGate (p_gateStart p) (b_healthTimeout b) (p_gate p) of
        None \<Rightarrow> b1
      | Some GateOk \<Rightarrow> swap_commit p newVersion createdUnix b1
      | Some GateCancelled \<Rightarrow> b1
      | Some GateTimeout \<Rightarrow> if p_ctxErr p then b1 else swap_rollback p newVersion b1)"

definition observe_desired :: "poll \<Rightarrow> DesiredVersionResponse \<Rightarrow> bootstrap \<Rightarrow> bootstrap" where
  "observe_desired p d b =
     (let (reset, st') = ResetBadOnChange (dv_Version d) (b_lastDesired b) (b_st b);
          b' = b\<lparr>b_st := st'\<rparr>
      in (if reset then saveState (p_save p 0) b' else b')\<lparr>b_lastDesired := dv_Version d\<rparr>)"

definition install_desired ::
    "crypto \<Rightarrow> (bytes \<Rightarrow> RootKeys option) \<Rightarrow> (bytes \<Rightarrow> Manifest option) \<Rightarrow> poll
       \<Rightarrow> DesiredVersionResponse \<Rightarrow> bootstrap \<Rightarrow> Manifest option \<times> bootstrap" where
  "install_desired c ur um p d b =
     (case establishTrust c ur (p_now p) (p_save p 1) d b of
        Inl _ \<Rightarrow> (None, b)
      | Inr b1 \<Rightarrow>
          let ins = (b_installer b1)\<lparr>in_MinCreatedAt := floorTime b1\<rparr>;
              (r, vd) = Install c um (p_env p) ins (dv_SignedManifest d) (b_versions b1);
              b2 = b1\<lparr>b_installer := ins, b_versions := vd\<rparr>
          in (case r of Inl _ \<Rightarrow> None | Inr m \<Rightarrow> Some m, b2))"

definition reconcile ::
    "crypto \<Rightarrow> (bytes \<Rightarrow> RootKeys option) \<Rightarrow> (bytes \<Rightarrow> Manifest option) \<Rightarrow> bootstrap \<Rightarrow> poll \<Rightarrow> bootstrap" where
  "reconcile c ur um b p =
     (case p_desired p of
        None \<Rightarrow> b
      | Some None \<Rightarrow> b
      | Some (Some d) \<Rightarrow>
          let b1 = observe_desired p d b in
          if dv_Version d = b_current b1 then b1
          else if IsBad (b_st b1) (dv_Version d) then b1
          else if dv_SignedManifest d = None then b1
          else
            (case install_desired c ur um p d b1 of
               (None, b2) \<Rightarrow> b2
             | (Some m, b2) \<Rightarrow>
                 if mf_Version m \<noteq> dv_Version d then b2
                 else swapWorker p (mf_Version m) (Time_Unix (mf_CreatedAt m)) b2))"

text \<open>\<open>resolveCurrent\<close>: the version to run at start, with the polls of a first install.\<close>

definition binary_of :: "versions \<Rightarrow> string \<Rightarrow> bytes option" where
  "binary_of vd v = (case map_of vd v of Some bin \<Rightarrow> bin | None \<Rightarrow> None)"

definition adoptSeeded :: "versions \<Rightarrow> string option" where
  "adoptSeeded vd =
     (let found = map fst (filter (\<lambda>(_, bin). bin \<noteq> None) vd)
      in if length found = 1 then Some (found ! 0) else None)"

fun first_install ::
    "crypto \<Rightarrow> (bytes \<Rightarrow> RootKeys option) \<Rightarrow> (bytes \<Rightarrow> Manifest option) \<Rightarrow> poll list \<Rightarrow> bootstrap
       \<Rightarrow> bool \<times> bootstrap" where
  "first_install c ur um [] b = (False, b)"
| "first_install c ur um (p # ps) b =
     (let (r, b1) = (case p_desired p of
                       Some (Some d) \<Rightarrow>
                         if dv_SignedManifest d = None then (None, b) else install_desired c ur um p d b
                     | _ \<Rightarrow> (None, b))
      in case r of
           Some m \<Rightarrow>
             (True, saveState (p_save p 2)
                (b1\<lparr>b_current := mf_Version m,
                    b_st := RaiseFloor (Time_Unix (mf_CreatedAt m)) ((b_st b1)\<lparr>us_Current := mf_Version m\<rparr>)\<rparr>))
         | None \<Rightarrow> if p_ctxErr p then (False, b1) else first_install c ur um ps b1)"

definition resolveCurrent ::
    "crypto \<Rightarrow> (bytes \<Rightarrow> RootKeys option) \<Rightarrow> (bytes \<Rightarrow> Manifest option) \<Rightarrow> bool \<Rightarrow> poll list \<Rightarrow> bootstrap
       \<Rightarrow> bool \<times> bootstrap" where
  "resolveCurrent c ur um save ps b =
     (if us_Current (b_st b) \<noteq> [] \<and> binary_of (b_versions b) (us_Current (b_st b)) \<noteq> None
      then (True, b\<lparr>b_current := us_Current (b_st b)\<rparr>)
      else case adoptSeeded (b_versions b) of
             Some v \<Rightarrow>
               (True, saveState save (b\<lparr>b_current := v, b_st := (b_st b)\<lparr>us_Current := v\<rparr>\<rparr>))
           | None \<Rightarrow> first_install c ur um ps b)"

text \<open>
  The life of a bootstrap process: polls, and restarts that read the state file and resolve the
  version to run.  A process that cannot resolve one exits.
\<close>

datatype boot_event = Poll poll | Restart bool "poll list"

definition restart ::
    "crypto \<Rightarrow> (bytes \<Rightarrow> RootKeys option) \<Rightarrow> (bytes \<Rightarrow> Manifest option) \<Rightarrow> bool \<Rightarrow> poll list \<Rightarrow> bootstrap
       \<Rightarrow> bootstrap" where
  "restart c ur um save ps b =
     (let b0 = b\<lparr>b_st := b_disk b, b_lastDesired := [], b_current := [],
                 b_installer := (b_installer b)\<lparr>in_Trusted := None, in_MinCreatedAt := 0\<rparr>\<rparr>;
          (ok, b1) = resolveCurrent c ur um save ps b0
      in if ok
         then b1\<lparr>b_worker := b_current b1,
                 b_sessionHost := (if in_Product (b_installer b1) = productAgent then Some (b_current b1) else None)\<rparr>
         else b1)"

fun boot_step ::
    "crypto \<Rightarrow> (bytes \<Rightarrow> RootKeys option) \<Rightarrow> (bytes \<Rightarrow> Manifest option) \<Rightarrow> bootstrap \<Rightarrow> boot_event \<Rightarrow> bootstrap" where
  "boot_step c ur um b (Poll p) = reconcile c ur um b p"
| "boot_step c ur um b (Restart save ps) = restart c ur um save ps b"


section \<open>Lemmas\<close>

lemma install_trust_Some [simp]: "in_Trusted ins = Some K \<Longrightarrow> install_trust c ins = Inr K"
  by (simp add: install_trust_def)

lemma install_trust_floor [simp]: "install_trust c (ins\<lparr>in_MinCreatedAt := x\<rparr>) = install_trust c ins"
  by (simp add: install_trust_def split: option.split)

lemma check_manifest_Inr:
  "check_manifest c um ins sm = Inr m \<longleftrightarrow>
     (\<exists>trusted k. in_Client ins \<and> install_trust c ins = Inr trusted \<and>
        Verify c trusted ContextManifest sm (Some um) = Inr (k, Some m)) \<and>
     mf_Product m = in_Product ins \<and> mf_OS m = in_OS ins \<and> mf_Arch m = in_Arch ins \<and>
     validVersion (mf_Version m) \<and>
     (in_MinCreatedAt ins = 0 \<or> in_MinCreatedAt ins \<le> mf_CreatedAt m) \<and>
     validSHA256 (mf_SHA256 m) \<and> 0 < mf_Size m"
proof -
  have ex: "Verify c T ContextManifest sm (Some um) = Inr (k, v) \<Longrightarrow> v = Some (the v)" for T k v
    by (auto simp: Verify_accepts_iff)
  show ?thesis
    unfolding check_manifest_def bindE_eq_Inr mapE_eq_Inr checkE_eq_Inr ex_unit case_prod_unfold Let_def
    by (auto simp: not_less not_le dest: ex)
qed

lemma download_Inr: "download env m = Inr blob \<Longrightarrow> ie_fetch env (BlobPath m) = Some blob"
  by (auto simp: download_def Let_def errE min_def split: option.splits if_splits)

lemma Install_Inr:
  assumes "Install c um env ins sm vd = (Inr m, vd')"
  obtains blob where "check_manifest c um ins sm = Inr m" "ie_fetch env (BlobPath m) = Some blob"
    "VerifyBlob c m blob = Inr ()" "vd' = put_binary (mf_Version m) blob (mkdir (mf_Version m) vd)"
  using assms download_Inr
  by (auto simp: Install_def Let_def errE split: sum.splits if_splits)

lemma map_of_others: "map_of (filter (\<lambda>(n, _). n \<noteq> v) vd) w = (if w = v then None else map_of vd w)"
  by (induction vd) auto

lemma binary_of_put [simp]:
  "binary_of (put_binary v blob vd) w = (if w = v then Some blob else binary_of vd w)"
  by (simp add: binary_of_def put_binary_def map_of_others)

lemma binary_of_mkdir [simp]: "binary_of (mkdir v vd) w = binary_of vd w"
  by (auto simp: binary_of_def mkdir_def split: option.splits)

lemma Install_Inl: "Install c um env ins sm vd = (Inl e, vd') \<Longrightarrow> binary_of vd' w = binary_of vd w"
  by (auto simp: Install_def Let_def split: sum.splits if_splits)

lemma binary_of_Prune [simp]: "v \<in> set keep \<Longrightarrow> v \<noteq> [] \<Longrightarrow> binary_of (Prune rm keep vd) v = binary_of vd v"
  by (induction vd) (auto simp: binary_of_def Prune_def)


text \<open>What establishing trust leaves alone, and what it sets in root-anchored mode.\<close>

lemma saveState_simps [simp]:
  "b_st (saveState ok b) = b_st b" "b_current (saveState ok b) = b_current b"
  "b_installer (saveState ok b) = b_installer b" "b_versions (saveState ok b) = b_versions b"
  "b_worker (saveState ok b) = b_worker b" "b_lastDesired (saveState ok b) = b_lastDesired b"
  "b_healthTimeout (saveState ok b) = b_healthTimeout b" "b_rootTrusted (saveState ok b) = b_rootTrusted b"
  "b_sessionHost (saveState ok b) = b_sessionHost b"
  "b_disk (saveState ok b) = (if ok then b_st b else b_disk b)"
  by (simp_all add: saveState_def)

lemma establishTrust_frame:
  assumes "establishTrust c ur now save d b = Inr b'"
  shows "b_versions b' = b_versions b \<and> b_current b' = b_current b \<and> b_worker b' = b_worker b \<and>
     b_healthTimeout b' = b_healthTimeout b \<and> us_FloorUnix (b_st b') = us_FloorUnix (b_st b) \<and>
     us_Bad (b_st b') = us_Bad (b_st b) \<and> b_sessionHost b' = b_sessionHost b \<and>
     in_Product (b_installer b') = in_Product (b_installer b) \<and>
     in_OS (b_installer b') = in_OS (b_installer b) \<and> in_Arch (b_installer b') = in_Arch (b_installer b)"
  using assms
  by (auto simp: establishTrust_def RaiseRootKeysVersion_def errE split: option.splits if_splits)

lemma establishTrust_rooted:
  assumes "establishTrust c ur now save d b = Inr b'" and "b_rootTrusted b = Some K"
  obtains rk signers where
    "VerifyRootKeys c ur K (dv_SignedRootKeys d) (us_RootKeysVersion (b_st b)) now = Inr rk"
    "SigningKeys rk = Inr signers" "in_Trusted (b_installer b') = Some signers"
  using assms
  by (auto simp: establishTrust_def RaiseRootKeysVersion_def Let_def errE split: if_splits)

lemma install_desired_Some:
  assumes "install_desired c ur um p d b = (Some m, b2)"
  obtains b1 where "establishTrust c ur (p_now p) (p_save p 1) d b = Inr b1"
    "Install c um (p_env p) ((b_installer b1)\<lparr>in_MinCreatedAt := floorTime b1\<rparr>) (dv_SignedManifest d)
       (b_versions b1) = (Inr m, b_versions b2)"
    "b2 = b1\<lparr>b_installer := (b_installer b1)\<lparr>in_MinCreatedAt := floorTime b1\<rparr>, b_versions := b_versions b2\<rparr>"
  using assms
  by (auto simp: install_desired_def Let_def split: sum.splits prod.splits)

lemma observe_desired_simps [simp]:
  "b_current (observe_desired p d b) = b_current b" "b_worker (observe_desired p d b) = b_worker b"
  "b_versions (observe_desired p d b) = b_versions b" "b_rootTrusted (observe_desired p d b) = b_rootTrusted b"
  "b_installer (observe_desired p d b) = b_installer b"
  "b_healthTimeout (observe_desired p d b) = b_healthTimeout b"
  "b_sessionHost (observe_desired p d b) = b_sessionHost b"
  "us_FloorUnix (b_st (observe_desired p d b)) = us_FloorUnix (b_st b)"
  "us_RootKeysVersion (b_st (observe_desired p d b)) = us_RootKeysVersion (b_st b)"
  "b_lastDesired (observe_desired p d b) = dv_Version d"
  by (simp_all add: observe_desired_def ResetBadOnChange_def Let_def)


subsection \<open>The floors\<close>

text \<open>The floors on disk are at least the given ones, and the floors in force at least those on disk.\<close>

definition floors_ok :: "int \<Rightarrow> int \<Rightarrow> bootstrap \<Rightarrow> bool" where
  "floors_ok F R b \<longleftrightarrow>
     F \<le> us_FloorUnix (b_disk b) \<and> us_FloorUnix (b_disk b) \<le> us_FloorUnix (b_st b) \<and>
     R \<le> us_RootKeysVersion (b_disk b) \<and> us_RootKeysVersion (b_disk b) \<le> us_RootKeysVersion (b_st b)"

lemma RaiseFloor_ge:
  "us_FloorUnix s \<le> us_FloorUnix (RaiseFloor t s)"
  "us_RootKeysVersion (RaiseFloor t s) = us_RootKeysVersion s"
  by (simp_all add: RaiseFloor_def)

lemma MarkBad_floors [simp]:
  "us_FloorUnix (MarkBad v s) = us_FloorUnix s" "us_RootKeysVersion (MarkBad v s) = us_RootKeysVersion s"
  by (simp_all add: MarkBad_def)

lemma floors_saveState:
  "floors_ok F R b \<Longrightarrow> us_FloorUnix (b_st b) \<le> us_FloorUnix st' \<Longrightarrow>
   us_RootKeysVersion (b_st b) \<le> us_RootKeysVersion st' \<Longrightarrow>
   b_st b' = st' \<Longrightarrow> b_disk b' = b_disk b \<Longrightarrow> floors_ok F R (saveState ok b')"
  by (auto simp: floors_ok_def)

lemma floors_observe: "floors_ok F R b \<Longrightarrow> floors_ok F R (observe_desired p d b)"
  by (auto simp: floors_ok_def observe_desired_def ResetBadOnChange_def Let_def)

lemma floors_establishTrust:
  "establishTrust c ur now save d b = Inr b' \<Longrightarrow> floors_ok F R b \<Longrightarrow> floors_ok F R b'"
  by (auto simp: establishTrust_def RaiseRootKeysVersion_def floors_ok_def errE split: option.splits if_splits)

lemma floors_install_desired:
  "floors_ok F R b \<Longrightarrow> floors_ok F R (snd (install_desired c ur um p d b))"
  using floors_establishTrust [of c ur "p_now p" "p_save p 1" d b]
  by (auto simp: install_desired_def Let_def floors_ok_def split: sum.splits prod.splits)

lemma floors_swapWorker: "floors_ok F R b \<Longrightarrow> floors_ok F R (swapWorker p v t b)"
proof -
  assume f: "floors_ok F R b"
  define b1 where "b1 = b\<lparr>b_worker := v\<rparr>"
  have 1: "floors_ok F R b1" using f by (simp add: floors_ok_def b1_def)
  have "floors_ok F R (swap_rollback p v b1)"
    using 1 by (auto simp: swap_rollback_def floors_ok_def)
  moreover have "floors_ok F R (swap_commit p v t b1)"
    using 1 by (auto simp: swap_commit_def reconcileSessionHost_def floors_ok_def Let_def RaiseFloor_def)
  ultimately show ?thesis
    using 1 by (simp add: swapWorker_def b1_def [symmetric] split: option.splits gate.splits)
qed

lemma floors_reconcile: "floors_ok F R b \<Longrightarrow> floors_ok F R (reconcile c ur um b p)"
  using floors_observe [of F R b p] floors_install_desired [of F R _ c ur um p] floors_swapWorker
  by (auto simp: reconcile_def Let_def split: option.splits prod.splits) (metis snd_conv)+

lemma floors_first_install: "floors_ok F R b \<Longrightarrow> floors_ok F R (snd (first_install c ur um ps b))"
proof (induction ps arbitrary: b)
  case Nil
  then show ?case by simp
next
  case (Cons p ps)
  define rb where "rb = (case p_desired p of
      Some (Some d) \<Rightarrow> if dv_SignedManifest d = None then (None, b) else install_desired c ur um p d b
    | _ \<Rightarrow> (None, b))"
  obtain r b1 where rb: "rb = (r, b1)" by (cases rb)
  have f: "floors_ok F R b1"
    using Cons.prems rb floors_install_desired [OF Cons.prems, of c ur um p]
    by (auto simp: rb_def split: option.splits if_splits) (metis snd_conv)
  have save: "floors_ok F R (saveState ok (b1\<lparr>b_current := v, b_st := RaiseFloor t ((b_st b1)\<lparr>us_Current := v\<rparr>)\<rparr>))"
    for ok v t
    using f by (auto simp: floors_ok_def RaiseFloor_def)
  show ?case
    using f save Cons.IH [OF f] by (simp add: rb_def [symmetric] rb split: option.splits)
qed

lemma floors_restart: "floors_ok F R b \<Longrightarrow> floors_ok F R (restart c ur um save ps b)"
proof -
  assume f: "floors_ok F R b"
  define b0 where "b0 = b\<lparr>b_st := b_disk b, b_lastDesired := [], b_current := [],
                 b_installer := (b_installer b)\<lparr>in_Trusted := None, in_MinCreatedAt := 0\<rparr>\<rparr>"
  have 0: "floors_ok F R b0" using f by (simp add: floors_ok_def b0_def)
  have 1: "floors_ok F R (snd (resolveCurrent c ur um save ps b0))"
    using 0 floors_first_install [OF 0, of c ur um ps]
    by (auto simp: resolveCurrent_def floors_ok_def split: option.splits)
  obtain ok b1 where r: "resolveCurrent c ur um save ps b0 = (ok, b1)" by fastforce
  show ?thesis using 1 by (simp add: restart_def b0_def [symmetric] r floors_ok_def)
qed

interpretation boot: step_system "boot_step c ur um" "floors_ok F R" for c ur um F R
proof unfold_locales
  fix b e
  assume "floors_ok F R b"
  then show "floors_ok F R (boot_step c ur um b e)"
    by (cases e) (simp_all add: floors_reconcile floors_restart)
qed


subsection \<open>Commits\<close>

lemma swapWorker_current:
  assumes "b_current (swapWorker p v t b) \<noteq> b_current b"
  shows "healthGate (p_gateStart p) (b_healthTimeout b) (p_gate p) = Some GateOk \<and>
     swapWorker p v t b = swap_commit p v t (b\<lparr>b_worker := v\<rparr>)"
  using assms
  by (auto simp: swapWorker_def swap_rollback_def Let_def split: option.splits gate.splits if_splits)

lemma install_desired_frame:
  "install_desired c ur um p d b = (r, b2) \<Longrightarrow>
     b_current b2 = b_current b \<and> b_worker b2 = b_worker b \<and> b_healthTimeout b2 = b_healthTimeout b"
  using establishTrust_frame [of c ur "p_now p" "p_save p 1" d b]
  by (auto simp: install_desired_def Let_def split: sum.splits prod.splits)

lemma reconcile_commit:
  assumes "b_current (reconcile c ur um b p) \<noteq> b_current b"
  obtains d m b2 where "p_desired p = Some (Some d)" "\<not> IsBad (b_st (observe_desired p d b)) (dv_Version d)"
    "install_desired c ur um p d (observe_desired p d b) = (Some m, b2)" "mf_Version m = dv_Version d"
    "healthGate (p_gateStart p) (b_healthTimeout b) (p_gate p) = Some GateOk"
    "reconcile c ur um b p =
       swap_commit p (mf_Version m) (Time_Unix (mf_CreatedAt m)) (b2\<lparr>b_worker := mf_Version m\<rparr>)"
proof -
  obtain d where d: "p_desired p = Some (Some d)"
    using assms by (auto simp: reconcile_def split: option.splits)
  define b1 where "b1 = observe_desired p d b"
  obtain r b2 where i: "install_desired c ur um p d b1 = (r, b2)" by fastforce
  note fr = install_desired_frame [OF i]
  have ne: "dv_Version d \<noteq> b_current b1" "\<not> IsBad (b_st b1) (dv_Version d)" "dv_SignedManifest d \<noteq> None"
    using assms by (auto simp: reconcile_def d Let_def b1_def split: if_splits)
  have rec: "reconcile c ur um b p = (case r of None \<Rightarrow> b2 | Some m \<Rightarrow>
      if mf_Version m \<noteq> dv_Version d then b2
      else swapWorker p (mf_Version m) (Time_Unix (mf_CreatedAt m)) b2)"
    using ne by (auto simp: reconcile_def d Let_def b1_def [symmetric] i split: option.splits)
  obtain m where m: "r = Some m" and v: "mf_Version m = dv_Version d"
    using assms fr rec by (auto simp: b1_def split: option.splits if_splits)
  have "b_current (swapWorker p (mf_Version m) (Time_Unix (mf_CreatedAt m)) b2) \<noteq> b_current b2"
    using assms fr rec m v by (simp add: b1_def)
  from swapWorker_current [OF this] show thesis
    using that [of d m b2] d ne(2) i m v fr rec by (simp add: b1_def)
qed

lemma swap_commit_simps [simp]:
  "b_current (swap_commit p v t b) = v"
  "b_versions (swap_commit p v t b) = Prune (p_removable p) [v, b_current b] (b_versions b)"
  "b_worker (swap_commit p v t b) = b_worker b"
  "b_st (swap_commit p v t b) =
     RaiseFloor t ((b_st b)\<lparr>us_Previous := b_current b, us_Current := v, us_Bad := []\<rparr>)"
  by (simp_all add: swap_commit_def reconcileSessionHost_def Let_def)

subsection \<open>Versions that failed\<close>

lemma reconcile_bad_idle:
  assumes bad: "v \<in> set (us_Bad (b_st b))" and last: "b_lastDesired b \<in> {[], v}"
    and want: "\<And>d. p_desired p = Some (Some d) \<Longrightarrow> dv_Version d = v"
  shows "b_st (reconcile c ur um b p) = b_st b \<and> b_lastDesired (reconcile c ur um b p) \<in> {[], v} \<and>
     b_versions (reconcile c ur um b p) = b_versions b \<and> b_current (reconcile c ur um b p) = b_current b \<and>
     b_worker (reconcile c ur um b p) = b_worker b \<and> b_disk (reconcile c ur um b p) = b_disk b"
proof -
  have "ResetBadOnChange v (b_lastDesired b) (b_st b) = (False, b_st b)"
    using last by (auto simp: ResetBadOnChange_def)
  then have "p_desired p = Some (Some d) \<Longrightarrow> observe_desired p d b = b\<lparr>b_lastDesired := v\<rparr>" for d
    using want by (simp add: observe_desired_def Let_def)
  then show ?thesis
    using want bad last by (auto simp: reconcile_def Let_def IsBad_def split: option.splits)
qed


lemma healthGate_returns:
  "list_ex (\<lambda>(_, now, _). now > since + timeout) obs \<Longrightarrow> healthGate since timeout obs \<noteq> None"
  by (induction obs) (auto split: option.splits)

lemma time_Unix_le_Time_Unix: "time_Unix s \<le> t \<longleftrightarrow> s \<le> Time_Unix t"
  by (simp add: time_Unix_def Time_Unix_def second_def unix_offset_def) linarith

subsection \<open>Hexadecimal digests\<close>

lemma fromHexChar_digit: "n < 16 \<Longrightarrow> fromHexChar (hex_digit n) = Some n"
  by (auto simp: fromHexChar_def hex_digit_def less_eq_char_def)

lemma hex_Decode_Encode: "hex_DecodeString (hex_EncodeToString bs) = Some bs"
proof (induction bs)
  case Nil
  show ?case by (simp add: hex_EncodeToString_def)
next
  case (Cons b bs)
  have "(of_char b :: nat) < 256" by simp
  then have "(of_char b :: nat) div 16 < 16" by linarith
  with Cons show ?case by (simp add: hex_EncodeToString_def fromHexChar_digit)
qed

lemma validSHA256_hex: "length bs = 32 \<Longrightarrow> validSHA256 (hex_EncodeToString bs)"
  by (simp add: validSHA256_def hex_Decode_Encode)

section \<open>A concrete fleet\<close>

text \<open>One pinned root, one signing key, and a build whose digest the hash function yields.\<close>

definition upd_key :: bytes where "upd_key = replicate 32 CHR ''k''"

definition upd_crypto :: crypto where
  "upd_crypto = \<lparr>ed25519_Verify = \<lambda>_ _ _. True, sha256_Sum256 = \<lambda>_. upd_key\<rparr>"

definition upd_env :: Signed where
  "upd_env = \<lparr>s_Payload = [], s_Sig = replicate 64 CHR ''s'', s_KeyID = ''k''\<rparr>"

definition upd_manifest :: "string \<Rightarrow> Manifest" where
  "upd_manifest v = \<lparr>mf_Product = productAgent, mf_Version = v, mf_OS = ''linux'', mf_Arch = ''amd64'',
     mf_SHA256 = hex_EncodeToString upd_key, mf_Size = 1, mf_CreatedAt = time_Unix 20\<rparr>"

definition upd_roots :: RootKeys where
  "upd_roots = \<lparr>rk_Version = 3, rk_Keys = [\<lparr>ak_KeyID = ''k'', ak_PublicKey = upd_key\<rparr>], rk_ExpiresAt = 0\<rparr>"

definition upd_state :: updState where
  "upd_state = \<lparr>us_Current = ''a1'', us_Previous = [], us_Bad = [], us_FloorUnix = 10, us_RootKeysVersion = 2\<rparr>"

definition upd_boot :: bootstrap where
  "upd_boot = \<lparr>b_st = upd_state, b_disk = upd_state, b_current = ''a1'', b_lastDesired = [],
     b_rootTrusted = Some [''k'' \<mapsto> upd_key],
     b_installer = \<lparr>in_Client = True, in_Pub = [], in_Trusted = None, in_Product = productAgent,
       in_OS = ''linux'', in_Arch = ''amd64'', in_MinCreatedAt = 0\<rparr>,
     b_healthTimeout = 60 * second, b_versions = [(''a1'', Some ''o'')], b_worker = ''a1'',
     b_sessionHost = Some ''a1''\<rparr>"

definition upd_poll :: "gate_obs list \<Rightarrow> poll" where
  "upd_poll obs = \<lparr>p_desired = Some (Some \<lparr>dv_Version = ''a2'', dv_SignedManifest = Some upd_env,
       dv_SignedRootKeys = Some upd_env\<rparr>),
     p_now = 0,
     p_env = \<lparr>ie_fetch = \<lambda>_. Some ''n'', ie_mkdir = True, ie_store = True, ie_reopen = True,
       ie_chmod = True, ie_rename = True\<rparr>,
     p_save = \<lambda>_. True, p_gateStart = 0, p_gate = obs, p_ctxErr = False, p_removable = \<lambda>_. True\<rparr>"

lemmas upd_defs = upd_crypto_def upd_env_def upd_manifest_def upd_roots_def upd_state_def upd_boot_def
  upd_poll_def

lemma upd_views:
  "p_desired (upd_poll obs) = Some (Some \<lparr>dv_Version = ''a2'', dv_SignedManifest = Some upd_env,
       dv_SignedRootKeys = Some upd_env\<rparr>)"
  "ie_fetch (p_env (upd_poll obs)) x = Some ''n''" "p_now (upd_poll obs) = 0"
  "b_current upd_boot = ''a1''" "b_worker upd_boot = ''a1''" "b_lastDesired upd_boot = []"
  "b_st upd_boot = upd_state" "b_versions upd_boot = [(''a1'', Some ''o'')]" "us_Bad upd_state = []"
  "mf_Version (upd_manifest v) = v"
  by (simp_all add: upd_defs)

lemma upd_key_length [simp]: "length upd_key = 32"
  by (simp add: upd_key_def)

lemma upd_sig: "sig_valid upd_crypto [''k'' \<mapsto> upd_key] input ''k'' (s_Sig upd_env)"
  by (simp add: sig_valid_def upd_crypto_def upd_env_def)

lemma upd_trust:
  "establishTrust upd_crypto (\<lambda>_. Some upd_roots) 0 True
      \<lparr>dv_Version = v, dv_SignedManifest = sm, dv_SignedRootKeys = Some upd_env\<rparr>
      (upd_boot\<lparr>b_lastDesired := x\<rparr>) =
    Inr (upd_boot\<lparr>b_lastDesired := x, b_st := upd_state\<lparr>us_RootKeysVersion := 3\<rparr>, b_disk := upd_state\<lparr>us_RootKeysVersion := 3\<rparr>,
       b_installer := (b_installer upd_boot)\<lparr>in_Trusted := Some [''k'' \<mapsto> upd_key]\<rparr>\<rparr>)"
proof -
  have rk: "VerifyRootKeys upd_crypto (\<lambda>_. Some upd_roots) [''k'' \<mapsto> upd_key] (Some upd_env) 2 0 = Inr upd_roots"
    using upd_sig by (simp add: VerifyRootKeys_accepts_iff) (simp add: upd_roots_def upd_env_def)
  have sk: "SigningKeys upd_roots = Inr [''k'' \<mapsto> upd_key]"
    by (simp add: SigningKeys_def keys_to_map_nonempty_def upd_roots_def)
  have st: "us_RootKeysVersion (b_st upd_boot) = 2" "b_rootTrusted upd_boot = Some [''k'' \<mapsto> upd_key]"
    by (simp_all add: upd_boot_def upd_state_def)
  show ?thesis
    by (simp add: establishTrust_def st rk sk RaiseRootKeysVersion_def saveState_def)
       (simp add: upd_roots_def upd_boot_def)
qed


lemma upd_validVersion: "validVersion ''a1'' \<and> validVersion ''a2''"
  by (simp add: validVersion_def version_char_def less_eq_char_def)

lemma upd_install:
  assumes v: "v = ''a1'' \<or> v = ''a2''" and um: "um [] = Some (upd_manifest v)"
  shows "install_desired upd_crypto (\<lambda>_. Some upd_roots) um (upd_poll obs)
      \<lparr>dv_Version = ''a2'', dv_SignedManifest = Some upd_env, dv_SignedRootKeys = Some upd_env\<rparr>
      (upd_boot\<lparr>b_lastDesired := ''a2''\<rparr>) =
    (Some (upd_manifest v), upd_boot\<lparr>b_lastDesired := ''a2'', b_st := upd_state\<lparr>us_RootKeysVersion := 3\<rparr>,
       b_disk := upd_state\<lparr>us_RootKeysVersion := 3\<rparr>,
       b_installer := (b_installer upd_boot)\<lparr>in_Trusted := Some [''k'' \<mapsto> upd_key], in_MinCreatedAt := time_Unix 10\<rparr>,
       b_versions := put_binary v ''n'' (mkdir v [(''a1'', Some ''o'')])\<rparr>)"
proof -
  define ins where "ins = (b_installer upd_boot)\<lparr>in_Trusted := Some [''k'' \<mapsto> upd_key], in_MinCreatedAt := time_Unix 10\<rparr>"
  have ver: "Verify upd_crypto [''k'' \<mapsto> upd_key] ContextManifest (Some upd_env) (Some um) =
      Inr (''k'', Some (upd_manifest v))"
    using upd_sig um by (simp add: Verify_accepts_iff) (simp add: upd_env_def)
  have "check_manifest upd_crypto um ins (Some upd_env) = Inr (upd_manifest v)"
    unfolding check_manifest_Inr
    using v ver upd_validVersion validSHA256_hex [of upd_key]
    by (auto simp: ins_def upd_boot_def upd_manifest_def install_trust_def)
  moreover have "VerifyBlob upd_crypto (upd_manifest v) ''n'' = Inr ()"
    by (simp add: VerifyBlob_def upd_manifest_def upd_crypto_def)
  moreover have "download (p_env (upd_poll obs)) (upd_manifest v) = Inr ''n''"
    by (simp add: download_def upd_poll_def upd_manifest_def)
  ultimately have "Install upd_crypto um (p_env (upd_poll obs)) ins (Some upd_env) [(''a1'', Some ''o'')] =
      (Inr (upd_manifest v), put_binary v ''n'' (mkdir v [(''a1'', Some ''o'')]))"
    by (simp add: Install_def) (simp add: upd_poll_def upd_manifest_def)
  moreover have "p_now (upd_poll obs) = 0" "p_save (upd_poll obs) 1"
    by (simp_all add: upd_poll_def)
  ultimately show ?thesis
    by (simp add: install_desired_def upd_trust floorTime_def ins_def)
       (simp add: upd_boot_def upd_state_def)
qed

lemma upd_reconcile:
  assumes "v = ''a1'' \<or> v = ''a2''" and "um [] = Some (upd_manifest v)"
  shows "reconcile upd_crypto (\<lambda>_. Some upd_roots) um upd_boot (upd_poll obs) =
    (let b2 = upd_boot\<lparr>b_lastDesired := ''a2'', b_st := upd_state\<lparr>us_RootKeysVersion := 3\<rparr>,
       b_disk := upd_state\<lparr>us_RootKeysVersion := 3\<rparr>,
       b_installer := (b_installer upd_boot)\<lparr>in_Trusted := Some [''k'' \<mapsto> upd_key], in_MinCreatedAt := time_Unix 10\<rparr>,
       b_versions := put_binary v ''n'' (mkdir v [(''a1'', Some ''o'')])\<rparr>
     in if v \<noteq> ''a2'' then b2 else swapWorker (upd_poll obs) v 20 b2)"
proof -
  have o: "observe_desired (upd_poll obs) d upd_boot = upd_boot\<lparr>b_lastDesired := dv_Version d\<rparr>" for d
    by (simp add: observe_desired_def ResetBadOnChange_def upd_boot_def upd_state_def)
  have d: "p_desired (upd_poll obs) = Some (Some \<lparr>dv_Version = ''a2'', dv_SignedManifest = Some upd_env,
       dv_SignedRootKeys = Some upd_env\<rparr>)"
    by (simp add: upd_poll_def)
  have m: "mf_Version (upd_manifest w) = w" "mf_CreatedAt (upd_manifest w) = time_Unix 20" for w
    by (simp_all add: upd_manifest_def)
  have "b_current upd_boot = ''a1''" "us_Bad (b_st upd_boot) = []"
    by (simp_all add: upd_boot_def upd_state_def)
  then show ?thesis
    by (simp add: m reconcile_def d o IsBad_def Let_def upd_install [of v um, OF assms])
qed


section \<open>Properties\<close>








text \<open>
  C40: A version that failed its health gate is left alone.  While the controller keeps asking for
  it, no poll downloads or starts anything, also after a restart; the list is cleared only when the
  target moves.
\<close>

theorem failed_version_waits_for_a_new_target:
  assumes "v \<in> set (us_Bad (b_st b))" and "b_lastDesired b \<in> {[], v}"
    and "\<forall>p \<in> set ps. \<forall>d. p_desired p = Some (Some d) \<longrightarrow> dv_Version d = v"
  shows "b_st (foldl (reconcile c ur um) b ps) = b_st b \<and>
     b_versions (foldl (reconcile c ur um) b ps) = b_versions b \<and>
     b_worker (foldl (reconcile c ur um) b ps) = b_worker b \<and>
     b_current (foldl (reconcile c ur um) b ps) = b_current b"
  using assms
proof (induction ps arbitrary: b)
  case Nil
  then show ?case by simp
next
  case (Cons p ps)
  have w: "p_desired p = Some (Some d) \<Longrightarrow> dv_Version d = v" for d
    using Cons.prems(3) by simp
  note step = reconcile_bad_idle [OF Cons.prems(1,2) w, where c = c and ur = ur and um = um]
  have "b_st (foldl (reconcile c ur um) (reconcile c ur um b p) ps) = b_st (reconcile c ur um b p) \<and>
     b_versions (foldl (reconcile c ur um) (reconcile c ur um b p) ps) = b_versions (reconcile c ur um b p) \<and>
     b_worker (foldl (reconcile c ur um) (reconcile c ur um b p) ps) = b_worker (reconcile c ur um b p) \<and>
     b_current (foldl (reconcile c ur um) (reconcile c ur um b p) ps) = b_current (reconcile c ur um b p)"
    using step Cons.prems by (intro Cons.IH) auto
  with step show ?case by simp
qed

theorem failed_version_waits_for_a_new_target_witness:
  "b_worker (foldl (reconcile upd_crypto (\<lambda>_. Some upd_roots) (\<lambda>_. Some (upd_manifest ''a2'')))
     (upd_boot\<lparr>b_st := upd_state\<lparr>us_Bad := [''a2'']\<rparr>\<rparr>) [upd_poll [], upd_poll []]) = ''a1''"
  using failed_version_waits_for_a_new_target [of "''a2''" "upd_boot\<lparr>b_st := upd_state\<lparr>us_Bad := [''a2'']\<rparr>\<rparr>"
      "[upd_poll [], upd_poll []]" upd_crypto "\<lambda>_. Some upd_roots" "\<lambda>_. Some (upd_manifest ''a2'')"]
  by (simp add: upd_views)

text \<open>
  The version check comes after the install.  If the manifest that accompanies a new desired
  version is a valid one for the version that is running, its bytes replace the running version's
  binary on disk; the loop then refuses the swap and keeps reporting the same current version.
\<close>

theorem install_overwrites_the_running_version:
  assumes "p_desired p = Some (Some d)" and "dv_Version d \<noteq> b_current b"
    and "\<not> IsBad (b_st (observe_desired p d b)) (dv_Version d)" and "dv_SignedManifest d \<noteq> None"
    and i: "install_desired c ur um p d (observe_desired p d b) = (Some m, b2)"
    and v: "mf_Version m = b_current b"
  shows "\<exists>blob. ie_fetch (p_env p) (BlobPath m) = Some blob \<and>
     b_current (reconcile c ur um b p) = b_current b \<and>
     binary_of (b_versions (reconcile c ur um b p)) (b_current b) = Some blob"
proof -
  have r: "reconcile c ur um b p = b2"
    using assms by (auto simp: reconcile_def Let_def)
  from install_desired_Some [OF i] obtain b1 where
    ins: "Install c um (p_env p) ((b_installer b1)\<lparr>in_MinCreatedAt := floorTime b1\<rparr>) (dv_SignedManifest d)
       (b_versions b1) = (Inr m, b_versions b2)" .
  from Install_Inr [OF ins] obtain blob where "ie_fetch (p_env p) (BlobPath m) = Some blob"
    "b_versions b2 = put_binary (mf_Version m) blob (mkdir (mf_Version m) (b_versions b1))" .
  then show ?thesis
    using install_desired_frame [OF i] v by (simp add: r)
qed

theorem install_overwrites_the_running_version_witness:
  "binary_of (b_versions upd_boot) ''a1'' = Some ''o'' \<and>
   binary_of (b_versions (reconcile upd_crypto (\<lambda>_. Some upd_roots) (\<lambda>_. Some (upd_manifest ''a1'')) upd_boot
     (upd_poll []))) ''a1'' = Some ''n''"
proof -
  have o: "observe_desired (upd_poll []) d upd_boot = upd_boot\<lparr>b_lastDesired := dv_Version d\<rparr>" for d
    by (simp add: observe_desired_def ResetBadOnChange_def upd_boot_def upd_state_def)
  show ?thesis
    using install_overwrites_the_running_version [where b = upd_boot and p = "upd_poll []" and
        d = "\<lparr>dv_Version = ''a2'', dv_SignedManifest = Some upd_env, dv_SignedRootKeys = Some upd_env\<rparr>",
        OF _ _ _ _ upd_install [of "''a1''", folded o [of "\<lparr>dv_Version = ''a2'', dv_SignedManifest = Some upd_env,
          dv_SignedRootKeys = Some upd_env\<rparr>", simplified]]]
    by (simp add: o upd_views IsBad_def binary_of_def)
qed

text \<open>
  The rollback floor counts whole seconds.  After a build of instant \<open>t\<close> is committed, a manifest
  passes the floor exactly when its build second is not before that of \<open>t\<close>: one built earlier within
  the same second is accepted.
\<close>

theorem floor_compares_whole_seconds:
  assumes "0 < Time_Unix t" and "us_FloorUnix (b_st b) \<le> Time_Unix t"
  shows "check_manifest c um (ins\<lparr>in_MinCreatedAt := floorTime (b\<lparr>b_st := RaiseFloor (Time_Unix t) (b_st b)\<rparr>)\<rparr>) sm = Inr m
     \<longleftrightarrow> check_manifest c um (ins\<lparr>in_MinCreatedAt := 0\<rparr>) sm = Inr m \<and> Time_Unix t \<le> Time_Unix (mf_CreatedAt m)"
proof -
  have f: "floorTime (b\<lparr>b_st := RaiseFloor (Time_Unix t) (b_st b)\<rparr>) = time_Unix (Time_Unix t)"
    using assms by (auto simp: floorTime_def RaiseFloor_def)
  have "time_Unix (Time_Unix t) \<noteq> 0"
    using assms(1) by (simp add: time_Unix_def unix_offset_def second_def)
  then show ?thesis
    unfolding check_manifest_Inr f by (auto simp: time_Unix_le_Time_Unix)
qed

theorem floor_compares_whole_seconds_witness:
  "Time_Unix (time_Unix 20 + 7) = 20 \<and>
   check_manifest upd_crypto (\<lambda>_. Some (upd_manifest ''a2'')) ((b_installer upd_boot)\<lparr>in_Trusted := Some [''k'' \<mapsto> upd_key],
      in_MinCreatedAt := floorTime (upd_boot\<lparr>b_st := RaiseFloor (Time_Unix (time_Unix 20 + 7)) (b_st upd_boot)\<rparr>)\<rparr>)
      (Some upd_env) = Inr (upd_manifest ''a2'') \<and>
   mf_CreatedAt (upd_manifest ''a2'') < time_Unix 20 + 7"
proof -
  have t: "Time_Unix (time_Unix 20 + 7) = 20"
    by (simp add: Time_Unix_def time_Unix_def second_def unix_offset_def)
  have ver: "Verify upd_crypto [''k'' \<mapsto> upd_key] ContextManifest (Some upd_env) (Some (\<lambda>_. Some (upd_manifest ''a2''))) =
      Inr (''k'', Some (upd_manifest ''a2''))"
    using upd_sig by (simp add: Verify_accepts_iff) (simp add: upd_env_def)
  have "check_manifest upd_crypto (\<lambda>_. Some (upd_manifest ''a2''))
      ((b_installer upd_boot)\<lparr>in_Trusted := Some [''k'' \<mapsto> upd_key], in_MinCreatedAt := 0\<rparr>) (Some upd_env) =
      Inr (upd_manifest ''a2'')"
    unfolding check_manifest_Inr using ver upd_validVersion validSHA256_hex [of upd_key]
    by (auto simp: upd_boot_def upd_manifest_def install_trust_def)
  then show ?thesis
    using floor_compares_whole_seconds [of "time_Unix 20 + 7" upd_boot upd_crypto "\<lambda>_. Some (upd_manifest ''a2'')"
        "(b_installer upd_boot)\<lparr>in_Trusted := Some [''k'' \<mapsto> upd_key]\<rparr>" "Some upd_env" "upd_manifest ''a2''"]
    by (simp add: t) (simp add: upd_boot_def upd_state_def upd_manifest_def)
qed

end
