(* ===== verification/Rollouts.thy ===== *)
theory Rollouts
  imports Geneza_Prelude "HOL-Library.Word" "HOL-Library.Char_ord" "HOL-Library.List_Lexorder"
    "HOL-Library.Product_Lexorder"
begin

unbundle bit_operations_syntax

text \<open>
  Staged rollouts: \<open>internal/controller/rollout.go\<close>, the rings and the manual promotion of
  \<open>adminapi.go\<close>, and the version a node is told to run (\<open>resolveDesired\<close> of \<open>httpapi.go\<close>).  The
  settings of a product (stable and canary version, canary nodes, the rollout and the auto-update
  flag) are one record per ring.  An environment carries what one call observes: the presence rows
  and the registry, the relay rows, the fleet, the published manifests, and which reads and writes
  of the store succeed.  A write that fails ends the call with the state written so far.

  Blocking reasons are values of a datatype where the code formats a sentence.  The JSON encoding of
  the settings and the audit records of the transitions are not modelled.
\<close>

section \<open>Data\<close>

datatype RolloutState = RolloutActive | RolloutPaused | RolloutHalted | RolloutDone | RolloutAborted

datatype RolloutTrigger = TriggerAdmin | TriggerAuto

datatype blocker =
    Offline string | RunsVersion string string | ReportsUnhealthy string | HeartbeatStale string
  | PresenceUnavailable

datatype halt_reason =
    NoReason | AbortedBy string | RevertedAfterTimeout "blocker list" | WaveBlocked "blocker list"

record Rollout =
  ro_Product :: string
  ro_Target :: string
  ro_Waves :: "int list"
  ro_WaveIdx :: nat
  ro_State :: RolloutState
  ro_Trigger :: RolloutTrigger
  ro_Eligible :: "string list"
  ro_PrevStable :: string
  ro_SoakSeconds :: int
  ro_WaveTimeoutSeconds :: int
  ro_WaveEnteredUnix :: int
  ro_HealthySince :: int
  ro_Blockers :: "blocker list"
  ro_HaltReason :: halt_reason
  ro_Actor :: string
  ro_CreatedUnix :: int
  ro_UpdatedUnix :: int

definition terminal :: "Rollout \<Rightarrow> bool" where
  "terminal r \<longleftrightarrow> ro_State r = RolloutDone \<or> ro_State r = RolloutAborted"

definition active :: "Rollout \<Rightarrow> bool" where
  "active r \<longleftrightarrow> ro_State r = RolloutActive"

datatype ring_kind = AgentRing | RelayRing

record ring_settings =
  rs_stable :: string
  rs_canary :: string
  rs_canaryNodes :: "string list"
  rs_rollout :: "Rollout option"
  rs_auto :: bool

type_synonym fleet = "ring_kind \<Rightarrow> ring_settings"

record agentLive =
  al_version :: string
  al_healthy :: bool
  al_lastSeen :: gotime

record AgentPresence =
  ap_NodeID :: string
  ap_Version :: string
  ap_Healthy :: bool
  ap_LastSeenUnix :: int

record RelayRecord =
  rr_RelayID :: string
  rr_Version :: string
  rr_LastSeenUnix :: int

record roll_env =
  re_clock :: gotime
  re_presence :: "(AgentPresence list) option" \<comment> \<open>\<open>None\<close>: the read failed\<close>
  re_registry :: "string \<Rightarrow> agentLive option"
  re_relays :: "(RelayRecord list) option"
  re_nodes :: "(string list) option"
  re_manifest :: "string \<Rightarrow> bytes" \<comment> \<open>empty when there is none\<close>
  re_os :: string
  re_arch :: string
  re_load :: bool \<comment> \<open>the rollout setting can be read\<close>
  re_settings :: bool \<comment> \<open>the version settings can be read\<close>
  re_write :: "nat \<Rightarrow> bool" \<comment> \<open>whether the write at each site of the call succeeds\<close>

section \<open>Membership\<close>

definition ringForProduct :: "string \<Rightarrow> ring_kind option" where
  "ringForProduct product =
     (if product = [] \<or> product = ''geneza-agent'' then Some AgentRing
      else if product = ''geneza-relay'' then Some RelayRing else None)"

text \<open>\<open>hash/fnv\<close>'s 64-bit FNV-1a.\<close>

definition fnvHash :: "string \<Rightarrow> 64 word" where
  "fnvHash s = foldl (\<lambda>h b. (h XOR of_nat (of_char b)) * 1099511628211) 14695981039346656037 s"

definition hashOrder :: "string list \<Rightarrow> string list" where
  "hashOrder ids = sort_key (\<lambda>x. (fnvHash x, x)) ids"

definition eligibleFleet :: "roll_env \<Rightarrow> ring_kind \<Rightarrow> (string list) option" where
  "eligibleFleet env k =
     (case k of
        AgentRing \<Rightarrow> map_option hashOrder (re_nodes env)
      | RelayRing \<Rightarrow> map_option (\<lambda>rs. hashOrder (map rr_RelayID rs)) (re_relays env))"

definition waveMembers :: "string list \<Rightarrow> int \<Rightarrow> string list" where
  "waveMembers eligible pct =
     (let n = int (length eligible) in
      if n = 0 then []
      else
        let k = (pct * n + 99) div 100;
            k = (if k > n then n else k);
            k = (if k < 0 then 0 else k)
        in take (nat k) eligible)"

definition defaultWaves :: "int list" where "defaultWaves = [10, 50, 100]"

fun ascending_from :: "int \<Rightarrow> int list \<Rightarrow> bool" where
  "ascending_from prev [] = True"
| "ascending_from prev (p # ps) = (if p \<le> prev \<or> p > 100 then False else ascending_from p ps)"

definition normalizeWaves :: "int list \<Rightarrow> (int list) option" where
  "normalizeWaves ws =
     (if length ws = 0 then Some defaultWaves
      else if \<not> ascending_from 0 ws then None
      else if last ws \<noteq> 100 then None
      else Some ws)"

section \<open>Health\<close>

definition canaryHeartbeatFresh :: duration where "canaryHeartbeatFresh = 60 * second"
definition relayStaleTTL :: duration where "relayStaleTTL = 60 * second"

definition agentLivenessMap :: "roll_env \<Rightarrow> string list \<Rightarrow> (string \<rightharpoonup> agentLive)" where
  "agentLivenessMap env nodes =
     (let rows = (case re_presence env of None \<Rightarrow> [] | Some rows \<Rightarrow> filter (\<lambda>r. ap_NodeID r \<in> set nodes) rows);
          shared = map_of_range ap_NodeID
            (\<lambda>r. \<lparr>al_version = ap_Version r, al_healthy = ap_Healthy r, al_lastSeen = time_Unix (ap_LastSeenUnix r)\<rparr>) rows
      in foldl (\<lambda>m x. case re_registry env x of None \<Rightarrow> m | Some info \<Rightarrow> m(x \<mapsto> info)) shared nodes)"

fun agent_blockers :: "gotime \<Rightarrow> (string \<rightharpoonup> agentLive) \<Rightarrow> string \<Rightarrow> string list \<Rightarrow> blocker list" where
  "agent_blockers now live version [] = []"
| "agent_blockers now live version (x # xs) =
     (case live x of
        None \<Rightarrow> [Offline x]
      | Some info \<Rightarrow>
          if al_version info \<noteq> version then [RunsVersion x (al_version info)]
          else if \<not> al_healthy info then [ReportsUnhealthy x]
          else if now - al_lastSeen info \<ge> canaryHeartbeatFresh then [HeartbeatStale x]
          else [])
     @ agent_blockers now live version xs"

definition canaryBlockers :: "roll_env \<Rightarrow> string list \<Rightarrow> string \<Rightarrow> blocker list" where
  "canaryBlockers env nodes version = agent_blockers (re_clock env) (agentLivenessMap env nodes) version nodes"

fun relay_blockers :: "gotime \<Rightarrow> (string \<rightharpoonup> RelayRecord) \<Rightarrow> string \<Rightarrow> string list \<Rightarrow> blocker list" where
  "relay_blockers now byID version [] = []"
| "relay_blockers now byID version (x # xs) =
     (case byID x of
        None \<Rightarrow> [Offline x]
      | Some rec \<Rightarrow>
          if rr_Version rec \<noteq> version then [RunsVersion x (rr_Version rec)]
          else if now - time_Unix (rr_LastSeenUnix rec) \<ge> relayStaleTTL then [HeartbeatStale x]
          else [])
     @ relay_blockers now byID version xs"

definition relayCanaryBlockers :: "roll_env \<Rightarrow> string list \<Rightarrow> string \<Rightarrow> blocker list" where
  "relayCanaryBlockers env relays version =
     (case re_relays env of
        None \<Rightarrow> [PresenceUnavailable]
      | Some rows \<Rightarrow> relay_blockers (re_clock env) (map_of_range rr_RelayID (\<lambda>r. r) rows) version relays)"

definition ring_blockers :: "ring_kind \<Rightarrow> roll_env \<Rightarrow> string list \<Rightarrow> string \<Rightarrow> blocker list" where
  "ring_blockers k = (case k of AgentRing \<Rightarrow> canaryBlockers | RelayRing \<Rightarrow> relayCanaryBlockers)"

text \<open>The version a node is told to run.\<close>

definition resolveDesired :: "string \<Rightarrow> string \<Rightarrow> string list \<Rightarrow> string \<Rightarrow> string" where
  "resolveDesired stableV canary canaryNodes nodeID =
     (if canary \<noteq> [] then (if nodeID \<in> set canaryNodes then canary else stableV) else stableV)"

section \<open>Store writes\<close>

text \<open>\<open>Inl\<close> ends the call with the state written so far.\<close>

definition write_setting :: "bool \<Rightarrow> ring_kind \<Rightarrow> (ring_settings \<Rightarrow> ring_settings) \<Rightarrow> fleet \<Rightarrow> fleet + fleet" where
  "write_setting ok k upd f = (if ok then Inr (f(k := upd (f k))) else Inl f)"

definition after :: "fleet + fleet \<Rightarrow> fleet" where
  "after x = (case x of Inl f \<Rightarrow> f | Inr f \<Rightarrow> f)"

definition saveRollout :: "bool \<Rightarrow> int \<Rightarrow> Rollout \<Rightarrow> fleet \<Rightarrow> fleet + fleet" where
  "saveRollout ok now r f =
     (case ringForProduct (ro_Product r) of
        None \<Rightarrow> Inl f
      | Some k \<Rightarrow> write_setting ok k (\<lambda>s. s\<lparr>rs_rollout := Some (r\<lparr>ro_UpdatedUnix := now\<rparr>)\<rparr>) f)"

definition revertRing :: "roll_env \<Rightarrow> string \<Rightarrow> fleet \<Rightarrow> fleet + fleet" where
  "revertRing env product f =
     (case ringForProduct product of
        None \<Rightarrow> Inl f
      | Some k \<Rightarrow>
          bindE (write_setting (re_write env 3) k (\<lambda>s. s\<lparr>rs_canaryNodes := []\<rparr>) f)
            (write_setting (re_write env 4) k (\<lambda>s. s\<lparr>rs_canary := []\<rparr>)))"

section \<open>Lifecycle\<close>

definition ManifestKey :: "string \<Rightarrow> string \<Rightarrow> string \<Rightarrow> string \<Rightarrow> string" where
  "ManifestKey product osName arch version = product @ ''/'' @ osName @ ''/'' @ arch @ ''/'' @ version"

definition new_rollout ::
    "string \<Rightarrow> string \<Rightarrow> int list \<Rightarrow> int \<Rightarrow> int \<Rightarrow> RolloutTrigger \<Rightarrow> string \<Rightarrow> string \<Rightarrow> string list \<Rightarrow> int \<Rightarrow> Rollout" where
  "new_rollout product target wv soak waveTimeout trigger actor stableV eligible now =
     \<lparr>ro_Product = product, ro_Target = target, ro_Waves = wv, ro_WaveIdx = 0,
      ro_State = RolloutActive, ro_Trigger = trigger, ro_Eligible = eligible, ro_PrevStable = stableV,
      ro_SoakSeconds = (if soak \<le> 0 then 120 else soak),
      ro_WaveTimeoutSeconds = (if waveTimeout \<le> 0 then 600 else waveTimeout),
      ro_WaveEnteredUnix = now, ro_HealthySince = 0, ro_Blockers = [], ro_HaltReason = NoReason,
      ro_Actor = actor, ro_CreatedUnix = now, ro_UpdatedUnix = 0\<rparr>"

definition startRollout ::
    "roll_env \<Rightarrow> int \<Rightarrow> string \<Rightarrow> string \<Rightarrow> int list \<Rightarrow> int \<Rightarrow> int \<Rightarrow> RolloutTrigger \<Rightarrow> string \<Rightarrow> fleet \<Rightarrow> fleet" where
  "startRollout env now product target waves soak waveTimeout trigger actor f =
     (case ringForProduct product of
        None \<Rightarrow> f
      | Some k \<Rightarrow>
          if target = [] then f
          else if re_load env \<and> (case rs_rollout (f k) of None \<Rightarrow> False | Some cur \<Rightarrow> \<not> terminal cur) then f
          else if \<not> re_settings env then f
          else if target = rs_stable (f k) then f
          else if length (re_manifest env (ManifestKey product (re_os env) (re_arch env) target)) = 0 then f
          else (case (normalizeWaves waves, eligibleFleet env k) of
                  (Some wv, Some eligible) \<Rightarrow>
                    after (saveRollout (re_write env 0) now
                      (new_rollout product target wv soak waveTimeout trigger actor (rs_stable (f k)) eligible now) f)
                | _ \<Rightarrow> f))"

definition loadRollout :: "roll_env \<Rightarrow> string \<Rightarrow> fleet \<Rightarrow> Rollout option" where
  "loadRollout env product f =
     (case ringForProduct product of
        None \<Rightarrow> None | Some k \<Rightarrow> if re_load env then rs_rollout (f k) else None)"

definition pauseRollout :: "roll_env \<Rightarrow> int \<Rightarrow> string \<Rightarrow> fleet \<Rightarrow> fleet" where
  "pauseRollout env now product f =
     (case loadRollout env product f of
        None \<Rightarrow> f
      | Some r \<Rightarrow>
          if \<not> active r then f
          else after (saveRollout (re_write env 0) now (r\<lparr>ro_State := RolloutPaused\<rparr>) f))"

definition resumeRollout :: "roll_env \<Rightarrow> int \<Rightarrow> string \<Rightarrow> fleet \<Rightarrow> fleet" where
  "resumeRollout env now product f =
     (case loadRollout env product f of
        None \<Rightarrow> f
      | Some r \<Rightarrow>
          if ro_State r \<noteq> RolloutPaused \<and> ro_State r \<noteq> RolloutHalted then f
          else after (saveRollout (re_write env 0) now
                 (r\<lparr>ro_State := RolloutActive, ro_WaveEnteredUnix := now, ro_HealthySince := 0,
                    ro_HaltReason := NoReason\<rparr>) f))"

definition abortRollout :: "roll_env \<Rightarrow> int \<Rightarrow> string \<Rightarrow> string \<Rightarrow> fleet \<Rightarrow> fleet" where
  "abortRollout env now product actor f =
     (case loadRollout env product f of
        None \<Rightarrow> f
      | Some r \<Rightarrow>
          if terminal r then f
          else after (bindE (revertRing env product f)
                 (saveRollout (re_write env 5) now
                    (r\<lparr>ro_State := RolloutAborted, ro_HaltReason := AbortedBy actor\<rparr>))))"

definition maybeAutoStartRollout :: "roll_env \<Rightarrow> int \<Rightarrow> string \<Rightarrow> string \<Rightarrow> fleet \<Rightarrow> fleet" where
  "maybeAutoStartRollout env now product version f =
     (case ringForProduct product of
        None \<Rightarrow> f
      | Some k \<Rightarrow>
          if \<not> rs_auto (f k) \<or> version = [] then f
          else if re_load env \<and> (case rs_rollout (f k) of None \<Rightarrow> False | Some cur \<Rightarrow> \<not> terminal cur) then f
          else if re_settings env \<and> version = rs_stable (f k) then f
          else startRollout env now product version [] 0 0 TriggerAuto ''auto:publish'' f)"

section \<open>The controller loop\<close>

definition failWave :: "roll_env \<Rightarrow> int \<Rightarrow> blocker list \<Rightarrow> Rollout \<Rightarrow> fleet \<Rightarrow> fleet + fleet" where
  "failWave env now blockers r f =
     (if ro_Trigger r = TriggerAuto then
        bindE (revertRing env (ro_Product r) f)
          (saveRollout (re_write env 5) now
             (r\<lparr>ro_State := RolloutAborted, ro_HaltReason := RevertedAfterTimeout blockers\<rparr>))
      else saveRollout (re_write env 5) now
             (r\<lparr>ro_State := RolloutHalted, ro_HaltReason := WaveBlocked blockers\<rparr>) f)"

definition finalizeRollout :: "roll_env \<Rightarrow> int \<Rightarrow> ring_kind \<Rightarrow> Rollout \<Rightarrow> fleet \<Rightarrow> fleet + fleet" where
  "finalizeRollout env now k r f =
     (let final = ring_blockers k env (ro_Eligible r) (ro_Target r) in
      if length final > 0 then
        saveRollout (re_write env 5) now (r\<lparr>ro_HealthySince := 0, ro_Blockers := final\<rparr>) f
      else
        bindE (write_setting (re_write env 2) k (\<lambda>s. s\<lparr>rs_stable := ro_Target r\<rparr>) f) (\<lambda>f.
        bindE (write_setting (re_write env 3) k (\<lambda>s. s\<lparr>rs_canaryNodes := []\<rparr>) f) (\<lambda>f.
        bindE (write_setting (re_write env 4) k (\<lambda>s. s\<lparr>rs_canary := []\<rparr>) f)
          (saveRollout (re_write env 5) now (r\<lparr>ro_State := RolloutDone, ro_Blockers := []\<rparr>)))))"

definition wave_transition :: "roll_env \<Rightarrow> int \<Rightarrow> ring_kind \<Rightarrow> string list \<Rightarrow> Rollout \<Rightarrow> fleet \<Rightarrow> fleet + fleet" where
  "wave_transition env now k members r f =
     (let blockers = ring_blockers k env members (ro_Target r) in
      if length blockers > 0 then
        let r' = r\<lparr>ro_HealthySince := 0, ro_Blockers := blockers\<rparr> in
        if ro_WaveTimeoutSeconds r > 0 \<and> now - ro_WaveEnteredUnix r \<ge> ro_WaveTimeoutSeconds r
        then failWave env now blockers r' f
        else saveRollout (re_write env 5) now r' f
      else
        let r' = r\<lparr>ro_Blockers := []\<rparr> in
        if ro_HealthySince r = 0 then saveRollout (re_write env 5) now (r'\<lparr>ro_HealthySince := now\<rparr>) f
        else if now - ro_HealthySince r < ro_SoakSeconds r then saveRollout (re_write env 5) now r' f
        else if ro_Waves r ! ro_WaveIdx r \<ge> 100 then finalizeRollout env now k r' f
        else saveRollout (re_write env 5) now
               (r'\<lparr>ro_WaveIdx := ro_WaveIdx r + 1, ro_WaveEnteredUnix := now, ro_HealthySince := 0\<rparr>) f)"

definition rolloutTick :: "roll_env \<Rightarrow> int \<Rightarrow> string \<Rightarrow> fleet \<Rightarrow> fleet" where
  "rolloutTick env now product f =
     (case (ringForProduct product, loadRollout env product f) of
        (Some k, Some r) \<Rightarrow>
          if \<not> active r then f
          else
            let members = waveMembers (ro_Eligible r) (ro_Waves r ! ro_WaveIdx r) in
            after
              (bindE (write_setting (re_write env 0) k (\<lambda>s. s\<lparr>rs_canary := ro_Target r\<rparr>) f) (\<lambda>f.
               bindE (write_setting (re_write env 1) k (\<lambda>s. s\<lparr>rs_canaryNodes := members\<rparr>) f)
                 (wave_transition env now k members r)))
      | _ \<Rightarrow> f)"

definition SetDesiredVersion :: "roll_env \<Rightarrow> string \<Rightarrow> string \<Rightarrow> string \<Rightarrow> string list \<Rightarrow> fleet \<Rightarrow> fleet" where
  "SetDesiredVersion env product ring version nodes f =
     (case ringForProduct product of
        None \<Rightarrow> f
      | Some k \<Rightarrow>
          if (case loadRollout env product f of None \<Rightarrow> False | Some cur \<Rightarrow> \<not> terminal cur) then f
          else if ring = ''canary'' then
            after (bindE (if length nodes > 0
                          then write_setting (re_write env 0) k (\<lambda>s. s\<lparr>rs_canaryNodes := nodes\<rparr>) f else Inr f)
                     (write_setting (re_write env 1) k (\<lambda>s. s\<lparr>rs_canary := version\<rparr>)))
          else if ring = ''stable'' then
            if \<not> re_settings env then f
            else if length (rs_canaryNodes (f k)) > 0 \<and> version \<noteq> [] \<and>
                    length (ring_blockers k env (rs_canaryNodes (f k)) version) > 0 then f
            else after (write_setting (re_write env 2) k (\<lambda>s. s\<lparr>rs_stable := version\<rparr>) f)
          else f)"


definition setAutoUpdate :: "roll_env \<Rightarrow> string \<Rightarrow> bool \<Rightarrow> fleet \<Rightarrow> fleet" where
  "setAutoUpdate env product on f =
     (case ringForProduct product of
        None \<Rightarrow> f | Some k \<Rightarrow> after (write_setting (re_write env 0) k (\<lambda>s. s\<lparr>rs_auto := on\<rparr>) f))"

text \<open>
  A history: the clock in seconds and the settings; each event comes some time after the one before
  it, with its own environment.
\<close>

datatype roll_event =
    Tick string
  | Start string string "int list" int int RolloutTrigger string
  | Pause string
  | Resume string
  | Abort string string
  | Publish string string
  | SetVersion string string string "string list"
  | SetAuto string bool

fun roll_apply :: "roll_env \<Rightarrow> int \<Rightarrow> roll_event \<Rightarrow> fleet \<Rightarrow> fleet" where
  "roll_apply env now (Tick p) f = rolloutTick env now p f"
| "roll_apply env now (Start p v ws so to tr a) f = startRollout env now p v ws so to tr a f"
| "roll_apply env now (Pause p) f = pauseRollout env now p f"
| "roll_apply env now (Resume p) f = resumeRollout env now p f"
| "roll_apply env now (Abort p a) f = abortRollout env now p a f"
| "roll_apply env now (Publish p v) f = maybeAutoStartRollout env now p v f"
| "roll_apply env now (SetVersion p r v ns) f = SetDesiredVersion env p r v ns f"
| "roll_apply env now (SetAuto p on) f = setAutoUpdate env p on f"

fun roll_step :: "int \<times> fleet \<Rightarrow> nat \<times> roll_env \<times> roll_event \<Rightarrow> int \<times> fleet" where
  "roll_step (now, f) (dt, env, e) = (now + int dt, roll_apply env (now + int dt) e f)"

section \<open>Lemmas\<close>

subsection \<open>Waves\<close>

definition waves_ok :: "int list \<Rightarrow> bool" where
  "waves_ok ws \<longleftrightarrow> ws \<noteq> [] \<and> ascending_from 0 ws \<and> last ws = 100"

lemma normalizeWaves_ok: "normalizeWaves ws = Some out \<Longrightarrow> waves_ok out"
  by (auto simp: normalizeWaves_def waves_ok_def defaultWaves_def split: if_splits)

lemma ascending_from_sorted:
  "ascending_from p ws \<longleftrightarrow> sorted_wrt (<) ws \<and> (\<forall>w \<in> set ws. p < w \<and> w \<le> 100)"
  by (induction ws arbitrary: p) force+

lemma waves_ok_nth:
  assumes "waves_ok ws" and "i < length ws"
  shows "0 < ws ! i \<and> ws ! i \<le> 100"
  using assms nth_mem [OF assms(2)] by (auto simp: waves_ok_def ascending_from_sorted)

lemma waves_ok_less: "waves_ok ws \<Longrightarrow> i < j \<Longrightarrow> j < length ws \<Longrightarrow> ws ! i < ws ! j"
  by (auto simp: waves_ok_def ascending_from_sorted sorted_wrt_iff_nth_less)

lemma waves_ok_last: "waves_ok ws \<Longrightarrow> i < length ws \<Longrightarrow> 100 \<le> ws ! i \<longleftrightarrow> Suc i = length ws"
proof
  assume w: "waves_ok ws" and i: "i < length ws" and "100 \<le> ws ! i"
  show "Suc i = length ws"
  proof (rule ccontr)
    assume "Suc i \<noteq> length ws"
    then have "Suc i < length ws" using i by simp
    then show False
      using waves_ok_less [OF w, of i "Suc i"] waves_ok_nth [OF w, of "Suc i"] \<open>100 \<le> ws ! i\<close> by simp
  qed
next
  assume w: "waves_ok ws" and "i < length ws" and s: "Suc i = length ws"
  have "length ws - 1 = i" using s by simp
  moreover have "ws \<noteq> []" using w by (simp add: waves_ok_def)
  ultimately have "last ws = ws ! i" using last_conv_nth [of ws] by simp
  moreover have "last ws = 100" using w by (simp add: waves_ok_def)
  ultimately show "100 \<le> ws ! i" by simp
qed

lemma waveMembers_take:
  assumes "0 < pct" and "pct \<le> 100"
  shows "waveMembers eligible pct = take (nat ((pct * int (length eligible) + 99) div 100)) eligible"
proof (cases "eligible = []")
  case False
  have "pct * int (length eligible) \<le> 100 * int (length eligible)"
    using assms by (intro mult_right_mono) auto
  then have "(pct * int (length eligible) + 99) div 100 \<le> int (length eligible)" by linarith
  moreover have "0 \<le> pct * int (length eligible)" using assms by simp
  then have "0 \<le> (pct * int (length eligible) + 99) div 100" by linarith
  ultimately show ?thesis using False by (auto simp: waveMembers_def Let_def)
qed (simp add: waveMembers_def)

lemma waveMembers_all: "waveMembers eligible 100 = eligible"
  by (simp add: waveMembers_take)

subsection \<open>Blockers\<close>

lemma agent_blockers_empty:
  "agent_blockers now live v xs = [] \<longleftrightarrow>
     (\<forall>x \<in> set xs. \<exists>info. live x = Some info \<and> al_version info = v \<and> al_healthy info \<and>
        now - al_lastSeen info < canaryHeartbeatFresh)"
  by (induction xs) (auto split: option.splits if_splits)

lemma relay_blockers_empty:
  "relay_blockers now byID v xs = [] \<longleftrightarrow>
     (\<forall>x \<in> set xs. \<exists>rec. byID x = Some rec \<and> rr_Version rec = v \<and>
        now - time_Unix (rr_LastSeenUnix rec) < relayStaleTTL)"
  by (induction xs) (auto split: option.splits if_splits)

subsection \<open>Writes\<close>

lemma after_simps [simp]: "after (Inl f) = f" "after (Inr f) = f"
  by (simp_all add: after_def)

lemma after_bindE:
  assumes "P (after x)" and "\<And>f. P f \<Longrightarrow> P (after (g f))"
  shows "P (after (bindE x g))"
  using assms by (cases x) auto

lemma after_write: "P f \<Longrightarrow> P (f(k := upd (f k))) \<Longrightarrow> P (after (write_setting ok k upd f))"
  by (simp add: write_setting_def)

lemma after_save:
  assumes "P f" and "\<And>k. ringForProduct (ro_Product r) = Some k \<Longrightarrow>
    P (f(k := (f k)\<lparr>rs_rollout := Some (r\<lparr>ro_UpdatedUnix := now\<rparr>)\<rparr>))"
  shows "P (after (saveRollout ok now r f))"
  using assms by (auto simp: saveRollout_def write_setting_def split: option.split)


subsection \<open>Pace\<close>

text \<open>
  A rollout in wave \<open>i\<close> has soaked every earlier wave: at least \<open>i\<close> soak times lie between its
  creation and the entry into the wave.
\<close>

definition rollout_ok :: "int \<Rightarrow> ring_kind \<Rightarrow> Rollout \<Rightarrow> bool" where
  "rollout_ok now k r \<longleftrightarrow>
     ringForProduct (ro_Product r) = Some k \<and> waves_ok (ro_Waves r) \<and>
     ro_WaveIdx r < length (ro_Waves r) \<and> 0 < ro_SoakSeconds r \<and>
     ro_CreatedUnix r + int (ro_WaveIdx r) * ro_SoakSeconds r \<le> ro_WaveEnteredUnix r \<and>
     ro_WaveEnteredUnix r \<le> now \<and>
     (ro_HealthySince r = 0 \<or> ro_WaveEnteredUnix r \<le> ro_HealthySince r \<and> ro_HealthySince r \<le> now)"

definition paced :: "int \<times> fleet \<Rightarrow> bool" where
  "paced w \<longleftrightarrow> (\<forall>k r. rs_rollout (snd w k) = Some r \<longrightarrow> rollout_ok (fst w) k r)"

lemma rollout_ok_updated [simp]: "rollout_ok now k (r\<lparr>ro_UpdatedUnix := t\<rparr>) = rollout_ok now k r"
  by (simp add: rollout_ok_def)

lemma rollout_ok_blockers [simp]: "rollout_ok now k (r\<lparr>ro_Blockers := b\<rparr>) = rollout_ok now k r"
  by (simp add: rollout_ok_def)

lemma rollout_ok_later: "rollout_ok now k r \<Longrightarrow> now \<le> now' \<Longrightarrow> rollout_ok now' k r"
  by (auto simp: rollout_ok_def)

lemma paced_later: "paced (now, f) \<Longrightarrow> now \<le> now' \<Longrightarrow> paced (now', f)"
  using rollout_ok_later by (fastforce simp: paced_def)

lemma paced_setting:
  assumes "paced (now, f)" and "\<And>s. rs_rollout (upd s) = rs_rollout s"
  shows "paced (now, after (write_setting ok k upd f))"
  using assms by (auto simp: paced_def write_setting_def)

lemma paced_save:
  assumes "paced (now, f)" and "rollout_ok now k r"
  shows "paced (now, after (saveRollout ok now r f))"
proof -
  have "ringForProduct (ro_Product r) = Some k" using assms(2) by (simp add: rollout_ok_def)
  with assms show ?thesis by (auto simp: paced_def saveRollout_def write_setting_def)
qed

lemma paced_bindE:
  assumes "paced (now, after x)" and "\<And>f. paced (now, f) \<Longrightarrow> paced (now, after (g f))"
  shows "paced (now, after (bindE x g))"
  using assms by (rule after_bindE [where P = "\<lambda>f. paced (now, f)"])

lemmas paced_intros = paced_bindE paced_setting paced_save

lemma paced_revert: "paced (now, f) \<Longrightarrow> paced (now, after (revertRing env p f))"
  by (auto simp: revertRing_def intro!: paced_intros split: option.split)

lemma loadRollout_Some:
  "loadRollout env p f = Some r \<Longrightarrow> \<exists>k. ringForProduct p = Some k \<and> rs_rollout (f k) = Some r"
  by (auto simp: loadRollout_def split: option.splits if_splits)

lemma paced_load:
  "paced (now, f) \<Longrightarrow> loadRollout env p f = Some r \<Longrightarrow> \<exists>k. rollout_ok now k r"
  using loadRollout_Some by (fastforce simp: paced_def)

lemma paced_start:
  assumes "paced (now, f)"
  shows "paced (now, startRollout env now p v ws so to tr a f)"
proof -
  have "rollout_ok now k (new_rollout p v wv so to tr a sv el now)"
    if "ringForProduct p = Some k" "normalizeWaves ws = Some wv" for k wv sv el
    using that normalizeWaves_ok [of ws wv] by (auto simp: rollout_ok_def waves_ok_def new_rollout_def)
  with assms show ?thesis
    by (auto simp: startRollout_def intro!: paced_save split: option.split)
qed

lemma paced_fail:
  "paced (now, f) \<Longrightarrow> rollout_ok now k r \<Longrightarrow> paced (now, after (failWave env now b r f))"
  by (auto simp: failWave_def rollout_ok_def intro!: paced_bindE paced_revert paced_save [where k = k])

lemma paced_finalize:
  "paced (now, f) \<Longrightarrow> rollout_ok now k r \<Longrightarrow> paced (now, after (finalizeRollout env now k r f))"
  by (auto simp: finalizeRollout_def Let_def rollout_ok_def
      intro!: paced_bindE paced_setting paced_save [where k = k])

lemma paced_transition:
  assumes f: "paced (now, f)" and r: "rollout_ok now k r"
  shows "paced (now, after (wave_transition env now k ms r f))"
proof -
  have 1: "rollout_ok now k (r\<lparr>ro_HealthySince := 0, ro_Blockers := b\<rparr>)" for b
    using r by (simp add: rollout_ok_def)
  have 2: "rollout_ok now k (r\<lparr>ro_Blockers := b, ro_HealthySince := now\<rparr>)" for b
    using r by (simp add: rollout_ok_def)
  have 3: "rollout_ok now k (r\<lparr>ro_Blockers := b, ro_WaveIdx := ro_WaveIdx r + 1,
      ro_WaveEnteredUnix := now, ro_HealthySince := 0\<rparr>)"
    if "ro_HealthySince r \<noteq> 0" "\<not> now - ro_HealthySince r < ro_SoakSeconds r"
      "\<not> 100 \<le> ro_Waves r ! ro_WaveIdx r" for b
  proof -
    have "Suc (ro_WaveIdx r) < length (ro_Waves r)"
      using r that(3) waves_ok_last [of "ro_Waves r" "ro_WaveIdx r"] by (auto simp: rollout_ok_def)
    then show ?thesis using r that by (auto simp: rollout_ok_def algebra_simps)
  qed
  show ?thesis
    using f r 1 2 3
    by (auto simp: wave_transition_def Let_def intro!: paced_save [where k = k] paced_fail paced_finalize)
qed

lemma paced_tick: "paced (now, f) \<Longrightarrow> paced (now, rolloutTick env now p f)"
proof -
  assume f: "paced (now, f)"
  show ?thesis
  proof (cases "loadRollout env p f")
    case None
    then show ?thesis using f by (simp add: rolloutTick_def split: option.split)
  next
    case (Some r)
    then obtain k where k: "ringForProduct p = Some k" "rs_rollout (f k) = Some r"
      using loadRollout_Some by blast
    then have "rollout_ok now k r" using f by (simp add: paced_def)
    with f show ?thesis
      by (auto simp: rolloutTick_def k(1) Some Let_def intro!: paced_bindE paced_setting paced_transition)
  qed
qed

lemma paced_publish: "paced (now, f) \<Longrightarrow> paced (now, maybeAutoStartRollout env now p v f)"
  by (auto simp: maybeAutoStartRollout_def intro!: paced_start split: option.split)

lemma paced_auto: "paced (now, f) \<Longrightarrow> paced (now, setAutoUpdate env p on f)"
  by (auto simp: setAutoUpdate_def intro!: paced_setting split: option.split)

lemma paced_pause: 
  assumes f: "paced (now, f)"
  shows "paced (now, pauseRollout env now p f)"
proof (cases "loadRollout env p f")
  case (Some r)
  with f obtain k where "rollout_ok now k r" using paced_load by blast
  then have "rollout_ok now k (r\<lparr>ro_State := RolloutPaused\<rparr>)" by (simp add: rollout_ok_def)
  with f show ?thesis by (simp add: pauseRollout_def Some paced_save)
qed (use f in \<open>simp add: pauseRollout_def\<close>)

lemma paced_resume: 
  assumes f: "paced (now, f)"
  shows "paced (now, resumeRollout env now p f)"
proof (cases "loadRollout env p f")
  case (Some r)
  with f obtain k where "rollout_ok now k r" using paced_load by blast
  then have "rollout_ok now k (r\<lparr>ro_State := RolloutActive, ro_WaveEnteredUnix := now,
      ro_HealthySince := 0, ro_HaltReason := NoReason\<rparr>)" by (simp add: rollout_ok_def)
  with f show ?thesis by (simp add: resumeRollout_def Some paced_save)
qed (use f in \<open>simp add: resumeRollout_def\<close>)

lemma paced_abort: 
  assumes f: "paced (now, f)"
  shows "paced (now, abortRollout env now p a f)"
proof (cases "loadRollout env p f")
  case (Some r)
  with f obtain k where k: "rollout_ok now k r" using paced_load by blast
  have r: "rollout_ok now k (r\<lparr>ro_State := RolloutAborted, ro_HaltReason := AbortedBy a\<rparr>)"
    using k by (simp add: rollout_ok_def)
  show ?thesis
    using paced_bindE [OF paced_revert [OF f] paced_save [OF _ r]] f by (simp add: abortRollout_def Some)
qed (use f in \<open>simp add: abortRollout_def\<close>)

lemma paced_setversion:
  assumes f: "paced (now, f)"
  shows "paced (now, SetDesiredVersion env p r v ns f)"
proof -
  have "paced (now, after (bindE (if 0 < length ns
            then write_setting (re_write env 0) k (\<lambda>s. s\<lparr>rs_canaryNodes := ns\<rparr>) f else Inr f)
          (write_setting (re_write env 1) k (\<lambda>s. s\<lparr>rs_canary := v\<rparr>))))" for k
    using f by (intro paced_bindE) (auto intro: paced_setting)
  moreover have "paced (now, after (write_setting (re_write env 2) k (\<lambda>s. s\<lparr>rs_stable := v\<rparr>) f))" for k
    using f by (rule paced_setting) simp
  ultimately show ?thesis
    using f by (simp only: SetDesiredVersion_def split: option.split if_split) blast
qed

lemma paced_event: "paced (now, f) \<Longrightarrow> paced (now, roll_apply env now e f)"
  by (cases e) (simp_all add: paced_publish paced_auto paced_pause paced_resume paced_abort
      paced_setversion paced_tick paced_start)

interpretation rollouts: step_system roll_step paced
proof unfold_locales
  fix w :: "int \<times> fleet" and e :: "nat \<times> roll_env \<times> roll_event"
  assume p: "paced w"
  obtain now f where w: "w = (now, f)" by (cases w)
  obtain dt env ev where e: "e = (dt, env, ev)" by (cases e)
  have "paced (now + int dt, f)" using p paced_later [of now f "now + int dt"] by (simp add: w)
  then show "paced (roll_step w e)" by (simp add: w e paced_event)
qed

subsection \<open>What moves the stable version\<close>

definition same_stable :: "fleet \<Rightarrow> fleet \<Rightarrow> bool" where
  "same_stable f f' \<longleftrightarrow> (\<forall>k. rs_stable (f' k) = rs_stable (f k))"

lemma same_stable_refl [simp]: "same_stable f f"
  by (simp add: same_stable_def)

lemma same_stable_write:
  "same_stable f0 f \<Longrightarrow> (\<And>s. rs_stable (upd s) = rs_stable s) \<Longrightarrow>
   same_stable f0 (after (write_setting ok k upd f))"
  by (auto simp: same_stable_def write_setting_def)

lemma same_stable_bindE:
  "same_stable f0 (after x) \<Longrightarrow> (\<And>f. same_stable f0 f \<Longrightarrow> same_stable f0 (after (g f))) \<Longrightarrow>
   same_stable f0 (after (bindE x g))"
  by (rule after_bindE)

lemma same_stable_save: "same_stable f0 f \<Longrightarrow> same_stable f0 (after (saveRollout ok now r f))"
  by (auto simp: saveRollout_def intro!: same_stable_write split: option.split)

lemma same_stable_revert: "same_stable f0 f \<Longrightarrow> same_stable f0 (after (revertRing env p f))"
  by (auto simp: revertRing_def intro!: same_stable_bindE same_stable_write split: option.split)

lemma same_stable_fail: "same_stable f0 f \<Longrightarrow> same_stable f0 (after (failWave env now b r f))"
  by (auto simp: failWave_def intro!: same_stable_bindE same_stable_revert same_stable_save)

text \<open>A tick moves the stable version of its ring only by finalizing.\<close>

lemma wave_transition_stable:
  "same_stable f (after (wave_transition env now k ms r f)) \<or>
   (ring_blockers k env ms (ro_Target r) = [] \<and> ro_HealthySince r \<noteq> 0 \<and>
    ro_SoakSeconds r \<le> now - ro_HealthySince r \<and> 100 \<le> ro_Waves r ! ro_WaveIdx r \<and>
    ring_blockers k env (ro_Eligible r) (ro_Target r) = [] \<and>
    (\<forall>k'. rs_stable (after (wave_transition env now k ms r f) k') =
       (if k' = k \<and> re_write env 2 then ro_Target r else rs_stable (f k'))))"
proof (cases "ring_blockers k env ms (ro_Target r) = [] \<and> ro_HealthySince r \<noteq> 0 \<and>
    ro_SoakSeconds r \<le> now - ro_HealthySince r \<and> 100 \<le> ro_Waves r ! ro_WaveIdx r \<and>
    ring_blockers k env (ro_Eligible r) (ro_Target r) = []")
  case True
  define r' where "r' = r\<lparr>ro_Blockers := []\<rparr>"
  define g where "g = f(k := (f k)\<lparr>rs_stable := ro_Target r\<rparr>)"
  have w: "wave_transition env now k ms r f = finalizeRollout env now k r' f"
    using True by (simp add: wave_transition_def r'_def)
  show ?thesis
  proof (cases "re_write env 2")
    case False
    then have "wave_transition env now k ms r f = Inl f"
      using True by (simp add: w finalizeRollout_def write_setting_def r'_def)
    then show ?thesis by simp
  next
    case w2: True
    have "wave_transition env now k ms r f =
        bindE (write_setting (re_write env 3) k (\<lambda>s. s\<lparr>rs_canaryNodes := []\<rparr>) g) (\<lambda>f.
        bindE (write_setting (re_write env 4) k (\<lambda>s. s\<lparr>rs_canary := []\<rparr>) f)
          (saveRollout (re_write env 5) now (r'\<lparr>ro_State := RolloutDone, ro_Blockers := []\<rparr>)))"
      using True w2 by (simp add: w finalizeRollout_def write_setting_def r'_def g_def)
    then have "same_stable g (after (wave_transition env now k ms r f))"
      by (auto intro!: same_stable_bindE same_stable_write same_stable_save)
    then show ?thesis using True w2 by (auto simp: same_stable_def g_def)
  qed
next
  case False
  then have "same_stable f (after (wave_transition env now k ms r f))"
    by (auto simp: wave_transition_def finalizeRollout_def Let_def
        intro!: same_stable_fail same_stable_save)
  then show ?thesis by blast
qed


subsection \<open>A node that is fit for promotion\<close>

definition node_fit :: "ring_kind \<Rightarrow> roll_env \<Rightarrow> string list \<Rightarrow> string \<Rightarrow> string \<Rightarrow> bool" where
  "node_fit k env nodes v x =
     (case k of
        AgentRing \<Rightarrow>
          (case agentLivenessMap env nodes x of
             None \<Rightarrow> False
           | Some info \<Rightarrow> al_version info = v \<and> al_healthy info \<and> re_clock env - al_lastSeen info < 60 * second)
      | RelayRing \<Rightarrow>
          (case map_of_range rr_RelayID (\<lambda>r. r) (case re_relays env of None \<Rightarrow> [] | Some rows \<Rightarrow> rows) x of
             None \<Rightarrow> False
           | Some rec \<Rightarrow> rr_Version rec = v \<and> re_clock env - time_Unix (rr_LastSeenUnix rec) < 60 * second))"

lemma ring_blockers_fit: "ring_blockers k env nodes v = [] \<Longrightarrow> x \<in> set nodes \<Longrightarrow> node_fit k env nodes v x"
  by (cases k)
     (fastforce simp: ring_blockers_def canaryBlockers_def relayCanaryBlockers_def agent_blockers_empty
        relay_blockers_empty node_fit_def canaryHeartbeatFresh_def relayStaleTTL_def split: option.splits)+

subsection \<open>Ticks whose writes succeed\<close>

lemma save_ok: "ringForProduct (ro_Product r) = Some k \<Longrightarrow>
   saveRollout True now r f = Inr (f(k := (f k)\<lparr>rs_rollout := Some (r\<lparr>ro_UpdatedUnix := now\<rparr>)\<rparr>))"
  by (simp add: saveRollout_def write_setting_def)

definition pinned :: "Rollout \<Rightarrow> ring_settings \<Rightarrow> ring_settings" where
  "pinned r s = s\<lparr>rs_canary := ro_Target r,
     rs_canaryNodes := waveMembers (ro_Eligible r) (ro_Waves r ! ro_WaveIdx r)\<rparr>"

lemma tick_pins:
  assumes "ringForProduct p = Some k" and "re_load env" and "rs_rollout (f k) = Some r" and "active r"
    and "re_write env 0" and "re_write env 1"
  shows "rolloutTick env now p f = after (wave_transition env now k
     (waveMembers (ro_Eligible r) (ro_Waves r ! ro_WaveIdx r)) r (f(k := pinned r (f k))))"
  using assms by (simp add: rolloutTick_def loadRollout_def write_setting_def pinned_def Let_def)

definition healthy_env :: "ring_kind \<Rightarrow> Rollout \<Rightarrow> roll_env \<Rightarrow> bool" where
  "healthy_env k r env \<longleftrightarrow> re_load env \<and> (\<forall>i. re_write env i) \<and>
     (\<forall>n. ring_blockers k env (take n (ro_Eligible r)) (ro_Target r) = [])"

lemma healthy_wave:
  assumes "healthy_env k r env" and "rollout_ok now k r"
  shows "ring_blockers k env (waveMembers (ro_Eligible r) (ro_Waves r ! ro_WaveIdx r)) (ro_Target r) = []"
  using assms waves_ok_nth [of "ro_Waves r" "ro_WaveIdx r"]
  by (simp add: healthy_env_def rollout_ok_def waveMembers_take)

lemma healthy_tick_starts_soak:
  assumes "healthy_env k r env" and "rollout_ok now k r" and "ringForProduct p = Some k"
    and "rs_rollout (f k) = Some r" and "active r" and "ro_HealthySince r = 0"
  shows "rolloutTick env now p f = f(k := (pinned r (f k))\<lparr>rs_rollout :=
     Some (r\<lparr>ro_Blockers := [], ro_HealthySince := now, ro_UpdatedUnix := now\<rparr>)\<rparr>)"
  using assms healthy_wave [OF assms(1,2)]
  by (simp add: tick_pins healthy_env_def wave_transition_def rollout_ok_def save_ok)

lemma healthy_tick_advances:
  assumes "healthy_env k r env" and "rollout_ok now k r" and "ringForProduct p = Some k"
    and "rs_rollout (f k) = Some r" and "active r" and "ro_HealthySince r \<noteq> 0"
    and "ro_SoakSeconds r \<le> now - ro_HealthySince r" and "Suc (ro_WaveIdx r) < length (ro_Waves r)"
  shows "rolloutTick env now p f = f(k := (pinned r (f k))\<lparr>rs_rollout :=
     Some (r\<lparr>ro_Blockers := [], ro_WaveIdx := Suc (ro_WaveIdx r), ro_WaveEnteredUnix := now,
       ro_HealthySince := 0, ro_UpdatedUnix := now\<rparr>)\<rparr>)"
proof -
  have "\<not> 100 \<le> ro_Waves r ! ro_WaveIdx r"
    using assms(2,8) waves_ok_last [of "ro_Waves r" "ro_WaveIdx r"] by (simp add: rollout_ok_def)
  then show ?thesis
    using assms healthy_wave [OF assms(1,2)]
    by (simp add: tick_pins healthy_env_def wave_transition_def rollout_ok_def save_ok)
qed

lemma healthy_tick_finishes:
  assumes "healthy_env k r env" and "rollout_ok now k r" and "ringForProduct p = Some k"
    and "rs_rollout (f k) = Some r" and "active r" and "ro_HealthySince r \<noteq> 0"
    and "ro_SoakSeconds r \<le> now - ro_HealthySince r" and "Suc (ro_WaveIdx r) = length (ro_Waves r)"
  shows "rolloutTick env now p f = f(k := (f k)\<lparr>rs_stable := ro_Target r, rs_canaryNodes := [], rs_canary := [],
     rs_rollout := Some (r\<lparr>ro_State := RolloutDone, ro_Blockers := [], ro_UpdatedUnix := now\<rparr>)\<rparr>)"
proof -
  have "100 \<le> ro_Waves r ! ro_WaveIdx r"
    using assms(2,8) waves_ok_last [of "ro_Waves r" "ro_WaveIdx r"] by (simp add: rollout_ok_def)
  moreover have "ring_blockers k env (ro_Eligible r) (ro_Target r) = []"
    using assms(1) by (auto simp: healthy_env_def dest: spec [of _ "length (ro_Eligible r)"])
  ultimately show ?thesis
    using assms healthy_wave [OF assms(1,2)]
    by (simp add: tick_pins healthy_env_def wave_transition_def rollout_ok_def save_ok finalizeRollout_def
        write_setting_def pinned_def)
qed


section \<open>Properties\<close>

definition roll_fleet :: "string \<Rightarrow> fleet" where
  "roll_fleet v = (\<lambda>_. \<lparr>rs_stable = v, rs_canary = [], rs_canaryNodes = [], rs_rollout = None, rs_auto = False\<rparr>)"

definition roll_healthy :: roll_env where
  "roll_healthy = \<lparr>re_clock = 0, re_presence = None,
     re_registry = \<lambda>_. Some \<lparr>al_version = ''v2'', al_healthy = True, al_lastSeen = 0\<rparr>,
     re_relays = None, re_nodes = Some [''n1'', ''n2''], re_manifest = \<lambda>_. ''m'', re_os = [], re_arch = [],
     re_load = True, re_settings = True, re_write = \<lambda>_. True\<rparr>"

definition roll_demo :: Rollout where
  "roll_demo = new_rollout [] ''v2'' [50, 100] 30 60 TriggerAdmin ''op'' ''v1'' [''n1'', ''n2''] 1"

lemma roll_live: "agentLivenessMap roll_healthy nodes x =
    (if x \<in> set nodes then Some \<lparr>al_version = ''v2'', al_healthy = True, al_lastSeen = 0\<rparr> else None)"
proof -
  have "foldl (\<lambda>m x. m(x \<mapsto> i)) m nodes x = (if x \<in> set nodes then Some i else m x)"
    for m :: "string \<rightharpoonup> agentLive" and i
    by (induction nodes arbitrary: m) auto
  then show ?thesis by (simp add: agentLivenessMap_def roll_healthy_def)
qed

lemma roll_unblocked: "ring_blockers AgentRing roll_healthy nodes ''v2'' = []"
  by (simp add: ring_blockers_def canaryBlockers_def agent_blockers_empty roll_live)
     (simp add: roll_healthy_def canaryHeartbeatFresh_def)

lemma roll_healthy_env: "ro_Target r = ''v2'' \<Longrightarrow> healthy_env AgentRing r roll_healthy"
  using roll_unblocked by (simp add: healthy_env_def) (simp add: roll_healthy_def)

definition roll_once :: Rollout where
  "roll_once = (new_rollout [] ''v2'' [100] 1 0 TriggerAdmin ''op'' ''v1'' (hashOrder [''n1'', ''n2'']) 1)\<lparr>ro_UpdatedUnix := 1\<rparr>"

lemma roll_once_start:
  "startRollout roll_healthy 1 [] ''v2'' [100] 1 0 TriggerAdmin ''op'' (roll_fleet ''v1'') =
     (roll_fleet ''v1'')(AgentRing := (roll_fleet ''v1'' AgentRing)\<lparr>rs_rollout := Some roll_once\<rparr>)"
  by (simp add: startRollout_def ringForProduct_def roll_healthy_def roll_fleet_def normalizeWaves_def
      eligibleFleet_def saveRollout_def write_setting_def roll_once_def new_rollout_def)

lemma roll_once_ok: "rollout_ok 2 AgentRing roll_once"
  by (simp add: roll_once_def new_rollout_def rollout_ok_def ringForProduct_def waves_ok_def)

lemma roll_once_views:
  "ro_Target roll_once = ''v2''" "active roll_once" "ro_HealthySince roll_once = 0"
  "ro_Waves roll_once = [100]" "ro_WaveIdx roll_once = 0" "ro_SoakSeconds roll_once = 1"
  "ro_CreatedUnix roll_once = 1"
  by (simp_all add: roll_once_def new_rollout_def active_def)

lemma roll_once_soak:
  "rolloutTick roll_healthy 2 [] ((roll_fleet ''v1'')(AgentRing := (roll_fleet ''v1'' AgentRing)\<lparr>rs_rollout := Some roll_once\<rparr>)) =
   (roll_fleet ''v1'')(AgentRing := (pinned roll_once ((roll_fleet ''v1'' AgentRing)\<lparr>rs_rollout := Some roll_once\<rparr>))
     \<lparr>rs_rollout := Some (roll_once\<lparr>ro_Blockers := [], ro_HealthySince := 2, ro_UpdatedUnix := 2\<rparr>)\<rparr>)"
  by (subst healthy_tick_starts_soak [where k = AgentRing and r = roll_once])
     (simp_all add: roll_once_ok roll_healthy_env ringForProduct_def roll_once_views)





text \<open>
  C24: A tick of an active rollout, with its writes succeeding, leaves one of three pictures of the
  fleet.  While the rollout is not over, exactly the members of the wave it was in are told to run the
  target and everyone else the stable version.  If it aborted, everyone is told to run the unchanged
  stable version.  If it completed, everyone is told to run the target.
\<close>

theorem tick_confines_the_target_to_the_wave:
  assumes k: "ringForProduct p = Some k" and r: "rs_rollout (f k) = Some r" "active r"
    and prod: "ringForProduct (ro_Product r) = Some k" and v: "ro_Target r \<noteq> []"
    and io: "re_load env" "\<And>i. re_write env i"
    and r': "rs_rollout (rolloutTick env now p f k) = Some r'"
  shows "let s = rolloutTick env now p f k; desired = resolveDesired (rs_stable s) (rs_canary s) (rs_canaryNodes s) in
     if ro_State r' = RolloutDone then desired x = ro_Target r
     else if ro_State r' = RolloutAborted then desired x = rs_stable (f k)
     else desired x = (if x \<in> set (waveMembers (ro_Eligible r) (ro_Waves r ! ro_WaveIdx r))
                       then ro_Target r else rs_stable (f k))"
proof -
  define f1 where "f1 = f(k := pinned r (f k))"
  define ms where "ms = waveMembers (ro_Eligible r) (ro_Waves r ! ro_WaveIdx r)"
  have tick: "rolloutTick env now p f = after (wave_transition env now k ms r f1)"
    using tick_pins [where f = f and r = r, OF k io(1) r] io(2) by (simp add: ms_def f1_def)
  have f1: "rs_stable (f1 k) = rs_stable (f k)" "rs_canary (f1 k) = ro_Target r" "rs_canaryNodes (f1 k) = ms"
    by (simp_all add: f1_def pinned_def ms_def)
  have act: "ro_State r = RolloutActive" using r by (simp add: active_def)
  note defs = wave_transition_def failWave_def finalizeRollout_def revertRing_def save_ok write_setting_def Let_def
  show ?thesis
    using r' io(2) prod v act f1
    unfolding tick ms_def [symmetric]
    by (auto simp: defs resolveDesired_def split: if_splits)
qed

theorem tick_confines_the_target_to_the_wave_witness:
  "let f = (roll_fleet ''v1'')(AgentRing := (roll_fleet ''v1'' AgentRing)\<lparr>rs_rollout := Some roll_demo\<rparr>);
       s = rolloutTick roll_healthy 5 [] f AgentRing
   in resolveDesired (rs_stable s) (rs_canary s) (rs_canaryNodes s) ''n1'' = ''v2'' \<and>
      resolveDesired (rs_stable s) (rs_canary s) (rs_canaryNodes s) ''n2'' = ''v1''"
proof -
  let ?f = "(roll_fleet ''v1'')(AgentRing := (roll_fleet ''v1'' AgentRing)\<lparr>rs_rollout := Some roll_demo\<rparr>)"
  have ok: "rollout_ok 5 AgentRing roll_demo" "active roll_demo" "ro_Target roll_demo = ''v2''"
    "ro_HealthySince roll_demo = 0" "ro_State roll_demo = RolloutActive"
    "ringForProduct (ro_Product roll_demo) = Some AgentRing"
    "waveMembers (ro_Eligible roll_demo) (ro_Waves roll_demo ! ro_WaveIdx roll_demo) = [''n1'']"
    by (simp_all add: roll_demo_def new_rollout_def rollout_ok_def ringForProduct_def waves_ok_def active_def
        waveMembers_def)
  have p: "ringForProduct [] = Some AgentRing" by (simp add: ringForProduct_def)
  have io: "re_load roll_healthy" "re_write roll_healthy i" for i by (simp_all add: roll_healthy_def)
  have f: "rs_rollout (?f AgentRing) = Some roll_demo" "rs_stable (?f AgentRing) = ''v1''"
    by (simp_all add: roll_fleet_def)
  have after: "rs_rollout (rolloutTick roll_healthy 5 [] ?f AgentRing) =
      Some (roll_demo\<lparr>ro_Blockers := [], ro_HealthySince := 5, ro_UpdatedUnix := 5\<rparr>)"
    by (subst healthy_tick_starts_soak [where k = AgentRing and r = roll_demo])
       (use ok p roll_healthy_env in simp_all)
  show ?thesis
    using tick_confines_the_target_to_the_wave [where f = ?f, OF p f(1) ok(2,6) _ io after, of "''n1''"]
      tick_confines_the_target_to_the_wave [where f = ?f, OF p f(1) ok(2,6) _ io after, of "''n2''"]
    unfolding Let_def f(2) by (simp add: ok)
qed


text \<open>
  The waves of an accepted wave list are nested.  Each wave is a prefix of every later one, holds
  the given percentage of the fleet rounded up, and the last wave is the whole fleet.
\<close>

theorem waves_are_nested_prefixes:
  assumes ws: "normalizeWaves ws = Some out" and ij: "i \<le> j" "j < length out"
  shows "(\<exists>rest. waveMembers eligible (out ! j) = waveMembers eligible (out ! i) @ rest) \<and>
     waveMembers eligible (out ! i) = take (nat ((out ! i * int (length eligible) + 99) div 100)) eligible \<and>
     waveMembers eligible (last out) = eligible"
proof -
  have ok: "waves_ok out" using ws by (rule normalizeWaves_ok)
  have m: "waveMembers eligible (out ! n) = take (nat ((out ! n * int (length eligible) + 99) div 100)) eligible"
    if "n < length out" for n
    using waves_ok_nth [OF ok that] by (simp add: waveMembers_take)
  have "out ! i \<le> out ! j"
    using waves_ok_less [OF ok, of i j] ij by (cases "i = j") auto
  then have "out ! i * int (length eligible) \<le> out ! j * int (length eligible)"
    by (simp add: mult_right_mono)
  then have "(out ! i * int (length eligible) + 99) div 100 \<le> (out ! j * int (length eligible) + 99) div 100"
    by (intro zdiv_mono1) auto
  then have le: "nat ((out ! i * int (length eligible) + 99) div 100) \<le> nat ((out ! j * int (length eligible) + 99) div 100)"
    by (rule nat_mono)
  have "take b eligible = take a eligible @ take (b - a) (drop a eligible)" if "a \<le> b" for a b
    using that by (metis le_add_diff_inverse take_add)
  from this [OF le] have "\<exists>rest. waveMembers eligible (out ! j) = waveMembers eligible (out ! i) @ rest"
    using m ij by auto
  moreover have "last out = 100" using ok by (simp add: waves_ok_def)
  ultimately show ?thesis using m [of i] ij by (simp add: waveMembers_all)
qed

theorem waves_are_nested_prefixes_witness:
  "waveMembers [''a'', ''b'', ''c''] 10 = [''a''] \<and> waveMembers [''a'', ''b'', ''c''] (last [10, 50, 100]) = [''a'', ''b'', ''c'']"
  using waves_are_nested_prefixes [of "[]" "[10, 50, 100]" 0 1 "[''a'', ''b'', ''c'']"]
  by (simp add: normalizeWaves_def defaultWaves_def)

text \<open>A wave of a healthy fleet: one tick starts the soak, the next one finishes the rollout or enters the next wave.\<close>

definition wave_begun :: "ring_kind \<Rightarrow> int \<Rightarrow> fleet \<Rightarrow> Rollout \<Rightarrow> bool" where
  "wave_begun k now f r \<longleftrightarrow>
     rollout_ok now k r \<and> rs_rollout (f k) = Some r \<and> active r \<and> ro_HealthySince r = 0 \<and> 0 < now"

lemma healthy_wave_soaks:
  fixes d1 :: nat
  assumes "wave_begun k now f r" and p: "ringForProduct p = Some k" and h: "healthy_env k r e1" "healthy_env k r e2"
    and d: "ro_SoakSeconds r \<le> int d2"
  defines "t1 \<equiv> now + int d1"
  defines "r1 \<equiv> r\<lparr>ro_Blockers := [], ro_HealthySince := t1, ro_UpdatedUnix := t1\<rparr>"
  shows "rolloutTick e1 t1 p f = f(k := (pinned r (f k))\<lparr>rs_rollout := Some r1\<rparr>)"
    and "rollout_ok (t1 + int d2) k r1" and "active r1" and "ro_HealthySince r1 \<noteq> 0" and "healthy_env k r1 e2"
    and "ro_SoakSeconds r1 \<le> t1 + int d2 - ro_HealthySince r1"
proof -
  from assms(1) have w: "rollout_ok now k r" "rs_rollout (f k) = Some r" "active r" "ro_HealthySince r = 0" "0 < now"
    by (simp_all add: wave_begun_def)
  have ok1: "rollout_ok t1 k r" using rollout_ok_later [OF w(1)] by (simp add: t1_def)
  show "rolloutTick e1 t1 p f = f(k := (pinned r (f k))\<lparr>rs_rollout := Some r1\<rparr>)"
    using healthy_tick_starts_soak [where f = f, OF h(1) ok1 p w(2-4)] by (simp add: r1_def t1_def)
  show "rollout_ok (t1 + int d2) k r1" using ok1 w(5) by (auto simp: rollout_ok_def r1_def t1_def)
  show "active r1" "ro_HealthySince r1 \<noteq> 0" "healthy_env k r1 e2" "ro_SoakSeconds r1 \<le> t1 + int d2 - ro_HealthySince r1"
    using w h d by (simp_all add: r1_def t1_def active_def healthy_env_def)
qed

lemma healthy_last_wave:
  assumes "wave_begun k now f r" and "ringForProduct p = Some k" and "healthy_env k r e1" and "healthy_env k r e2"
    and "ro_SoakSeconds r \<le> int d2" and "Suc (ro_WaveIdx r) = length (ro_Waves r)"
  shows "let s = snd (foldl roll_step (now, f) [(d1, e1, Tick p), (d2, e2, Tick p)]) k in
     rs_stable s = ro_Target r \<and> rs_canaryNodes s = [] \<and> rs_canary s = [] \<and>
     (\<exists>r'. rs_rollout s = Some r' \<and> ro_State r' = RolloutDone)"
proof -
  note s = healthy_wave_soaks [OF assms(1-5), of d1]
  show ?thesis
    using healthy_tick_finishes [OF s(5,2) assms(2) _ s(3,4,6)] assms(6) by (simp add: s(1))
qed

lemma healthy_wave_advances:
  assumes "wave_begun k now f r" and "ringForProduct p = Some k" and "healthy_env k r e1" and "healthy_env k r e2"
    and "ro_SoakSeconds r \<le> int d2" and "Suc (ro_WaveIdx r) < length (ro_Waves r)"
  obtains t2 f2 r2 where "foldl roll_step (now, f) [(d1, e1, Tick p), (d2, e2, Tick p)] = (t2, f2)"
    and "wave_begun k t2 f2 r2" and "ro_WaveIdx r2 = Suc (ro_WaveIdx r)" and "ro_Waves r2 = ro_Waves r"
    and "ro_Target r2 = ro_Target r" and "ro_SoakSeconds r2 = ro_SoakSeconds r" and "\<And>env. healthy_env k r env \<Longrightarrow> healthy_env k r2 env"
proof -
  note s = healthy_wave_soaks [OF assms(1-5), of d1]
  define t2 where "t2 = now + int d1 + int d2"
  define r1 where "r1 = r\<lparr>ro_Blockers := [], ro_HealthySince := now + int d1, ro_UpdatedUnix := now + int d1\<rparr>"
  define r2 where "r2 = r1\<lparr>ro_Blockers := [], ro_WaveIdx := Suc (ro_WaveIdx r1), ro_WaveEnteredUnix := t2,
     ro_HealthySince := 0, ro_UpdatedUnix := t2\<rparr>"
  define f1 where "f1 = f(k := (pinned r (f k))\<lparr>rs_rollout := Some r1\<rparr>)"
  define f2 where "f2 = f1(k := (pinned r1 (f1 k))\<lparr>rs_rollout := Some r2\<rparr>)"
  have "rolloutTick e2 t2 p f1 = f2"
    using healthy_tick_advances [where f = f1, OF s(5,2) assms(2) _ s(3,4,6)] assms(6)
    by (simp add: f2_def r2_def r1_def f1_def t2_def)
  then have "foldl roll_step (now, f) [(d1, e1, Tick p), (d2, e2, Tick p)] = (t2, f2)"
    using s(1) by (simp add: r1_def f1_def t2_def)
  moreover have "wave_begun k t2 f2 r2"
    using assms(1,5,6) s(2) by (auto simp: wave_begun_def rollout_ok_def r2_def r1_def f2_def t2_def active_def algebra_simps)
  ultimately show ?thesis by (rule that) (simp_all add: r2_def r1_def healthy_env_def)
qed




end
