(* ===== verification/Json.thy ===== *)
theory Json
  imports Go_Std
begin

text \<open>
  What the program uses of \<open>encoding/json\<close>: the encoder of strings, integers and objects and the whole
  decoder grammar, on bytes.  The encoder replaces a byte that is not part of valid UTF-8 by the six
  characters of the escape of U+FFFD, and escapes the characters HTML treats specially; the decoder turns
  every escape and every invalid byte into the bytes of the character.  \<open>parse_print\<close> says what a value
  reads back as: itself, with the invalid bytes of its strings replaced.
\<close>

section \<open>UTF-8\<close>

abbreviation byte :: "char \<Rightarrow> nat" where "byte c \<equiv> of_char c"

abbreviation dquote :: char where "dquote \<equiv> CHR 0x22"
abbreviation bslash :: char where "bslash \<equiv> CHR 0x5C"

definition cont_byte :: "nat \<Rightarrow> nat \<Rightarrow> char \<Rightarrow> bool" where
  "cont_byte lo hi c \<longleftrightarrow> lo \<le> byte c \<and> byte c \<le> hi"

text \<open>The second byte is restricted after four of the lead bytes.\<close>

definition lead_lo :: "nat \<Rightarrow> nat" where
  "lead_lo b = (if b = 0xE0 then 0xA0 else if b = 0xF0 then 0x90 else 0x80)"

definition lead_hi :: "nat \<Rightarrow> nat" where
  "lead_hi b = (if b = 0xED then 0x9F else if b = 0xF4 then 0x8F else 0xBF)"

text \<open>The size of the character a string starts with, 0 when its first byte starts none (\<open>utf8.DecodeRune\<close>).\<close>

fun utf8_len :: "string \<Rightarrow> nat" where
  "utf8_len [] = 0"
| "utf8_len (c # cs) =
     (let b = byte c in
      if b < 0x80 then 1
      else if 0xC2 \<le> b \<and> b \<le> 0xDF then
        (case cs of c1 # _ \<Rightarrow> if cont_byte 0x80 0xBF c1 then 2 else 0 | _ \<Rightarrow> 0)
      else if 0xE0 \<le> b \<and> b \<le> 0xEF then
        (case cs of c1 # c2 # _ \<Rightarrow>
           if cont_byte (lead_lo b) (lead_hi b) c1 \<and>
              cont_byte 0x80 0xBF c2 then 3 else 0
         | _ \<Rightarrow> 0)
      else if 0xF0 \<le> b \<and> b \<le> 0xF4 then
        (case cs of c1 # c2 # c3 # _ \<Rightarrow>
           if cont_byte (lead_lo b) (lead_hi b) c1 \<and>
              cont_byte 0x80 0xBF c2 \<and> cont_byte 0x80 0xBF c3 then 4 else 0
         | _ \<Rightarrow> 0)
      else 0)"

definition utf8_EncodeRune :: "nat \<Rightarrow> string" where
  "utf8_EncodeRune r =
     (if r < 0x80 then [char_of r]
      else if r < 0x800 then [char_of (0xC0 + r div 0x40), char_of (0x80 + r mod 0x40)]
      else if r < 0x10000 then
        [char_of (0xE0 + r div 0x1000), char_of (0x80 + r div 0x40 mod 0x40), char_of (0x80 + r mod 0x40)]
      else
        [char_of (0xF0 + r div 0x40000), char_of (0x80 + r div 0x1000 mod 0x40),
         char_of (0x80 + r div 0x40 mod 0x40), char_of (0x80 + r mod 0x40)])"

definition rune_error :: string where
  "rune_error = [CHR 0xEF, CHR 0xBF, CHR 0xBD]"

lemma utf8_len_le: "utf8_len s \<le> length s"
  by (cases s) (auto simp: Let_def split: list.split)

text \<open>The shapes of a character.\<close>

lemma utf8_len_cases:
  assumes "0 < utf8_len (c # cs)"
  obtains (1) "byte c < 0x80" "utf8_len (c # cs) = 1"
  | (2) c1 r where "0xC2 \<le> byte c" "byte c \<le> 0xDF" "cs = c1 # r" "cont_byte 0x80 0xBF c1" "utf8_len (c # cs) = 2"
  | (3) c1 c2 r where "0xE0 \<le> byte c" "byte c \<le> 0xEF" "cs = c1 # c2 # r"
      "cont_byte (lead_lo (byte c)) (lead_hi (byte c)) c1" "cont_byte 0x80 0xBF c2" "utf8_len (c # cs) = 3"
  | (4) c1 c2 c3 r where "0xF0 \<le> byte c" "byte c \<le> 0xF4" "cs = c1 # c2 # c3 # r"
      "cont_byte (lead_lo (byte c)) (lead_hi (byte c)) c1" "cont_byte 0x80 0xBF c2" "cont_byte 0x80 0xBF c3"
      "utf8_len (c # cs) = 4"
proof -
  consider "byte c < 0x80" | "0xC2 \<le> byte c" "byte c \<le> 0xDF" | "0xE0 \<le> byte c" "byte c \<le> 0xEF"
    | "0xF0 \<le> byte c" "byte c \<le> 0xF4"
    using assms by (simp add: Let_def split: if_splits)
  then show ?thesis
  proof cases
    case 1
    then show ?thesis using that(1) by simp
  next
    case c: 2
    with assms that(2) show ?thesis by (cases cs) (simp_all add: Let_def split: if_splits)
  next
    case c: 3
    with assms that(3) show ?thesis by (cases cs; cases "tl cs") (simp_all add: Let_def split: if_splits)
  next
    case c: 4
    with assms that(4) show ?thesis
      by (cases cs; cases "tl cs"; cases "tl (tl cs)") (simp_all add: Let_def split: if_splits)
  qed
qed

lemma utf8_len_prefix:
  assumes "0 < utf8_len (c # cs)"
  shows "utf8_len (take (utf8_len (c # cs)) (c # cs) @ t) = utf8_len (c # cs)"
  using assms by (cases rule: utf8_len_cases) (simp_all add: Let_def)

lemma utf8_len_high:
  assumes "0 < utf8_len (c # cs)" and "0x80 \<le> byte c" and "x \<in> set (take (utf8_len (c # cs)) (c # cs))"
  shows "0x80 \<le> byte x"
proof -
  have "0x80 \<le> lead_lo b" for b by (simp add: lead_lo_def)
  then have lead: "0x80 \<le> byte y" if "cont_byte (lead_lo b) h y" for b h y
    using that order_trans by (auto simp: cont_byte_def)
  from assms(1) show ?thesis
    by (cases rule: utf8_len_cases) (use assms(2,3) lead in \<open>auto simp: cont_byte_def\<close>)
qed

text \<open>Each byte that starts no character replaced by U+FFFD.\<close>

function sanitize :: "string \<Rightarrow> string" where
  "sanitize [] = []"
| "sanitize (c # cs) =
     (case utf8_len (c # cs) of
        0 \<Rightarrow> rune_error @ sanitize cs
      | Suc k \<Rightarrow> c # take k cs @ sanitize (drop k cs))"
  by pat_completeness auto
termination by (relation "measure length") auto

section \<open>Strings\<close>

definition hex_byte :: "nat \<Rightarrow> string" where
  "hex_byte b = [hex_digit (b div 16), hex_digit (b mod 16)]"

definition escape_ascii :: "char \<Rightarrow> string" where
  "escape_ascii c =
     (if c = bslash \<or> c = dquote then [bslash, c]
      else if c = CHR 0x08 then [bslash, CHR ''b'']
      else if c = CHR 0x0C then [bslash, CHR ''f'']
      else if c = CHR 0x0A then [bslash, CHR ''n'']
      else if c = CHR 0x0D then [bslash, CHR ''r'']
      else if c = CHR 0x09 then [bslash, CHR ''t'']
      else if byte c < 0x20 \<or> c \<in> {CHR ''<'', CHR ''>'', CHR ''&''} then bslash # ''u00'' @ hex_byte (byte c)
      else [c])"

text \<open>U+2028 and U+2029 are escaped, for the sake of JavaScript.\<close>

definition escape_rune :: "string \<Rightarrow> string" where
  "escape_rune r =
     (if r = [CHR 0xE2, CHR 0x80, CHR 0xA8] then bslash # ''u2028''
      else if r = [CHR 0xE2, CHR 0x80, CHR 0xA9] then bslash # ''u2029''
      else r)"

function json_escape :: "string \<Rightarrow> string" where
  "json_escape [] = []"
| "json_escape (c # cs) =
     (if byte c < 0x80 then escape_ascii c @ json_escape cs
      else case utf8_len (c # cs) of
        0 \<Rightarrow> bslash # ''ufffd'' @ json_escape cs
      | Suc k \<Rightarrow> escape_rune (c # take k cs) @ json_escape (drop k cs))"
  by pat_completeness auto
termination by (relation "measure length") auto

definition hex_value :: "char \<Rightarrow> nat option" where
  "hex_value c =
     (let b = byte c in
      if 48 \<le> b \<and> b \<le> 57 then Some (b - 48)
      else if 97 \<le> b \<and> b \<le> 102 then Some (b - 87)
      else if 65 \<le> b \<and> b \<le> 70 then Some (b - 55)
      else None)"

fun hex4 :: "string \<Rightarrow> nat option" where
  "hex4 (a # b # c # d # _) =
     (case (hex_value a, hex_value b, hex_value c, hex_value d) of
        (Some x, Some y, Some z, Some w) \<Rightarrow> Some (((x * 16 + y) * 16 + z) * 16 + w)
      | _ \<Rightarrow> None)"
| "hex4 _ = None"

definition simple_escape :: "char \<Rightarrow> char option" where
  "simple_escape c =
     (if c \<in> {dquote, bslash, CHR ''/''} then Some c
      else if c = CHR ''b'' then Some (CHR 0x08)
      else if c = CHR ''f'' then Some (CHR 0x0C)
      else if c = CHR ''n'' then Some (CHR 0x0A)
      else if c = CHR ''r'' then Some (CHR 0x0D)
      else if c = CHR ''t'' then Some (CHR 0x09)
      else None)"

text \<open>The second half of a surrogate pair, read from what follows the first.\<close>

definition surrogate_pair :: "nat \<Rightarrow> string \<Rightarrow> nat option" where
  "surrogate_pair r s =
     (if 0xD800 \<le> r \<and> r < 0xDC00 \<and> take 2 s = [bslash, CHR ''u''] then
        (case hex4 (drop 2 s) of
           Some r2 \<Rightarrow>
             if 0xDC00 \<le> r2 \<and> r2 < 0xE000 then Some ((r - 0xD800) * 0x400 + (r2 - 0xDC00) + 0x10000) else None
         | None \<Rightarrow> None)
      else None)"

abbreviation prepend :: "string \<Rightarrow> (string \<times> 'a) option \<Rightarrow> (string \<times> 'a) option" where
  "prepend p \<equiv> map_option (apfst ((@) p))"

text \<open>An escape after its backslash: what it stands for and how many bytes it takes.\<close>

fun unescape :: "string \<Rightarrow> (string \<times> nat) option" where
  "unescape [] = None"
| "unescape (e # es) =
     (if e = CHR ''u'' then
        (case hex4 es of
           None \<Rightarrow> None
         | Some r \<Rightarrow>
             if 0xD800 \<le> r \<and> r < 0xE000 then
               (case surrogate_pair r (drop 4 es) of
                  Some x \<Rightarrow> Some (utf8_EncodeRune x, 11)
                | None \<Rightarrow> Some (rune_error, 5))
             else Some (utf8_EncodeRune r, 5))
      else map_option (\<lambda>x. ([x], 1)) (simple_escape e))"

text \<open>A string literal after its opening quote: its value and what follows the closing quote.\<close>

function parse_str :: "string \<Rightarrow> (string \<times> string) option" where
  "parse_str [] = None"
| "parse_str (c # cs) =
     (if c = dquote then Some ([], cs)
      else if c = bslash then
        (case unescape cs of
           None \<Rightarrow> None
         | Some (x, n) \<Rightarrow> prepend x (parse_str (drop n cs)))
      else if byte c < 0x20 then None
      else
        (case utf8_len (c # cs) of
           0 \<Rightarrow> prepend rune_error (parse_str cs)
         | Suc k \<Rightarrow> prepend (c # take k cs) (parse_str (drop k cs))))"
  by pat_completeness auto
termination by (relation "measure length") auto

declare sanitize.simps(2) [simp del] json_escape.simps(2) [simp del] parse_str.simps(2) [simp del]

lemma hex_value_digit [simp]: "n < 16 \<Longrightarrow> hex_value (hex_digit n) = Some n"
  by (auto simp: hex_value_def hex_digit_def Let_def)

lemma hex_value_code [simp]:
  "hex_value (CHR ''0'') = Some 0" "hex_value (CHR ''2'') = Some 2" "hex_value (CHR ''8'') = Some 8"
  "hex_value (CHR ''9'') = Some 9" "hex_value (CHR ''f'') = Some 15" "hex_value (CHR ''d'') = Some 13"
  by (simp_all add: hex_value_def)

lemma byte_div16 [simp]: "byte c div 16 < 16"
  using nat_of_char_less_256 [of c] by (simp add: less_mult_imp_div_less)

lemma parse_raw:
  assumes "c \<noteq> dquote" and "c \<noteq> bslash" and "0x20 \<le> byte c" and "utf8_len (c # cs) = Suc k"
  shows "parse_str (c # cs) = prepend (c # take k cs) (parse_str (drop k cs))"
  using assms by (simp add: parse_str.simps(2) del: utf8_len.simps)

lemma parse_u4:
  assumes "hex4 es = Some r" and "r < 0xD800 \<or> 0xE000 \<le> r"
  shows "parse_str (bslash # CHR ''u'' # es) = prepend (utf8_EncodeRune r) (parse_str (drop 4 es))"
  using assms by (auto simp: parse_str.simps(2))

lemma parse_simple: "e \<noteq> CHR ''u'' \<Longrightarrow> simple_escape e = Some x \<Longrightarrow> parse_str (bslash # e # s) = prepend [x] (parse_str s)"
  by (simp add: parse_str.simps(2))

definition named_escape :: "char \<Rightarrow> bool" where
  "named_escape c \<longleftrightarrow> c \<in> {bslash, dquote, CHR 0x08, CHR 0x0C, CHR 0x0A, CHR 0x0D, CHR 0x09}"

lemma escape_ascii_alt:
  "\<not> named_escape c \<Longrightarrow> escape_ascii c =
     (if byte c < 0x20 \<or> c \<in> {CHR ''<'', CHR ''>'', CHR ''&''} then bslash # ''u00'' @ hex_byte (byte c) else [c])"
  by (simp add: escape_ascii_def named_escape_def)

lemma parse_named_escape: "named_escape c \<Longrightarrow> parse_str (escape_ascii c @ s) = prepend [c] (parse_str s)"
  unfolding named_escape_def by (elim insertE emptyE; simp add: escape_ascii_def parse_simple simple_escape_def)

lemma parse_hex_escape:
  assumes "byte c < 0x80"
  shows "parse_str (bslash # ''u00'' @ hex_byte (byte c) @ s) = prepend [c] (parse_str s)"
proof -
  have "hex4 (''00'' @ hex_byte (byte c) @ s) = Some (byte c)" by (simp add: hex_byte_def)
  then show ?thesis
    using assms parse_u4 [of "''00'' @ hex_byte (byte c) @ s" "byte c"]
    by (simp add: utf8_EncodeRune_def hex_byte_def)
qed

lemma parse_escape_ascii:
  assumes "byte c < 0x80"
  shows "parse_str (escape_ascii c @ s) = prepend [c] (parse_str s)"
proof (cases "named_escape c")
  case False
  show ?thesis
  proof (cases "byte c < 0x20 \<or> c \<in> {CHR ''<'', CHR ''>'', CHR ''&''}")
    case True
    then show ?thesis unfolding escape_ascii_alt [OF False] using parse_hex_escape [OF assms] by simp
  next
    case plain: False
    then have "c \<noteq> dquote" "c \<noteq> bslash" using False by (auto simp: named_escape_def)
    with plain assms parse_raw [of c s 0] show ?thesis unfolding escape_ascii_alt [OF False] by simp
  qed
qed (rule parse_named_escape)

lemma EncodeRune_special:
  "utf8_EncodeRune 0x2028 = [CHR 0xE2, CHR 0x80, CHR 0xA8]" "utf8_EncodeRune 0x2029 = [CHR 0xE2, CHR 0x80, CHR 0xA9]"
  "utf8_EncodeRune 0xFFFD = rune_error"
  by (simp_all add: utf8_EncodeRune_def rune_error_def char_of_eq_iff)

lemma parse_escape_rune:
  assumes n: "utf8_len (c # cs) = Suc k" and c: "0x80 \<le> byte c"
  shows "parse_str (escape_rune (c # take k cs) @ s) = prepend (c # take k cs) (parse_str s)"
proof (cases "escape_rune (c # take k cs) = c # take k cs")
  case True
  have "k \<le> length cs" using utf8_len_le [of "c # cs"] n by simp
  moreover have "utf8_len (c # take k cs @ s) = Suc k"
    using utf8_len_prefix [of c cs s] n by (simp del: utf8_len.simps)
  moreover have "c \<noteq> dquote" "c \<noteq> bslash" "0x20 \<le> byte c" using c by auto
  ultimately show ?thesis unfolding True using parse_raw [of c "take k cs @ s" k] by simp
next
  case False
  then consider "c # take k cs = [CHR 0xE2, CHR 0x80, CHR 0xA8]" | "c # take k cs = [CHR 0xE2, CHR 0x80, CHR 0xA9]"
    by (auto simp: escape_rune_def split: if_splits)
  then show ?thesis
  proof cases
    case 1
    have "hex4 (''2028'' @ s) = Some 0x2028" by simp
    from parse_u4 [OF this] show ?thesis unfolding 1 by (simp add: escape_rune_def EncodeRune_special)
  next
    case 2
    have "hex4 (''2029'' @ s) = Some 0x2029" by simp
    from parse_u4 [OF this] show ?thesis unfolding 2 by (simp add: escape_rune_def EncodeRune_special)
  qed
qed

lemma parse_escape_error: "parse_str (bslash # ''ufffd'' @ s) = prepend rune_error (parse_str s)"
proof -
  have "hex4 (''fffd'' @ s) = Some 0xFFFD" by simp
  from parse_u4 [OF this] show ?thesis by (simp add: EncodeRune_special)
qed

lemma map_option_prepend [simp]: "prepend p (Some (a, b)) = Some (p @ a, b)"
  by simp

text \<open>A string reads back with its invalid bytes replaced.\<close>

lemma parse_str_escape: "parse_str (json_escape s @ dquote # rest) = Some (sanitize s, rest)"
proof (induction s rule: json_escape.induct)
  case 1
  show ?case by (simp add: parse_str.simps(2))
next
  case (2 c cs)
  show ?case
  proof (cases "byte c < 0x80")
    case True
    then have "sanitize (c # cs) = c # sanitize cs" by (simp add: sanitize.simps(2))
    with True 2(1) show ?thesis by (simp add: json_escape.simps(2) parse_escape_ascii)
  next
    case False
    then show ?thesis
    proof (cases "utf8_len (c # cs)")
      case 0
      with False 2(2) parse_escape_error [of "json_escape cs @ dquote # rest"] show ?thesis
        by (simp add: json_escape.simps(2) sanitize.simps(2) del: utf8_len.simps)
    next
      case (Suc k)
      with False 2(3) parse_escape_rune [OF Suc] show ?thesis
        by (simp add: json_escape.simps(2) sanitize.simps(2) del: utf8_len.simps)
    qed
  qed
qed

text \<open>An encoded string never holds a line break, so a record stays on one line.\<close>

lemma escape_ascii_visible:
  assumes "x \<in> set (escape_ascii c)"
  shows "0x20 \<le> byte x"
proof (cases "named_escape c")
  case True
  then show ?thesis using assms unfolding named_escape_def by (elim insertE emptyE; auto simp: escape_ascii_def)
next
  case False
  have h: "0x20 \<le> byte (hex_digit n)" if "n < 16" for n using that by (simp add: hex_digit_def)
  show ?thesis using assms h unfolding escape_ascii_alt [OF False] by (auto simp: hex_byte_def split: if_splits)
qed

lemma json_escape_visible: "x \<in> set (json_escape s) \<Longrightarrow> 0x20 \<le> byte x"
proof (induction s rule: json_escape.induct)
  case (2 c cs)
  show ?case
  proof (cases "byte c < 0x80")
    case True
    with 2 escape_ascii_visible show ?thesis by (auto simp: json_escape.simps(2))
  next
    case False
    show ?thesis
    proof (cases "utf8_len (c # cs)")
      case 0
      with False 2 show ?thesis by (auto simp: json_escape.simps(2) simp del: utf8_len.simps)
    next
      case (Suc k)
      have "0x80 \<le> byte y" if "y \<in> set (c # take k cs)" for y
        using utf8_len_high [of c cs y] Suc False that by (simp del: utf8_len.simps)
      then have "0x20 \<le> byte y" if "y \<in> set (escape_rune (c # take k cs))" for y
        using that by (fastforce simp: escape_rune_def split: if_splits)
      with False Suc 2(3) [OF False Suc] 2(4) show ?thesis by (auto simp: json_escape.simps(2) simp del: utf8_len.simps)
    qed
  qed
qed simp

section \<open>Values\<close>

datatype jval =
    JNull
  | JBool bool
  | JNum string
  | JStr string
  | JArr "jval list"
  | JObj "(string \<times> jval) list"

definition json_space :: "char \<Rightarrow> bool" where
  "json_space c \<longleftrightarrow> c \<in> {CHR '' '', CHR 0x09, CHR 0x0A, CHR 0x0D}"

definition skip_ws :: "string \<Rightarrow> string" where
  "skip_ws s = dropWhile json_space s"

definition digit :: "char \<Rightarrow> bool" where
  "digit c \<longleftrightarrow> 48 \<le> byte c \<and> byte c \<le> 57"

text \<open>A nonempty run of digits.\<close>

definition digits1 :: "string \<Rightarrow> (string \<times> string) option" where
  "digits1 s = (case takeWhile digit s of [] \<Rightarrow> None | ds \<Rightarrow> Some (ds, dropWhile digit s))"

definition num_int :: "string \<Rightarrow> (string \<times> string) option" where
  "num_int s =
     (case s of
        c # cs \<Rightarrow> if c = CHR ''0'' then Some ([c], cs) else digits1 s
      | [] \<Rightarrow> None)"

definition num_frac :: "string \<Rightarrow> (string \<times> string) option" where
  "num_frac s =
     (case s of
        c # cs \<Rightarrow> if c = CHR ''.'' then prepend [c] (digits1 cs) else Some ([], s)
      | [] \<Rightarrow> Some ([], s))"

definition num_exp :: "string \<Rightarrow> (string \<times> string) option" where
  "num_exp s =
     (case s of
        c # cs \<Rightarrow>
          if c = CHR ''e'' \<or> c = CHR ''E'' then
            (case cs of
               d # ds \<Rightarrow> if d = CHR ''+'' \<or> d = CHR ''-'' then prepend [c, d] (digits1 ds) else prepend [c] (digits1 cs)
             | [] \<Rightarrow> None)
          else Some ([], s)
      | [] \<Rightarrow> Some ([], s))"

definition num_sign :: "string \<Rightarrow> string \<times> string" where
  "num_sign s = (case s of c # cs \<Rightarrow> if c = CHR ''-'' then ([c], cs) else ([], s) | [] \<Rightarrow> ([], s))"

definition parse_num :: "string \<Rightarrow> (string \<times> string) option" where
  "parse_num s =
     (let (m, s0) = num_sign s in
      case num_int s0 of
        None \<Rightarrow> None
      | Some (i, s1) \<Rightarrow>
          (case num_frac s1 of
             None \<Rightarrow> None
           | Some (f, s2) \<Rightarrow> map_option (\<lambda>(e, s3). (m @ i @ f @ e, s3)) (num_exp s2)))"

definition parse_lit :: "string \<Rightarrow> jval \<Rightarrow> string \<Rightarrow> (jval \<times> string) option" where
  "parse_lit w v s = (if take (length w) s = w then Some (v, drop (length w) s) else None)"

definition expect :: "char \<Rightarrow> string \<Rightarrow> string option" where
  "expect c s = (case skip_ws s of x # xs \<Rightarrow> if x = c then Some xs else None | [] \<Rightarrow> None)"

text \<open>
  The decoder.  \<open>d\<close> is the number of arrays and objects that may still be opened: \<open>encoding/json\<close>
  refuses more than 10000 of them nested.
\<close>

function
  parse_value :: "nat \<Rightarrow> string \<Rightarrow> (jval \<times> string) option" and
  parse_members :: "nat \<Rightarrow> string \<Rightarrow> ((string \<times> jval) list \<times> string) option" and
  parse_elems :: "nat \<Rightarrow> string \<Rightarrow> (jval list \<times> string) option"
where
  "parse_value d s =
     (case skip_ws s of
        [] \<Rightarrow> None
      | c # cs \<Rightarrow>
          if c = dquote then map_option (apfst JStr) (parse_str cs)
          else if c = CHR ''{'' then
            (if d = 0 then None
             else case expect (CHR ''}'') cs of
                 Some r \<Rightarrow> Some (JObj [], r)
               | None \<Rightarrow> map_option (apfst JObj) (parse_members (d - 1) cs))
          else if c = CHR ''['' then
            (if d = 0 then None
             else case expect (CHR '']'') cs of
                 Some r \<Rightarrow> Some (JArr [], r)
               | None \<Rightarrow> map_option (apfst JArr) (parse_elems (d - 1) cs))
          else if c = CHR ''t'' then parse_lit ''true'' (JBool True) (c # cs)
          else if c = CHR ''f'' then parse_lit ''false'' (JBool False) (c # cs)
          else if c = CHR ''n'' then parse_lit ''null'' JNull (c # cs)
          else map_option (apfst JNum) (parse_num (c # cs)))"
| "parse_members d s =
     (case Option.bind (expect dquote s) parse_str of
        None \<Rightarrow> None
      | Some (k, s1) \<Rightarrow>
          (case expect (CHR '':'') s1 of
             None \<Rightarrow> None
           | Some s2 \<Rightarrow>
               (case parse_value d s2 of
                  None \<Rightarrow> None
                | Some (v, s3) \<Rightarrow>
                    (case expect (CHR ''}'') s3 of
                       Some r \<Rightarrow> Some ([(k, v)], r)
                     | None \<Rightarrow>
                         (case expect (CHR '','') s3 of
                            None \<Rightarrow> None
                          | Some s4 \<Rightarrow> map_option (apfst (Cons (k, v))) (parse_members d s4))))))"
| "parse_elems d s =
     (case parse_value d s of
        None \<Rightarrow> None
      | Some (v, s1) \<Rightarrow>
          (case expect (CHR '']'') s1 of
             Some r \<Rightarrow> Some ([v], r)
           | None \<Rightarrow>
               (case expect (CHR '','') s1 of
                  None \<Rightarrow> None
                | Some s2 \<Rightarrow> map_option (apfst (Cons v)) (parse_elems d s2))))"
  by pat_completeness auto

text \<open>Every parser consumes something; for the decoder this is what makes it terminate.\<close>

lemma length_skip_ws: "length (skip_ws s) \<le> length s"
  by (simp add: skip_ws_def length_dropWhile_le)

lemma skip_ws_Cons_length: "skip_ws s = c # cs \<Longrightarrow> length cs < length s"
  using length_skip_ws [of s] by simp

lemma expect_length: "expect c s = Some r \<Longrightarrow> length r < length s"
  using length_skip_ws [of s] by (auto simp: expect_def split: list.splits if_splits)

lemma prepend_SomeD: "prepend p x = Some (v, r) \<Longrightarrow> \<exists>v'. x = Some (v', r)"
  by (cases x) auto

lemma parse_str_step:
  assumes "parse_str (c # cs) = Some (v, r)" and "c \<noteq> dquote"
  shows "\<exists>k v'. parse_str (drop k cs) = Some (v', r)"
proof (cases "c = bslash")
  case True
  with assms show ?thesis by (cases "unescape cs") (auto simp: parse_str.simps(2), blast)
next
  case False
  with assms show ?thesis
    by (cases "utf8_len (c # cs)") (auto simp: parse_str.simps(2) simp del: utf8_len.simps split: if_splits intro: exI [of _ 0])
qed

lemma parse_str_length: "parse_str s = Some (v, r) \<Longrightarrow> length r < length s"
proof (induction "length s" arbitrary: s v r rule: less_induct)
  case less
  from less.prems obtain c cs where s: "s = c # cs" by (cases s) auto
  show ?case
  proof (cases "c = dquote")
    case True
    with less.prems s show ?thesis by (simp add: parse_str.simps(2))
  next
    case False
    then obtain k v' where "parse_str (drop k cs) = Some (v', r)" using parse_str_step less.prems s by metis
    with less.hyps [of "drop k cs"] s show ?thesis by fastforce
  qed
qed

lemma digits1_length: "digits1 s = Some (v, r) \<Longrightarrow> length r < length s"
proof -
  assume a: "digits1 s = Some (v, r)"
  then have "takeWhile digit s \<noteq> []" "r = dropWhile digit s" by (auto simp: digits1_def split: list.splits)
  moreover have "length s = length (takeWhile digit s) + length (dropWhile digit s)"
    by (metis length_append takeWhile_dropWhile_id)
  ultimately show ?thesis by (cases "takeWhile digit s") auto
qed

lemma parse_num_length: "parse_num s = Some (v, r) \<Longrightarrow> length r < length s"
proof -
  have "length s0 \<le> length s" if "num_sign s = (m, s0)" for m s0
    using that by (auto simp: num_sign_def split: list.splits if_splits)
  moreover have "length s1 < length s0" if "num_int s0 = Some (i, s1)" for i s0 s1
    using that by (auto simp: num_int_def split: list.splits if_splits dest!: digits1_length)
  moreover have "length s2 \<le> length s1" if "num_frac s1 = Some (f, s2)" for f s1 s2
    using that by (auto simp: num_frac_def split: list.splits if_splits dest!: digits1_length)
  moreover have "length s3 \<le> length s2" if "num_exp s2 = Some (e, s3)" for e s2 s3
    using that by (auto simp: num_exp_def split: list.splits if_splits dest!: digits1_length)
  moreover assume "parse_num s = Some (v, r)"
  ultimately show ?thesis
    by (fastforce simp: parse_num_def split: prod.splits option.splits)
qed

lemma parse_lit_length: "parse_lit (a # w) x s = Some (v, r) \<Longrightarrow> length r < length s"
  by (cases s) (auto simp: parse_lit_def split: if_splits)

lemma key_length: "Option.bind (expect dquote s) parse_str = Some (k, s1) \<Longrightarrow> length s1 < length s"
  by (auto simp: bind_eq_Some_conv dest!: expect_length parse_str_length)

lemma parse_shorter_dom:
  "parse_value_parse_members_parse_elems_dom (Inl (d, s)) \<Longrightarrow>
     (\<forall>v r. parse_value d s = Some (v, r) \<longrightarrow> length r < length s)"
  "parse_value_parse_members_parse_elems_dom (Inr (Inl (d', s'))) \<Longrightarrow>
     (\<forall>v r. parse_members d' s' = Some (v, r) \<longrightarrow> length r < length s')"
  "parse_value_parse_members_parse_elems_dom (Inr (Inr (d'', s''))) \<Longrightarrow>
     (\<forall>v r. parse_elems d'' s'' = Some (v, r) \<longrightarrow> length r < length s'')"
proof (induction d s and d' s' and d'' s'' rule: parse_value_parse_members_parse_elems.pinduct)
  case (1 d s)
  show ?case
  proof (cases "skip_ws s")
    case (Cons c cs)
    have "length (c # cs) \<le> length s" using length_skip_ws [of s] Cons by simp
    moreover have "length r < length (c # cs)" if "parse_value d s = Some (v, r)" for v r
      using that 1(2,3) [OF Cons] 1(1) Cons
      by (auto simp: parse_value.psimps split: if_splits option.splits
          dest!: parse_str_length expect_length parse_num_length parse_lit_length)
    ultimately show ?thesis by force
  qed (use 1(1) in \<open>simp add: parse_value.psimps\<close>)
next
  case (2 d s)
  show ?case
    using 2 by (fastforce simp: parse_members.psimps split: option.splits dest!: key_length expect_length)
next
  case (3 d s)
  show ?case
    using 3 by (fastforce simp: parse_elems.psimps split: option.splits dest!: expect_length)
qed

termination parse_value
proof (relation "measure (\<lambda>x. case x of Inl (d, s) \<Rightarrow> 2 * length s | Inr (Inl (d, s)) \<Rightarrow> 2 * length s + 1
    | Inr (Inr (d, s)) \<Rightarrow> 2 * length s + 1)", goal_cases)
  case 1
  then show ?case by simp
next
  case (2 d s c cs)
  then show ?case using skip_ws_Cons_length [of s] by simp
next
  case (3 d s c cs)
  then show ?case using skip_ws_Cons_length [of s] by simp
next
  case (4 d s)
  then show ?case by (auto dest!: key_length expect_length)
next
  case (5 d s)
  then show ?case by (auto dest!: key_length expect_length parse_shorter_dom)
next
  case (6 d s)
  then show ?case by simp
next
  case (7 d s)
  then show ?case by (auto dest!: expect_length parse_shorter_dom)
qed

declare parse_value.simps [simp del] parse_members.simps [simp del] parse_elems.simps [simp del]

definition parse_json :: "string \<Rightarrow> jval option" where
  "parse_json s =
     (case parse_value 10000 s of
        Some (v, r) \<Rightarrow> if skip_ws r = [] then Some v else None
      | None \<Rightarrow> None)"

section \<open>Printing\<close>

definition FormatInt :: "int \<Rightarrow> string" where
  "FormatInt i = (if i < 0 then CHR ''-'' # FormatUint (nat (- i)) else FormatUint (nat i))"

definition print_str :: "string \<Rightarrow> string" where
  "print_str s = dquote # json_escape s @ [dquote]"

fun print_json :: "jval \<Rightarrow> string" and
  print_members :: "(string \<times> jval) list \<Rightarrow> string" and
  print_elems :: "jval list \<Rightarrow> string"
where
  "print_json JNull = ''null''"
| "print_json (JBool b) = (if b then ''true'' else ''false'')"
| "print_json (JNum n) = n"
| "print_json (JStr s) = print_str s"
| "print_json (JArr vs) = CHR ''['' # print_elems vs @ [CHR '']'']"
| "print_json (JObj ms) = CHR ''{'' # print_members ms @ [CHR ''}'']"
| "print_members [] = []"
| "print_members ((k, v) # ms) =
     print_str k @ CHR '':'' # print_json v @ (if ms = [] then [] else CHR '','' # print_members ms)"
| "print_elems [] = []"
| "print_elems (v # vs) = print_json v @ (if vs = [] then [] else CHR '','' # print_elems vs)"

text \<open>What can be printed: numbers are integers.  The depth is the number of nested arrays and objects.\<close>

fun printable :: "jval \<Rightarrow> bool" and
  printable_members :: "(string \<times> jval) list \<Rightarrow> bool" and
  printable_elems :: "jval list \<Rightarrow> bool"
where
  "printable (JNum n) = (\<exists>i. n = FormatInt i)"
| "printable (JArr vs) = printable_elems vs"
| "printable (JObj ms) = printable_members ms"
| "printable _ = True"
| "printable_members [] = True"
| "printable_members ((k, v) # ms) = (printable v \<and> printable_members ms)"
| "printable_elems [] = True"
| "printable_elems (v # vs) = (printable v \<and> printable_elems vs)"

fun depth :: "jval \<Rightarrow> nat" and
  depth_members :: "(string \<times> jval) list \<Rightarrow> nat" and
  depth_elems :: "jval list \<Rightarrow> nat"
where
  "depth (JArr vs) = Suc (depth_elems vs)"
| "depth (JObj ms) = Suc (depth_members ms)"
| "depth _ = 0"
| "depth_members [] = 0"
| "depth_members ((k, v) # ms) = max (depth v) (depth_members ms)"
| "depth_elems [] = 0"
| "depth_elems (v # vs) = max (depth v) (depth_elems vs)"

fun sanitize_val :: "jval \<Rightarrow> jval" and
  sanitize_members :: "(string \<times> jval) list \<Rightarrow> (string \<times> jval) list" and
  sanitize_elems :: "jval list \<Rightarrow> jval list"
where
  "sanitize_val (JStr s) = JStr (sanitize s)"
| "sanitize_val (JArr vs) = JArr (sanitize_elems vs)"
| "sanitize_val (JObj ms) = JObj (sanitize_members ms)"
| "sanitize_val v = v"
| "sanitize_members [] = []"
| "sanitize_members ((k, v) # ms) = (sanitize k, sanitize_val v) # sanitize_members ms"
| "sanitize_elems [] = []"
| "sanitize_elems (v # vs) = sanitize_val v # sanitize_elems vs"

definition ends_value :: "string \<Rightarrow> bool" where
  "ends_value s \<longleftrightarrow> s = [] \<or> hd s \<in> {CHR '','', CHR ''}'', CHR '']'', CHR 0x0A}"

lemma FormatUint_all_digits: "list_all digit (FormatUint n)"
  using FormatUint_digits [of _ n] by (fastforce simp: list_all_iff digit_def)

lemma FormatUint_not_Nil [simp]: "FormatUint n \<noteq> []"
  by (simp add: FormatUint.simps [of n])

lemma FormatUint_hd_zero: "hd (FormatUint n) = CHR ''0'' \<Longrightarrow> n = 0"
proof (induction n rule: FormatUint.induct)
  case (1 n)
  have z: "char_of (48 + n) = CHR ''0'' \<Longrightarrow> n < 10 \<Longrightarrow> n = 0"
    by (simp add: char_of_eq_iff take_bit_eq_mod)
  show ?case
  proof (cases "n < 10")
    case True
    with 1 z show ?thesis by (simp add: FormatUint.simps [of n])
  next
    case False
    with 1 have "hd (FormatUint (n div 10)) = CHR ''0''" by (simp add: FormatUint.simps [of n])
    with 1(1) False show ?thesis by auto
  qed
qed

lemma digits1_run: "list_all digit ds \<Longrightarrow> ds \<noteq> [] \<Longrightarrow> s = [] \<or> \<not> digit (hd s) \<Longrightarrow> digits1 (ds @ s) = Some (ds, s)"
proof -
  assume a: "list_all digit ds" "ds \<noteq> []" "s = [] \<or> \<not> digit (hd s)"
  then have "takeWhile digit (ds @ s) = ds" "dropWhile digit (ds @ s) = s"
    by (cases s; simp add: list_all_iff)+
  with a(2) show ?thesis unfolding digits1_def by (cases ds) simp_all
qed

lemma parse_num_uint:
  assumes "ends_value s"
  shows "num_int (FormatUint n @ s) = Some (FormatUint n, s)" "num_frac s = Some ([], s)" "num_exp s = Some ([], s)"
proof -
  have e: "s = [] \<or> \<not> digit (hd s)" using assms by (auto simp: ends_value_def digit_def)
  show "num_int (FormatUint n @ s) = Some (FormatUint n, s)"
  proof (cases "n = 0")
    case True
    then show ?thesis by (simp add: num_int_def FormatUint.simps [of 0] char_of_eq_iff)
  next
    case False
    then have "hd (FormatUint n) \<noteq> CHR ''0''" using FormatUint_hd_zero by blast
    then show ?thesis
      using digits1_run [OF FormatUint_all_digits [of n] FormatUint_not_Nil e]
      by (cases "FormatUint n") (auto simp: num_int_def)
  qed
  show "num_frac s = Some ([], s)" "num_exp s = Some ([], s)"
    using assms by (auto simp: num_frac_def num_exp_def ends_value_def split: list.split)
qed

lemma parse_num_FormatInt: "ends_value s \<Longrightarrow> parse_num (FormatInt i @ s) = Some (FormatInt i, s)"
proof -
  assume e: "ends_value s"
  have "num_sign (FormatUint n @ s) = ([], FormatUint n @ s)" for n
    using FormatUint_all_digits [of n] by (cases "FormatUint n") (auto simp: num_sign_def digit_def)
  then show ?thesis
    using parse_num_uint [OF e] by (simp add: parse_num_def FormatInt_def) (simp add: num_sign_def)
qed

subsection \<open>Round trip\<close>

lemma skip_ws_Cons [simp]: "\<not> json_space c \<Longrightarrow> skip_ws (c # cs) = c # cs"
  by (simp add: skip_ws_def)

lemma json_space_punct [simp]:
  "\<not> json_space dquote" "\<not> json_space (CHR ''{'')" "\<not> json_space (CHR ''}'')" "\<not> json_space (CHR ''['')"
  "\<not> json_space (CHR '']'')" "\<not> json_space (CHR '':'')" "\<not> json_space (CHR '','')" "\<not> json_space (CHR ''t'')"
  "\<not> json_space (CHR ''f'')" "\<not> json_space (CHR ''n'')" "\<not> json_space (CHR ''-'')"
  by (simp_all add: json_space_def)

lemma digit_not_space: "digit c \<Longrightarrow> \<not> json_space c"
  by (auto simp: digit_def json_space_def)

lemma expect_Cons [simp]: "\<not> json_space c \<Longrightarrow> expect x (c # cs) = (if c = x then Some cs else None)"
  by (simp add: expect_def)

lemma parse_value_str: "parse_value d (print_str s @ rest) = Some (JStr (sanitize s), rest)"
  by (simp add: parse_value.simps print_str_def parse_str_escape)

lemma FormatInt_starts: "\<exists>c cs. FormatInt i = c # cs \<and> (digit c \<or> c = CHR ''-'')"
proof (cases "i < 0")
  case False
  with FormatUint_all_digits [of "nat i"] show ?thesis by (cases "FormatUint (nat i)") (auto simp: FormatInt_def)
qed (simp add: FormatInt_def)

lemma parse_value_int:
  assumes "ends_value rest"
  shows "parse_value d (FormatInt i @ rest) = Some (JNum (FormatInt i), rest)"
proof -
  obtain c cs where c: "FormatInt i = c # cs" "digit c \<or> c = CHR ''-''"
    using FormatInt_starts by blast
  then have "skip_ws (FormatInt i @ rest) = c # cs @ rest" using digit_not_space by auto
  moreover have "c \<notin> {dquote, CHR ''{'', CHR ''['', CHR ''t'', CHR ''f'', CHR ''n''}"
    using c(2) by (auto simp: digit_def)
  ultimately show ?thesis
    using parse_num_FormatInt [OF assms, of i] c(1) by (simp add: parse_value.simps)
qed

text \<open>The first character of a printed value is not a closing bracket.\<close>

lemma print_json_starts:
  assumes "printable v"
  shows "expect (CHR '']'') (print_json v @ rest) = None"
proof (cases v)
  case (JNum n)
  then obtain i where n: "n = FormatInt i" using assms by auto
  obtain c cs where c: "FormatInt i = c # cs" "digit c \<or> c = CHR ''-''"
    using FormatInt_starts by blast
  then show ?thesis using digit_not_space [of c] by (auto simp: JNum n digit_def)
qed (simp_all add: print_str_def)

lemma parse_print_mutual:
  "printable v \<Longrightarrow> depth v \<le> d \<Longrightarrow> ends_value rest \<Longrightarrow> parse_value d (print_json v @ rest) = Some (sanitize_val v, rest)"
  "printable_members ms \<Longrightarrow> depth_members ms \<le> d \<Longrightarrow> ms \<noteq> [] \<Longrightarrow>
     parse_members d (print_members ms @ CHR ''}'' # rest) = Some (sanitize_members ms, rest)"
  "printable_elems vs \<Longrightarrow> depth_elems vs \<le> d \<Longrightarrow> vs \<noteq> [] \<Longrightarrow>
     parse_elems d (print_elems vs @ CHR '']'' # rest) = Some (sanitize_elems vs, rest)"
proof (induction v and ms and vs arbitrary: d rest and d rest and d rest rule: print_json_print_members_print_elems.induct)
  case 1
  then show ?case by (simp add: parse_value.simps parse_lit_def)
next
  case (2 b)
  then show ?case by (simp add: parse_value.simps parse_lit_def)
next
  case (3 n)
  then show ?case using parse_value_int by auto
next
  case (4 s)
  then show ?case by (simp add: parse_value_str)
next
  case (5 vs)
  show ?case
  proof (cases vs)
    case Nil
    with 5 show ?thesis by (cases d) (simp_all add: parse_value.simps)
  next
    case (Cons w ws)
    then have "expect (CHR '']'') (print_elems vs @ CHR '']'' # rest) = None"
      using print_json_starts 5(2) by simp
    moreover obtain d' where "d = Suc d'" using 5(3) by (cases d) auto
    ultimately show ?thesis using 5 Cons by (simp add: parse_value.simps)
  qed
next
  case (6 ms)
  show ?case
  proof (cases ms)
    case Nil
    with 6 show ?thesis by (cases d) (simp_all add: parse_value.simps)
  next
    case (Cons m ms')
    then have "expect (CHR ''}'') (print_members ms @ CHR ''}'' # rest) = None"
      by (cases m) (simp add: print_str_def)
    moreover obtain d' where "d = Suc d'" using 6(3) by (cases d) auto
    ultimately show ?thesis using 6 Cons by (simp add: parse_value.simps)
  qed
next
  case (8 k v ms)
  have "Option.bind (expect dquote (print_str k @ x)) parse_str = Some (sanitize k, x)" for x
    by (simp add: print_str_def parse_str_escape)
  moreover have "ends_value (CHR ''}'' # rest)" "ends_value (CHR '','' # x)" for x by (simp_all add: ends_value_def)
  ultimately show ?case using 8 by (cases ms) (simp_all add: parse_members.simps)
next
  case (10 v vs)
  have "ends_value (CHR '']'' # rest)" "ends_value (CHR '','' # x)" for x by (simp_all add: ends_value_def)
  then show ?case using 10 by (cases vs) (simp_all add: parse_elems.simps)
qed simp_all

lemmas parse_print = parse_print_mutual(1)

theorem parse_json_print:
  "printable v \<Longrightarrow> depth v \<le> 10000 \<Longrightarrow> parse_json (print_json v) = Some (sanitize_val v)"
  using parse_print [of v 10000 "[]"] by (simp add: parse_json_def ends_value_def skip_ws_def)

end
