(* ===== verification/Audit_Chain.thy ===== *)
theory Audit_Chain
  imports Json
begin

text \<open>
  The audit log of the controller, \<open>internal/controller/audit.go\<close>: one JSON record per line, each
  carrying a sequence number, the tag of its predecessor and a keyed tag over itself, with a sidecar
  checkpoint of the last record.  The file is its bytes; a record is encoded and decoded by the functions
  of \<open>Json\<close>; the keyed hash is an argument.  \<open>OpenAudit\<close> repairs a torn last line, verifies the whole
  chain and compares the checkpoint; \<open>AppendWS\<close> extends it, with every fault of the writes.
\<close>

section \<open>Records\<close>

text \<open>A Go map is the list of its entries in key order.\<close>

type_synonym detail = "(string \<times> string) list"

fun map_set :: "string \<Rightarrow> string \<Rightarrow> detail \<Rightarrow> detail" where
  "map_set k v [] = [(k, v)]"
| "map_set k v ((k', v') # m) =
     (if k < k' then (k, v) # (k', v') # m
      else if k = k' then (k, v) # m
      else (k', v') # map_set k v m)"

record AuditEvent =
  ae_Seq :: int
  ae_TS :: int
  ae_Workspace :: string
  ae_Type :: string
  ae_Actor :: string
  ae_Node :: string
  ae_Session :: string
  ae_Detail :: detail
  ae_Prev :: string
  ae_Hash :: string

definition zero_event :: AuditEvent where
  "zero_event = \<lparr>ae_Seq = 0, ae_TS = 0, ae_Workspace = [], ae_Type = [], ae_Actor = [], ae_Node = [],
     ae_Session = [], ae_Detail = [], ae_Prev = [], ae_Hash = []\<rparr>"

subsection \<open>Encoding\<close>

definition omitempty :: "string \<Rightarrow> string \<Rightarrow> (string \<times> jval) list" where
  "omitempty k s = (if s = [] then [] else [(k, JStr s)])"

definition event_json :: "AuditEvent \<Rightarrow> jval" where
  "event_json e = JObj
     ([(''seq'', JNum (FormatInt (ae_Seq e))), (''ts'', JNum (FormatInt (ae_TS e)))] @
      omitempty ''workspace'' (ae_Workspace e) @ [(''type'', JStr (ae_Type e))] @
      omitempty ''actor'' (ae_Actor e) @ omitempty ''node'' (ae_Node e) @ omitempty ''session'' (ae_Session e) @
      (if ae_Detail e = [] then [] else [(''detail'', JObj (map (\<lambda>(k, v). (k, JStr v)) (ae_Detail e)))]) @
      [(''prev'', JStr (ae_Prev e)), (''hash'', JStr (ae_Hash e))])"

definition marshal :: "AuditEvent \<Rightarrow> bytes" where
  "marshal e = print_json (event_json e)"

subsection \<open>Decoding\<close>

text \<open>\<open>encoding/json\<close> matches member names up to case, which for ASCII names includes two other characters.\<close>

fun fold_name :: "string \<Rightarrow> string" where
  "fold_name [] = []"
| "fold_name (c # cs) =
     (if c = CHR 0xC5 \<and> take 1 cs = [CHR 0xBF] then CHR ''S'' # fold_name (drop 1 cs)
      else if c = CHR 0xE2 \<and> take 2 cs = [CHR 0x84, CHR 0xAA] then CHR ''K'' # fold_name (drop 2 cs)
      else (if 97 \<le> byte c \<and> byte c \<le> 122 then char_of (byte c - 32) else c) # fold_name cs)"

datatype efield =
  FSeq | FTS | FWorkspace | FType | FActor | FNode | FSession | FDetail | FPrev | FHash

definition event_fields :: "(string \<times> efield) list" where
  "event_fields =
     [(''SEQ'', FSeq), (''TS'', FTS), (''WORKSPACE'', FWorkspace), (''TYPE'', FType), (''ACTOR'', FActor),
      (''NODE'', FNode), (''SESSION'', FSession), (''DETAIL'', FDetail), (''PREV'', FPrev), (''HASH'', FHash)]"

definition field_of :: "string \<Rightarrow> efield option" where
  "field_of k = map_of event_fields (fold_name k)"

text \<open>\<open>strconv.ParseInt\<close> of a JSON number literal, in base 10 and 64 bits.\<close>

definition ParseInt64 :: "string \<Rightarrow> int option" where
  "ParseInt64 n =
     (let (m, ds) = num_sign n;
          i = (if m = [] then int (decimal_value ds) else - int (decimal_value ds))
      in if ds \<noteq> [] \<and> list_all digit ds \<and> i64_range i then Some i else None)"

definition decode_int :: "jval \<Rightarrow> int \<Rightarrow> int option" where
  "decode_int v old = (case v of JNum n \<Rightarrow> ParseInt64 n | JNull \<Rightarrow> Some old | _ \<Rightarrow> None)"

definition decode_str :: "jval \<Rightarrow> string \<Rightarrow> string option" where
  "decode_str v old = (case v of JStr s \<Rightarrow> Some s | JNull \<Rightarrow> Some old | _ \<Rightarrow> None)"

fun decode_entries :: "(string \<times> jval) list \<Rightarrow> detail \<Rightarrow> detail option" where
  "decode_entries [] m = Some m"
| "decode_entries ((k, v) # ms) m =
     (case decode_str v [] of
        None \<Rightarrow> None
      | Some s \<Rightarrow> decode_entries ms (map_set k s m))"

definition decode_map :: "jval \<Rightarrow> detail \<Rightarrow> detail option" where
  "decode_map v old = (case v of JObj ms \<Rightarrow> decode_entries ms old | JNull \<Rightarrow> Some [] | _ \<Rightarrow> None)"

fun decode_field :: "efield \<Rightarrow> jval \<Rightarrow> AuditEvent \<Rightarrow> AuditEvent option" where
  "decode_field FSeq v e = map_option (\<lambda>i. e\<lparr>ae_Seq := i\<rparr>) (decode_int v (ae_Seq e))"
| "decode_field FTS v e = map_option (\<lambda>i. e\<lparr>ae_TS := i\<rparr>) (decode_int v (ae_TS e))"
| "decode_field FWorkspace v e = map_option (\<lambda>s. e\<lparr>ae_Workspace := s\<rparr>) (decode_str v (ae_Workspace e))"
| "decode_field FType v e = map_option (\<lambda>s. e\<lparr>ae_Type := s\<rparr>) (decode_str v (ae_Type e))"
| "decode_field FActor v e = map_option (\<lambda>s. e\<lparr>ae_Actor := s\<rparr>) (decode_str v (ae_Actor e))"
| "decode_field FNode v e = map_option (\<lambda>s. e\<lparr>ae_Node := s\<rparr>) (decode_str v (ae_Node e))"
| "decode_field FSession v e = map_option (\<lambda>s. e\<lparr>ae_Session := s\<rparr>) (decode_str v (ae_Session e))"
| "decode_field FDetail v e = map_option (\<lambda>m. e\<lparr>ae_Detail := m\<rparr>) (decode_map v (ae_Detail e))"
| "decode_field FPrev v e = map_option (\<lambda>s. e\<lparr>ae_Prev := s\<rparr>) (decode_str v (ae_Prev e))"
| "decode_field FHash v e = map_option (\<lambda>s. e\<lparr>ae_Hash := s\<rparr>) (decode_str v (ae_Hash e))"

fun decode_members :: "(string \<times> jval) list \<Rightarrow> AuditEvent \<Rightarrow> AuditEvent option" where
  "decode_members [] e = Some e"
| "decode_members ((k, v) # ms) e =
     (case field_of k of
        None \<Rightarrow> decode_members ms e
      | Some f \<Rightarrow> Option.bind (decode_field f v e) (decode_members ms))"

definition decode_event :: "jval \<Rightarrow> AuditEvent option" where
  "decode_event v =
     (case v of JObj ms \<Rightarrow> decode_members ms zero_event | JNull \<Rightarrow> Some zero_event | _ \<Rightarrow> None)"

definition unmarshal :: "bytes \<Rightarrow> AuditEvent option" where
  "unmarshal s = Option.bind (parse_json s) decode_event"

subsection \<open>What a record reads back as\<close>

definition canon_detail :: "detail \<Rightarrow> detail" where
  "canon_detail m = foldl (\<lambda>acc (k, v). map_set (sanitize k) (sanitize v) acc) [] m"

definition canon :: "AuditEvent \<Rightarrow> AuditEvent" where
  "canon e = \<lparr>ae_Seq = ae_Seq e, ae_TS = ae_TS e, ae_Workspace = sanitize (ae_Workspace e), ae_Type = sanitize (ae_Type e),
     ae_Actor = sanitize (ae_Actor e), ae_Node = sanitize (ae_Node e), ae_Session = sanitize (ae_Session e),
     ae_Detail = canon_detail (ae_Detail e), ae_Prev = sanitize (ae_Prev e), ae_Hash = sanitize (ae_Hash e)\<rparr>"

definition event_ints :: "AuditEvent \<Rightarrow> bool" where
  "event_ints e \<longleftrightarrow> i64_range (ae_Seq e) \<and> i64_range (ae_TS e)"

lemma sanitize_ascii: "list_all (\<lambda>c. byte c < 0x80) s \<Longrightarrow> sanitize s = s"
  by (induction s) (simp_all add: sanitize.simps(2))

lemma ParseInt64_FormatInt: "i64_range i \<Longrightarrow> ParseInt64 (FormatInt i) = Some i"
proof -
  have "num_sign (FormatUint n) = ([], FormatUint n)" for n
    using FormatUint_all_digits [of n] by (cases "FormatUint n") (auto simp: num_sign_def digit_def)
  then show "i64_range i \<Longrightarrow> ParseInt64 (FormatInt i) = Some i"
    by (simp add: ParseInt64_def FormatInt_def Let_def decimal_value_FormatUint FormatUint_all_digits)
      (simp add: num_sign_def decimal_value_FormatUint FormatUint_all_digits)
qed

lemma field_of_simps [simp]:
  "field_of ''seq'' = Some FSeq" "field_of ''ts'' = Some FTS" "field_of ''workspace'' = Some FWorkspace"
  "field_of ''type'' = Some FType" "field_of ''actor'' = Some FActor" "field_of ''node'' = Some FNode"
  "field_of ''session'' = Some FSession" "field_of ''detail'' = Some FDetail" "field_of ''prev'' = Some FPrev"
  "field_of ''hash'' = Some FHash"
  by (simp_all add: field_of_def event_fields_def char_of_eq_iff)

lemma sanitize_names [simp]:
  "sanitize ''seq'' = ''seq''" "sanitize ''ts'' = ''ts''" "sanitize ''workspace'' = ''workspace''"
  "sanitize ''type'' = ''type''" "sanitize ''actor'' = ''actor''" "sanitize ''node'' = ''node''"
  "sanitize ''session'' = ''session''" "sanitize ''detail'' = ''detail''" "sanitize ''prev'' = ''prev''"
  "sanitize ''hash'' = ''hash''"
  by (rule sanitize_ascii; simp)+

lemma sanitize_Nil_iff [simp]: "sanitize s = [] \<longleftrightarrow> s = []"
  by (cases s) (simp_all add: sanitize.simps(2) rune_error_def del: utf8_len.simps split: nat.split)

lemma sanitize_members_append [simp]: "sanitize_members (xs @ ys) = sanitize_members xs @ sanitize_members ys"
  by (induction xs) auto

lemma decode_members_append:
  "decode_members (xs @ ys) e = Option.bind (decode_members xs e) (decode_members ys)"
  by (induction xs e rule: decode_members.induct) (auto split: option.splits bind_splits)

lemma printable_members_append [simp]: "printable_members (xs @ ys) \<longleftrightarrow> printable_members xs \<and> printable_members ys"
  by (induction xs) auto

lemma depth_members_append [simp]: "depth_members (xs @ ys) = max (depth_members xs) (depth_members ys)"
  by (induction xs) auto

lemma string_members:
  "printable_members (map (\<lambda>(k, v). (k, JStr v)) m)" "depth_members (map (\<lambda>(k, v). (k, JStr v)) m) = 0"
  "decode_entries (sanitize_members (map (\<lambda>(k, v). (k, JStr v)) m)) acc =
     Some (foldl (\<lambda>acc (k, v). map_set (sanitize k) (sanitize v) acc) acc m)"
  by (induction m arbitrary: acc) (auto simp: decode_str_def)

lemma event_json_printable: "printable (event_json e)" "depth (event_json e) \<le> 10000"
  by (auto simp: event_json_def omitempty_def string_members)

lemma decode_omitempty:
  "decode_members (sanitize_members (omitempty ''workspace'' s)) e = Some (e\<lparr>ae_Workspace := if s = [] then ae_Workspace e else sanitize s\<rparr>)"
  "decode_members (sanitize_members (omitempty ''actor'' s)) e = Some (e\<lparr>ae_Actor := if s = [] then ae_Actor e else sanitize s\<rparr>)"
  "decode_members (sanitize_members (omitempty ''node'' s)) e = Some (e\<lparr>ae_Node := if s = [] then ae_Node e else sanitize s\<rparr>)"
  "decode_members (sanitize_members (omitempty ''session'' s)) e = Some (e\<lparr>ae_Session := if s = [] then ae_Session e else sanitize s\<rparr>)"
  by (simp_all add: omitempty_def decode_str_def)

lemma decode_event_json: "event_ints e \<Longrightarrow> decode_event (sanitize_val (event_json e)) = Some (canon e)"
  by (cases "ae_Detail e = []")
    (simp_all add: decode_event_def event_json_def decode_members_append decode_omitempty decode_int_def decode_str_def
      decode_map_def string_members event_ints_def ParseInt64_FormatInt zero_event_def canon_def canon_detail_def)

lemma unmarshal_marshal: "event_ints e \<Longrightarrow> unmarshal (marshal e) = Some (canon e)"
  using parse_json_print [OF event_json_printable] decode_event_json by (simp add: unmarshal_def marshal_def)

lemma marshal_inject: "event_ints e \<Longrightarrow> event_ints e' \<Longrightarrow> marshal e = marshal e' \<Longrightarrow> canon e = canon e'"
  using unmarshal_marshal by (metis option.inject)

section \<open>Scanning the file\<close>

datatype audit_err =
    EIO | EMalformed | EChainBreak | ESeqGap | EMAC | ETooLong
  | ECheckpointMalformed | ETruncated | ECheckpointMismatch

type_synonym keyed_hash = "bytes \<Rightarrow> bytes \<Rightarrow> bytes"

abbreviation newline :: char where "newline \<equiv> CHR 0x0A"

definition auditMAC :: "keyed_hash \<Rightarrow> bytes \<Rightarrow> AuditEvent \<Rightarrow> string" where
  "auditMAC hmac key e = hex_EncodeToString (hmac key (marshal (e\<lparr>ae_Hash := []\<rparr>)))"

text \<open>\<open>bufio.ScanLines\<close>: the lines without their line break and one carriage return, an unterminated last one included.\<close>

definition scan_tokens :: "bytes \<Rightarrow> bytes list" where
  "scan_tokens data =
     (let segs = split_byte newline data in if last segs = [] then butlast segs else segs)"

definition dropCR :: "bytes \<Rightarrow> bytes" where
  "dropCR l = (if l \<noteq> [] \<and> last l = CHR 0x0D then butlast l else l)"

definition maxToken :: nat where "maxToken = 4 * 1024 * 1024"

text \<open>The position of a scan: the tag of the last record, its number, the count of records.\<close>

type_synonym scan_pos = "string \<times> int \<times> int"

definition check_record :: "keyed_hash \<Rightarrow> bytes \<Rightarrow> string \<Rightarrow> int \<Rightarrow> bytes \<Rightarrow> audit_err + AuditEvent" where
  "check_record hmac key prev seq line =
     (case unmarshal line of
        None \<Rightarrow> Inl EMalformed
      | Some e \<Rightarrow>
          if ae_Prev e \<noteq> prev then Inl EChainBreak
          else if ae_Seq e \<noteq> i64 (seq + 1) then Inl ESeqGap
          else if ae_Hash e \<noteq> auditMAC hmac key e then Inl EMAC
          else Inr e)"

fun scan_lines ::
    "keyed_hash \<Rightarrow> bytes \<Rightarrow> bytes list \<Rightarrow> scan_pos \<Rightarrow> (bytes \<times> AuditEvent) list \<times> scan_pos \<times> audit_err option" where
  "scan_lines hmac key [] pos = ([], pos, None)"
| "scan_lines hmac key (raw # raws) (prev, seq, n) =
     (if length raw \<ge> maxToken then ([], (prev, seq, n), Some ETooLong)
      else if dropCR raw = [] then scan_lines hmac key raws (prev, seq, n)
      else
        (case check_record hmac key prev seq (dropCR raw) of
           Inl err \<Rightarrow> ([], (prev, seq, n), Some err)
         | Inr e \<Rightarrow>
             let (seen, r) = scan_lines hmac key raws (ae_Hash e, ae_Seq e, n + 1)
             in ((dropCR raw, e) # seen, r)))"

definition scanAuditFile ::
    "keyed_hash \<Rightarrow> bytes \<Rightarrow> bool \<Rightarrow> bytes option \<Rightarrow> (bytes \<times> AuditEvent) list \<times> scan_pos \<times> audit_err option" where
  "scanAuditFile hmac key readable file =
     (case file of
        None \<Rightarrow> ([], ([], 0, 0), None)
      | Some data \<Rightarrow>
          if \<not> readable then ([], ([], 0, 0), Some EIO)
          else scan_lines hmac key (scan_tokens data) ([], 0, 0))"

definition verifyAuditFile :: "keyed_hash \<Rightarrow> bytes \<Rightarrow> bool \<Rightarrow> bytes option \<Rightarrow> audit_err + scan_pos" where
  "verifyAuditFile hmac key readable file =
     (case scanAuditFile hmac key readable file of (_, pos, None) \<Rightarrow> Inr pos | (_, _, Some err) \<Rightarrow> Inl err)"

section \<open>Opening\<close>

fun repair_lines :: "keyed_hash \<Rightarrow> bytes \<Rightarrow> bytes list \<Rightarrow> string \<Rightarrow> int \<Rightarrow> audit_err option" where
  "repair_lines hmac key [] prev seq = None"
| "repair_lines hmac key (line # lines) prev seq =
     (if line = [] then repair_lines hmac key lines prev seq
      else
        (case check_record hmac key prev seq line of
           Inl err \<Rightarrow> Some err
         | Inr e \<Rightarrow> repair_lines hmac key lines (ae_Hash e) (ae_Seq e)))"

definition unlines :: "bytes list \<Rightarrow> bytes" where
  "unlines ls = concat (map (\<lambda>l. l @ [newline]) ls)"

definition repairTornTail ::
    "keyed_hash \<Rightarrow> bytes \<Rightarrow> bool \<Rightarrow> bool \<Rightarrow> bytes option \<Rightarrow> audit_err + bytes option" where
  "repairTornTail hmac key readable truncates file =
     (case file of
        None \<Rightarrow> Inr None
      | Some data \<Rightarrow>
          if \<not> readable then Inl EIO
          else
            let segs = split_byte newline data in
            (case repair_lines hmac key (butlast segs) [] 0 of
               Some err \<Rightarrow> Inl err
             | None \<Rightarrow>
                 if last segs = [] then Inr (Some data)
                 else if \<not> truncates then Inl EIO
                 else Inr (Some (unlines (butlast segs)))))"

record checkpoint =
  ck_Seq :: int
  ck_Hash :: string
  ck_Count :: int

text \<open>The checkpoint is replaced by a rename, so a reader finds an old one or a new one.\<close>

datatype chk_file = ChkAbsent | ChkMalformed | ChkSaved checkpoint

definition loadCheckpoint :: "bool \<Rightarrow> chk_file \<Rightarrow> audit_err + checkpoint option" where
  "loadCheckpoint readable f =
     (case f of
        ChkAbsent \<Rightarrow> Inr None
      | ChkMalformed \<Rightarrow> if readable then Inl ECheckpointMalformed else Inl EIO
      | ChkSaved c \<Rightarrow> if readable then Inr (Some c) else Inl EIO)"

record Audit =
  au_last :: string
  au_seq :: int
  au_count :: int
  au_verified :: "(gotime \<times> int \<times> audit_err option) option"

definition saveCheckpoint :: "bool \<Rightarrow> Audit \<Rightarrow> chk_file \<Rightarrow> chk_file" where
  "saveCheckpoint writes a old =
     (if writes then ChkSaved \<lparr>ck_Seq = au_seq a, ck_Hash = au_last a, ck_Count = au_count a\<rparr> else old)"

record open_io =
  oi_read :: bool
  oi_truncate :: bool
  oi_scan :: bool
  oi_chk_read :: bool
  oi_open :: bool
  oi_chk_write :: bool

definition check_checkpoint :: "checkpoint option \<Rightarrow> string \<Rightarrow> int \<Rightarrow> audit_err + unit" where
  "check_checkpoint chk lastHash seq =
     (case chk of
        None \<Rightarrow> Inr ()
      | Some c \<Rightarrow>
          if ck_Seq c > seq then Inl ETruncated
          else if ck_Seq c = seq \<and> ck_Hash c \<noteq> lastHash then Inl ECheckpointMismatch
          else Inr ())"

text \<open>The result with the file and the checkpoint as they are left; a repair is kept even if the opening then fails.\<close>

definition OpenAudit ::
    "keyed_hash \<Rightarrow> bytes \<Rightarrow> open_io \<Rightarrow> bytes option \<Rightarrow> chk_file \<Rightarrow> (audit_err + Audit) \<times> bytes option \<times> chk_file" where
  "OpenAudit hmac key io file chk =
     (case repairTornTail hmac key (oi_read io) (oi_truncate io) file of
        Inl err \<Rightarrow> (Inl err, file, chk)
      | Inr file1 \<Rightarrow>
          (case
             bindE (verifyAuditFile hmac key (oi_scan io) file1) (\<lambda>(lastHash, seq, cnt).
             bindE (loadCheckpoint (oi_chk_read io) chk) (\<lambda>c.
             bindE (check_checkpoint c lastHash seq) (\<lambda>_.
             bindE (checkE (oi_open io) EIO) (\<lambda>_.
             Inr \<lparr>au_last = lastHash, au_seq = seq, au_count = cnt, au_verified = None\<rparr>))))
           of
             Inl err \<Rightarrow> (Inl err, file1, chk)
           | Inr a \<Rightarrow>
               (Inr a, Some (case file1 of None \<Rightarrow> [] | Some d \<Rightarrow> d), saveCheckpoint (oi_chk_write io) a chk)))"

section \<open>Appending\<close>

record append_req =
  ar_workspace :: string
  ar_type :: string
  ar_actor :: string
  ar_node :: string
  ar_session :: string
  ar_detail :: detail
  ar_now :: int

definition next_event :: "keyed_hash \<Rightarrow> bytes \<Rightarrow> string \<Rightarrow> int \<Rightarrow> append_req \<Rightarrow> AuditEvent" where
  "next_event hmac key lastHash seq q =
     (let e = \<lparr>ae_Seq = i64 (seq + 1), ae_TS = ar_now q, ae_Workspace = ar_workspace q, ae_Type = ar_type q,
               ae_Actor = ar_actor q, ae_Node = ar_node q, ae_Session = ar_session q, ae_Detail = ar_detail q,
               ae_Prev = lastHash, ae_Hash = []\<rparr>
      in e\<lparr>ae_Hash := auditMAC hmac key e\<rparr>)"

record append_io =
  ap_write :: "nat option" \<comment> \<open>the bytes written before the write failed\<close>
  ap_sync :: bool
  ap_chk_write :: bool

definition AppendWS ::
    "keyed_hash \<Rightarrow> bytes \<Rightarrow> append_io \<Rightarrow> append_req \<Rightarrow> bytes \<Rightarrow> chk_file \<Rightarrow> Audit \<Rightarrow>
     audit_err option \<times> bytes \<times> chk_file \<times> Audit" where
  "AppendWS hmac key io q data chk a0 =
     (let a = a0\<lparr>au_verified := None\<rparr>;
          e = next_event hmac key (au_last a) (au_seq a) q;
          line = marshal e @ [newline]
      in case ap_write io of
           Some k \<Rightarrow> (Some EIO, data @ take k line, chk, a)
         | None \<Rightarrow>
             if \<not> ap_sync io then (Some EIO, data @ line, chk, a)
             else
               let a' = a\<lparr>au_last := ae_Hash e, au_seq := ae_Seq e, au_count := au_count a + 1\<rparr>
               in (if ap_chk_write io then None else Some EIO, data @ line, saveCheckpoint (ap_chk_write io) a' chk, a'))"

section \<open>Reading\<close>

definition verifyLocked :: "keyed_hash \<Rightarrow> bytes \<Rightarrow> bool \<Rightarrow> bool \<Rightarrow> bytes option \<Rightarrow> chk_file \<Rightarrow> int \<times> audit_err option" where
  "verifyLocked hmac key readable chk_readable file chk =
     (case scanAuditFile hmac key readable file of
        (_, (_, seq, cnt), Some err) \<Rightarrow> (cnt, Some err)
      | (_, (_, seq, cnt), None) \<Rightarrow>
          (case loadCheckpoint chk_readable chk of
             Inr (Some c) \<Rightarrow> (cnt, if ck_Seq c > seq then Some ETruncated else None)
           | _ \<Rightarrow> (cnt, None)))"

definition verifyCacheTTL :: duration where "verifyCacheTTL = 30 * second"

definition VerifyCached ::
    "keyed_hash \<Rightarrow> bytes \<Rightarrow> gotime \<Rightarrow> bytes option \<Rightarrow> chk_file \<Rightarrow> Audit \<Rightarrow> (int \<times> audit_err option) \<times> Audit" where
  "VerifyCached hmac key now file chk a =
     (case au_verified a of
        Some (at, r) \<Rightarrow>
          if now - at < verifyCacheTTL then (r, a)
          else let r' = verifyLocked hmac key True True file chk in (r', a\<lparr>au_verified := Some (now, r')\<rparr>)
      | None \<Rightarrow> let r' = verifyLocked hmac key True True file chk in (r', a\<lparr>au_verified := Some (now, r')\<rparr>))"

record AuditQuery =
  aq_SinceUnix :: int
  aq_UntilUnix :: int
  aq_Type :: string
  aq_Workspace :: string
  aq_Actor :: string
  aq_Node :: string
  aq_Limit :: int
  aq_Offset :: int

text \<open>\<open>strings.EqualFold\<close> is an argument.\<close>

definition audit_match :: "(string \<Rightarrow> string \<Rightarrow> bool) \<Rightarrow> AuditQuery \<Rightarrow> AuditEvent \<Rightarrow> bool" where
  "audit_match equalFold q e \<longleftrightarrow>
     \<not> (aq_SinceUnix q > 0 \<and> ae_TS e < aq_SinceUnix q) \<and>
     \<not> (aq_UntilUnix q > 0 \<and> ae_TS e > aq_UntilUnix q) \<and>
     \<not> (aq_Type q \<noteq> [] \<and> ae_Type e \<noteq> aq_Type q) \<and>
     \<not> (aq_Workspace q \<noteq> [] \<and> ae_Workspace e \<noteq> aq_Workspace q) \<and>
     \<not> (aq_Actor q \<noteq> [] \<and> \<not> equalFold (ae_Actor e) (aq_Actor q)) \<and>
     \<not> (aq_Node q \<noteq> [] \<and> ae_Node e \<noteq> aq_Node q)"

record AuditPage =
  apg_Lines :: "bytes list"
  apg_Total :: int
  apg_ChainOK :: bool

definition QueryPage ::
    "keyed_hash \<Rightarrow> bytes \<Rightarrow> (string \<Rightarrow> string \<Rightarrow> bool) \<Rightarrow> AuditQuery \<Rightarrow> bool \<Rightarrow> bytes option \<Rightarrow> AuditPage" where
  "QueryPage hmac key equalFold q readable file =
     (let limit = (if aq_Limit q \<le> 0 then 100 else aq_Limit q);
          (seen, _, err) = scanAuditFile hmac key readable file;
          matched = map fst (filter (\<lambda>(_, e). audit_match equalFold q e) seen);
          total = int (length matched);
          end' = max 0 (total - aq_Offset q);
          start = max 0 (end' - limit)
      in \<lparr>apg_Lines = take (nat (end' - start)) (drop (nat start) matched), apg_Total = total, apg_ChainOK = (err = None)\<rparr>)"

section \<open>Lines\<close>

lemma FormatInt_visible: "x \<in> set (FormatInt i) \<Longrightarrow> 0x20 \<le> byte x"
  using FormatUint_digits by (fastforce simp: FormatInt_def split: if_splits)

lemma print_visible:
  "printable v \<Longrightarrow> \<forall>x \<in> set (print_json v). 0x20 \<le> byte x"
  "printable_members ms \<Longrightarrow> \<forall>x \<in> set (print_members ms). 0x20 \<le> byte x"
  "printable_elems vs \<Longrightarrow> \<forall>x \<in> set (print_elems vs). 0x20 \<le> byte x"
  by (induction v and ms and vs rule: print_json_print_members_print_elems.induct)
    (auto simp: print_str_def dest: json_escape_visible FormatInt_visible)

lemma marshal_visible: "x \<in> set (marshal e) \<Longrightarrow> 0x20 \<le> byte x"
  using print_visible(1) [OF event_json_printable(1)] by (auto simp: marshal_def)

lemma marshal_no_newline [simp]: "newline \<notin> set (marshal e)"
  using marshal_visible by fastforce

lemma marshal_not_Nil [simp]: "marshal e \<noteq> []"
  by (simp add: marshal_def event_json_def)

lemma dropCR_marshal [simp]: "dropCR (marshal e) = marshal e"
proof -
  have "CHR 0x0D \<notin> set (marshal e)" using marshal_visible [of "CHR 0x0D" e] by auto
  then have "last (marshal e) \<noteq> CHR 0x0D" using last_in_set [OF marshal_not_Nil, of e] by metis
  then show ?thesis by (simp add: dropCR_def)
qed

lemma unlines_simps [simp]:
  "unlines [] = []" "unlines (l # ls) = l @ newline # unlines ls" "unlines (ls @ ls') = unlines ls @ unlines ls'"
  by (simp_all add: unlines_def)

lemma split_unlines: "\<forall>l \<in> set ls. newline \<notin> set l \<Longrightarrow> split_byte newline (unlines ls @ tail) = ls @ split_byte newline tail"
  by (induction ls) auto

lemma split_records:
  "split_byte newline (unlines (map marshal es) @ tail) = map marshal es @ split_byte newline tail"
  by (rule split_unlines) auto

section \<open>Chains\<close>

definition readable_event :: "AuditEvent \<Rightarrow> bool" where
  "readable_event e \<longleftrightarrow> event_ints e \<and> canon e = e \<and> length (marshal e) < maxToken"

text \<open>The records follow the position \<open>(prev, seq)\<close>: each carries the tag of its predecessor, the next number and its own tag.\<close>

fun linked :: "keyed_hash \<Rightarrow> bytes \<Rightarrow> string \<Rightarrow> int \<Rightarrow> AuditEvent list \<Rightarrow> bool" where
  "linked hmac key prev seq [] = True"
| "linked hmac key prev seq (e # es) =
     (ae_Prev e = prev \<and> ae_Seq e = seq + 1 \<and> ae_Hash e = auditMAC hmac key e \<and> linked hmac key (ae_Hash e) (seq + 1) es)"

definition last_tag :: "string \<Rightarrow> AuditEvent list \<Rightarrow> string" where
  "last_tag prev es = (if es = [] then prev else ae_Hash (last es))"

lemma last_tag_simps [simp]: "last_tag p [] = p" "last_tag p (e # es) = last_tag (ae_Hash e) es" "last_tag p (es @ [e]) = ae_Hash e"
  by (simp_all add: last_tag_def)

lemma linked_append:
  "linked hmac key p s (xs @ ys) \<longleftrightarrow> linked hmac key p s xs \<and> linked hmac key (last_tag p xs) (s + int (length xs)) ys"
  by (induction xs arbitrary: p s) (auto simp: algebra_simps)

lemma check_record_marshal:
  assumes "readable_event e" and "ae_Prev e = p" and "ae_Seq e = s + 1" and "ae_Hash e = auditMAC hmac key e"
  shows "check_record hmac key p s (marshal e) = Inr e"
  using assms unmarshal_marshal [of e] i64_id [of "s + 1"] by (simp add: check_record_def readable_event_def event_ints_def)

lemma scan_records:
  assumes "linked hmac key p s es" and "list_all readable_event es"
  shows "scan_lines hmac key (map marshal es @ rest) (p, s, n) =
    (let (seen, r) = scan_lines hmac key rest (last_tag p es, s + int (length es), n + int (length es))
     in (map (\<lambda>e. (marshal e, e)) es @ seen, r))"
  using assms
proof (induction es arbitrary: p s n)
  case (Cons e es)
  from Cons.prems have e: "ae_Prev e = p" "ae_Seq e = s + 1" "ae_Hash e = auditMAC hmac key e" "readable_event e"
    and es: "linked hmac key (ae_Hash e) (s + 1) es" "list_all readable_event es" by auto
  have "check_record hmac key p s (marshal e) = Inr e" by (rule check_record_marshal) (rule e)+
  moreover have "\<not> maxToken \<le> length (marshal e)" using e(4) by (simp add: readable_event_def)
  ultimately show ?case
    using Cons.IH [OF es, of "n + 1"] e(2) by (simp add: split_beta Let_def add.assoc)
qed simp

lemma repair_records:
  assumes "linked hmac key p s es" and "list_all readable_event es"
  shows "repair_lines hmac key (map marshal es @ rest) p s =
    repair_lines hmac key rest (last_tag p es) (s + int (length es))"
  using assms
proof (induction es arbitrary: p s)
  case (Cons e es)
  from Cons.prems have e: "ae_Prev e = p" "ae_Seq e = s + 1" "ae_Hash e = auditMAC hmac key e" "readable_event e"
    and es: "linked hmac key (ae_Hash e) (s + 1) es" "list_all readable_event es" by auto
  have "check_record hmac key p s (marshal e) = Inr e" by (rule check_record_marshal) (rule e)+
  then show ?case using Cons.IH [OF es] e(2) by (simp add: add.assoc)
qed simp

definition chain :: "keyed_hash \<Rightarrow> bytes \<Rightarrow> AuditEvent list \<Rightarrow> bool" where
  "chain hmac key es \<longleftrightarrow> linked hmac key [] 0 es \<and> list_all readable_event es"

definition file_of :: "AuditEvent list \<Rightarrow> bytes" where
  "file_of es = unlines (map marshal es)"

lemma scan_file_of:
  assumes "chain hmac key es"
  shows "scanAuditFile hmac key True (Some (file_of es)) =
    (map (\<lambda>e. (marshal e, e)) es, (last_tag [] es, int (length es), int (length es)), None)"
proof -
  have "split_byte newline (file_of es) = map marshal es @ [[]]"
    using split_records [of es "[]"] by (simp add: file_of_def)
  then show ?thesis
    using scan_records [of hmac key "[]" 0 es "[]" 0] assms by (simp add: scanAuditFile_def scan_tokens_def chain_def)
qed

text \<open>A torn last line is cut off, whatever it holds.\<close>

lemma repair_file_of:
  assumes "chain hmac key es" and "newline \<notin> set tail"
  shows "repairTornTail hmac key True True (Some (file_of es @ tail)) = Inr (Some (file_of es))"
proof -
  have "split_byte newline (file_of es @ tail) = map marshal es @ [tail]"
    using split_records [of es tail] assms(2) by (simp add: file_of_def)
  then show ?thesis
    using repair_records [of hmac key "[]" 0 es "[]"] assms(1)
    by (simp add: repairTornTail_def Let_def chain_def file_of_def [symmetric])
qed

section \<open>Histories\<close>

record audit_sys =
  as_file :: "bytes option"
  as_chk :: chk_file
  as_audit :: "Audit option" \<comment> \<open>none after an opening that failed\<close>

definition audit_open :: "keyed_hash \<Rightarrow> bytes \<Rightarrow> open_io \<Rightarrow> bytes option \<Rightarrow> chk_file \<Rightarrow> audit_sys" where
  "audit_open hmac key io file chk =
     (case OpenAudit hmac key io file chk of
        (Inl _, f, c) \<Rightarrow> \<lparr>as_file = f, as_chk = c, as_audit = None\<rparr>
      | (Inr a, f, c) \<Rightarrow> \<lparr>as_file = f, as_chk = c, as_audit = Some a\<rparr>)"

definition io_ok :: open_io where
  "io_ok = \<lparr>oi_read = True, oi_truncate = True, oi_scan = True, oi_chk_read = True, oi_open = True, oi_chk_write = True\<rparr>"

text \<open>An append, a crash after \<open>k\<close> bytes of an append with the restart that follows, an orderly restart.\<close>

datatype audit_op = AppendOp append_req append_io | CrashOp append_req nat | ReopenOp

fun audit_step :: "keyed_hash \<Rightarrow> bytes \<Rightarrow> audit_sys \<Rightarrow> audit_op \<Rightarrow> audit_sys" where
  "audit_step hmac key st (AppendOp q io) =
     (case (as_audit st, as_file st) of
        (Some a, Some data) \<Rightarrow>
          let (_, data', chk', a') = AppendWS hmac key io q data (as_chk st) a
          in \<lparr>as_file = Some data', as_chk = chk', as_audit = Some a'\<rparr>
      | _ \<Rightarrow> st)"
| "audit_step hmac key st (CrashOp q k) =
     (case (as_audit st, as_file st) of
        (Some a, Some data) \<Rightarrow>
          audit_open hmac key io_ok
            (Some (data @ take k (marshal (next_event hmac key (au_last a) (au_seq a) q) @ [newline]))) (as_chk st)
      | _ \<Rightarrow> st)"
| "audit_step hmac key st ReopenOp = audit_open hmac key io_ok (as_file st) (as_chk st)"

definition audit_init :: "keyed_hash \<Rightarrow> bytes \<Rightarrow> audit_sys" where
  "audit_init hmac key = audit_open hmac key io_ok None ChkAbsent"

text \<open>What a reader of the log sees.\<close>

definition audit_log :: "keyed_hash \<Rightarrow> bytes \<Rightarrow> audit_sys \<Rightarrow> AuditEvent list" where
  "audit_log hmac key st = map snd (fst (scanAuditFile hmac key True (as_file st)))"

text \<open>The specification: a list of records that only grows at its end.\<close>

abbreviation spec_event :: "keyed_hash \<Rightarrow> bytes \<Rightarrow> AuditEvent list \<Rightarrow> append_req \<Rightarrow> AuditEvent" where
  "spec_event hmac key es q \<equiv> next_event hmac key (last_tag [] es) (int (length es)) q"

fun log_spec :: "keyed_hash \<Rightarrow> bytes \<Rightarrow> AuditEvent list \<Rightarrow> audit_op \<Rightarrow> AuditEvent list" where
  "log_spec hmac key es (AppendOp q io) = es @ [spec_event hmac key es q]"
| "log_spec hmac key es (CrashOp q k) =
     (if k > length (marshal (spec_event hmac key es q)) then es @ [spec_event hmac key es q] else es)"
| "log_spec hmac key es ReopenOp = es"

text \<open>
  The operations the specification covers: the data of the file is written and synced (the checkpoint
  may fail), the strings of a record are valid UTF-8, its line is shorter than the scanner's buffer and
  the sequence number does not overflow.
\<close>

definition req_ok :: "keyed_hash \<Rightarrow> bytes \<Rightarrow> AuditEvent list \<Rightarrow> append_req \<Rightarrow> bool" where
  "req_ok hmac key es q \<longleftrightarrow> readable_event (spec_event hmac key es q) \<and> i64_range (int (length es) + 1)"

fun op_ok :: "keyed_hash \<Rightarrow> bytes \<Rightarrow> AuditEvent list \<Rightarrow> audit_op \<Rightarrow> bool" where
  "op_ok hmac key es (AppendOp q io) \<longleftrightarrow> req_ok hmac key es q \<and> ap_write io = None \<and> ap_sync io"
| "op_ok hmac key es (CrashOp q k) \<longleftrightarrow> req_ok hmac key es q"
| "op_ok hmac key es ReopenOp \<longleftrightarrow> True"

fun ops_ok :: "keyed_hash \<Rightarrow> bytes \<Rightarrow> AuditEvent list \<Rightarrow> audit_op list \<Rightarrow> bool" where
  "ops_ok hmac key es [] = True"
| "ops_ok hmac key es (op # ops) = (op_ok hmac key es op \<and> ops_ok hmac key (log_spec hmac key es op) ops)"

definition chk_ok :: "AuditEvent list \<Rightarrow> chk_file \<Rightarrow> bool" where
  "chk_ok es f =
     (case f of
        ChkAbsent \<Rightarrow> True
      | ChkMalformed \<Rightarrow> False
      | ChkSaved c \<Rightarrow>
          ck_Seq c \<le> int (length es) \<and> (ck_Seq c = int (length es) \<longrightarrow> ck_Hash c = last_tag [] es))"

definition consistent :: "keyed_hash \<Rightarrow> bytes \<Rightarrow> AuditEvent list \<Rightarrow> audit_sys \<Rightarrow> bool" where
  "consistent hmac key es st \<longleftrightarrow>
     chain hmac key es \<and> as_file st = Some (file_of es) \<and> chk_ok es (as_chk st) \<and>
     (\<exists>a. as_audit st = Some a \<and> au_last a = last_tag [] es \<and> au_seq a = int (length es) \<and> au_count a = int (length es))"

lemma next_event_links:
  "ae_Prev (next_event hmac key p s q) = p" "ae_Seq (next_event hmac key p s q) = i64 (s + 1)"
  "ae_Hash (next_event hmac key p s q) = auditMAC hmac key (next_event hmac key p s q)"
  by (simp_all add: next_event_def Let_def auditMAC_def)

lemma chain_snoc:
  assumes "chain hmac key es" and "req_ok hmac key es q"
  shows "chain hmac key (es @ [spec_event hmac key es q])"
  using assms next_event_links [of hmac key "last_tag [] es" "int (length es)" q]
  by (simp add: chain_def linked_append req_ok_def)

lemma file_of_snoc: "file_of (es @ [e]) = file_of es @ marshal e @ [newline]"
  by (simp add: file_of_def)

lemma open_consistent:
  assumes "chain hmac key es" and "newline \<notin> set tail" and "chk_ok es chk"
  shows "consistent hmac key es (audit_open hmac key io_ok (Some (file_of es @ tail)) chk)"
proof -
  have v: "verifyAuditFile hmac key True (Some (file_of es)) = Inr (last_tag [] es, int (length es), int (length es))"
    using scan_file_of [OF assms(1)] by (simp add: verifyAuditFile_def)
  obtain c where "loadCheckpoint True chk = Inr c" "check_checkpoint c (last_tag [] es) (int (length es)) = Inr ()"
    using assms(3) by (cases chk) (auto simp: chk_ok_def loadCheckpoint_def check_checkpoint_def)
  then show ?thesis
    using assms(1) repair_file_of [OF assms(1,2)] v
    by (simp add: audit_open_def OpenAudit_def io_ok_def consistent_def saveCheckpoint_def chk_ok_def)
qed

lemma init_consistent: "consistent hmac key [] (audit_init hmac key)"
  by (simp add: audit_init_def audit_open_def OpenAudit_def io_ok_def repairTornTail_def verifyAuditFile_def
      scanAuditFile_def loadCheckpoint_def check_checkpoint_def consistent_def chain_def file_of_def saveCheckpoint_def chk_ok_def)

lemma chk_ok_grow: "chk_ok es f \<Longrightarrow> chk_ok (es @ [e]) f"
  by (auto simp: chk_ok_def split: chk_file.splits)

lemma append_consistent:
  assumes c: "consistent hmac key es st" and "op_ok hmac key es (AppendOp q io)"
  shows "consistent hmac key (es @ [spec_event hmac key es q]) (audit_step hmac key st (AppendOp q io))"
proof -
  from c obtain a where a: "as_audit st = Some a" "au_last a = last_tag [] es" "au_seq a = int (length es)"
    "au_count a = int (length es)" and f: "as_file st = Some (file_of es)" "chain hmac key es" "chk_ok es (as_chk st)"
    unfolding consistent_def by blast
  from assms(2) have ok: "req_ok hmac key es q" "ap_write io = None" "ap_sync io" by auto
  have "ae_Seq (spec_event hmac key es q) = int (length es) + 1"
    using ok(1) by (simp add: next_event_def req_ok_def Let_def)
  then show ?thesis
    using a f ok chain_snoc [OF f(2) ok(1)] chk_ok_grow [OF f(3)]
    by (simp add: consistent_def AppendWS_def Let_def file_of_snoc saveCheckpoint_def) (simp add: chk_ok_def)
qed

lemma step_consistent:
  assumes c: "consistent hmac key es st" and ok: "op_ok hmac key es op"
  shows "consistent hmac key (log_spec hmac key es op) (audit_step hmac key st op)"
proof (cases op)
  case (AppendOp q io)
  with append_consistent assms show ?thesis by simp
next
  case (CrashOp q k)
  let ?e = "spec_event hmac key es q"
  from c obtain a where a: "as_audit st = Some a" "au_last a = last_tag [] es" "au_seq a = int (length es)"
    and f: "as_file st = Some (file_of es)" "chain hmac key es" "chk_ok es (as_chk st)"
    unfolding consistent_def by blast
  have s: "audit_step hmac key st op =
      audit_open hmac key io_ok (Some (file_of es @ take k (marshal ?e @ [newline]))) (as_chk st)"
    using CrashOp a f by simp
  show ?thesis
  proof (cases "k > length (marshal ?e)")
    case True
    then have "file_of es @ take k (marshal ?e @ [newline]) = file_of (es @ [?e]) @ []" by (simp add: file_of_snoc)
    moreover have "chain hmac key (es @ [?e])" using chain_snoc [OF f(2)] ok CrashOp by simp
    ultimately show ?thesis
      using True CrashOp open_consistent [of hmac key "es @ [?e]" "[]"] chk_ok_grow [OF f(3)] unfolding s by simp
  next
    case False
    have "newline \<notin> set (take k (marshal ?e))" by (meson in_set_takeD marshal_no_newline)
    with False CrashOp s open_consistent [OF f(2) _ f(3)] show ?thesis by simp
  qed
next
  case ReopenOp
  then show ?thesis using c open_consistent [of hmac key es "[]"] by (auto simp: consistent_def)
qed

lemma run_consistent:
  "consistent hmac key es st \<Longrightarrow> ops_ok hmac key es ops \<Longrightarrow>
     consistent hmac key (foldl (log_spec hmac key) es ops) (foldl (audit_step hmac key) st ops)"
  by (induction ops arbitrary: es st) (simp_all add: step_consistent)

lemma consistent_log: "consistent hmac key es st \<Longrightarrow> audit_log hmac key st = es"
  using scan_file_of by (simp add: consistent_def audit_log_def comp_def)

section \<open>What an accepted file holds\<close>

text \<open>The bytes the tag of a record covers.\<close>

definition tagged_bytes :: "AuditEvent \<Rightarrow> bytes" where
  "tagged_bytes e = marshal (e\<lparr>ae_Hash := []\<rparr>)"

lemma decode_int_range: "decode_int v old = Some i \<Longrightarrow> i64_range old \<Longrightarrow> i64_range i"
  by (auto simp: decode_int_def ParseInt64_def Let_def split: jval.splits prod.splits if_splits)

lemma decode_field_ints: "decode_field f v e = Some e' \<Longrightarrow> event_ints e \<Longrightarrow> event_ints e'"
  by (cases f) (auto simp: event_ints_def dest: decode_int_range)

lemma decode_members_ints: "decode_members ms e = Some e' \<Longrightarrow> event_ints e \<Longrightarrow> event_ints e'"
proof (induction ms e rule: decode_members.induct)
  case (2 k v ms e)
  then show ?case by (cases "field_of k") (auto simp: bind_eq_Some_conv dest: decode_field_ints)
qed simp

lemma unmarshal_ints: "unmarshal s = Some e \<Longrightarrow> event_ints e"
proof -
  have z: "event_ints zero_event" by (simp add: event_ints_def zero_event_def i64_range_def)
  assume "unmarshal s = Some e"
  then obtain v where "decode_event v = Some e" by (auto simp: unmarshal_def bind_eq_Some_conv)
  then show ?thesis using z decode_members_ints by (cases v) (auto simp: decode_event_def)
qed

lemma check_record_Inr:
  "check_record hmac key p s l = Inr e \<Longrightarrow>
     ae_Prev e = p \<and> ae_Seq e = i64 (s + 1) \<and> ae_Hash e = auditMAC hmac key e \<and> event_ints e"
  by (auto simp: check_record_def unmarshal_ints split: option.splits if_splits)

text \<open>The same as \<^const>\<open>linked\<close>, with the counter of the scan wrapping around.\<close>

fun verified :: "keyed_hash \<Rightarrow> bytes \<Rightarrow> string \<Rightarrow> int \<Rightarrow> AuditEvent list \<Rightarrow> bool" where
  "verified hmac key p s [] = True"
| "verified hmac key p s (e # es) =
     (ae_Prev e = p \<and> ae_Seq e = i64 (s + 1) \<and> ae_Hash e = auditMAC hmac key e \<and> event_ints e \<and>
      verified hmac key (ae_Hash e) (ae_Seq e) es)"

definition last_seq :: "int \<Rightarrow> AuditEvent list \<Rightarrow> int" where
  "last_seq s es = (if es = [] then s else ae_Seq (last es))"

lemma scan_lines_verified:
  "scan_lines hmac key raws (p, s, n) = (seen, (p', s', n'), None) \<Longrightarrow>
     verified hmac key p s (map snd seen) \<and> p' = last_tag p (map snd seen) \<and> s' = last_seq s (map snd seen) \<and>
     n' = n + int (length seen)"
proof (induction raws arbitrary: p s n seen)
  case (Cons raw raws)
  show ?case
  proof (cases "length raw \<ge> maxToken \<or> dropCR raw = []")
    case True
    with Cons show ?thesis by (auto split: if_splits)
  next
    case False
    then obtain e where e: "check_record hmac key p s (dropCR raw) = Inr e"
      using Cons.prems by (auto split: sum.splits)
    obtain seen' where "scan_lines hmac key raws (ae_Hash e, ae_Seq e, n + 1) = (seen', (p', s', n'), None)"
      and "seen = (dropCR raw, e) # seen'"
      using Cons.prems False e by (auto simp: Let_def split: prod.splits)
    with Cons.IH [of "ae_Hash e" "ae_Seq e" "n + 1" seen'] check_record_Inr [OF e] show ?thesis
      by (auto simp: last_seq_def)
  qed
qed (simp add: last_seq_def)

lemma canon_clear: "canon (e\<lparr>ae_Hash := []\<rparr>) = (canon e)\<lparr>ae_Hash := []\<rparr>"
  by (simp add: canon_def)

lemma tagged_bytes_Seq:
  assumes "event_ints e" and "event_ints e'" and "tagged_bytes e = tagged_bytes e'"
  shows "ae_Seq e = ae_Seq e'"
proof -
  have "canon (e\<lparr>ae_Hash := []\<rparr>) = canon (e'\<lparr>ae_Hash := []\<rparr>)"
    using assms by (intro marshal_inject) (simp_all add: tagged_bytes_def event_ints_def)
  then show ?thesis by (simp add: canon_def)
qed

lemma linked_Seq: "linked hmac key p s es \<Longrightarrow> j < length es \<Longrightarrow> ae_Seq (es ! j) = s + int j + 1"
proof (induction es arbitrary: p s j)
  case (Cons e es)
  then show ?case by (cases j) (auto simp: algebra_simps)
qed simp

lemma chain_length_range:
  assumes "chain hmac key es"
  shows "int (length es) < 2 ^ 63"
proof (cases "es = []")
  case False
  then have "ae_Seq (es ! (length es - 1)) = int (length es)"
    using linked_Seq [of hmac key "[]" 0 es "length es - 1"] assms by (cases es) (auto simp: chain_def)
  moreover have "event_ints (es ! (length es - 1))"
    using assms False by (simp add: chain_def list_all_length readable_event_def)
  ultimately show ?thesis by (simp add: event_ints_def i64_range_def)
qed simp

lemma verified_next:
  assumes A: "chain hmac key A" and i: "i \<le> length A" and e: "event_ints e" "ae_Seq e = i64 (int i + 1)"
    and m: "tagged_bytes e \<in> tagged_bytes ` set A"
  shows "i < length A \<and> tagged_bytes e = tagged_bytes (A ! i)"
proof -
  from m obtain j where j: "j < length A" "tagged_bytes e = tagged_bytes (A ! j)" by (auto simp: in_set_conv_nth)
  have aj: "event_ints (A ! j)" "ae_Seq (A ! j) = int j + 1"
    using A j(1) linked_Seq [of hmac key "[]" 0 A j] by (auto simp: chain_def list_all_length readable_event_def)
  have s: "i64 (int i + 1) = int j + 1" using tagged_bytes_Seq [OF e(1) aj(1) j(2)] aj(2) e(2) by simp
  have "int i < 2 ^ 63" using chain_length_range [OF A] i by linarith
  then have "i64 (int i + 1) = int i + 1 \<or> i64 (int i + 1) < 0"
    by (cases "int i = 2 ^ 63 - 1") (simp add: i64_def, simp add: i64_Suc i64_range_def)
  with s have "i = j" by linarith
  with j show ?thesis by simp
qed

lemma verified_prefix:
  assumes A: "chain hmac key A"
  shows "verified hmac key p (int i) E \<Longrightarrow> i \<le> length A \<Longrightarrow> \<forall>e \<in> set E. tagged_bytes e \<in> tagged_bytes ` set A \<Longrightarrow>
    i + length E \<le> length A \<and> map tagged_bytes E = map tagged_bytes (take (length E) (drop i A)) \<and>
    last_seq (int i) E = int (i + length E)"
proof (induction E arbitrary: p i)
  case (Cons e E)
  from Cons.prems have e: "event_ints e" "ae_Seq e = i64 (int i + 1)" "tagged_bytes e \<in> tagged_bytes ` set A"
    and v: "verified hmac key (ae_Hash e) (ae_Seq e) E" and m: "\<forall>e \<in> set E. tagged_bytes e \<in> tagged_bytes ` set A"
    unfolding verified.simps list.set by blast+
  note n = verified_next [OF A Cons.prems(2) e]
  have "int i + 1 < 2 ^ 63" using chain_length_range [OF A] n by linarith
  then have s: "ae_Seq e = int (Suc i)" using e(2) by (simp add: i64_range_def)
  note ih = Cons.IH [OF v [unfolded s] _ m]
  have d: "drop i A = A ! i # drop (Suc i) A" using n by (simp add: Cons_nth_drop_Suc)
  have "last_seq (int i) (e # E) = last_seq (int (Suc i)) E" using s by (simp add: last_seq_def)
  moreover have "Suc i \<le> length A" using n by simp
  ultimately show ?case using ih n unfolding d by simp
qed (simp add: last_seq_def)

lemma OpenAudit_Inr:
  assumes "OpenAudit hmac key io file chk = (Inr a, file', chk')"
  shows "\<exists>seen n. scanAuditFile hmac key True file' = (seen, (au_last a, au_seq a, n), None) \<and>
    verified hmac key [] 0 (map snd seen) \<and> au_seq a = last_seq 0 (map snd seen) \<and>
    (\<forall>c. chk = ChkSaved c \<longrightarrow> ck_Seq c \<le> au_seq a)"
proof -
  from assms obtain file1 where r: "repairTornTail hmac key (oi_read io) (oi_truncate io) file = Inr file1"
    by (auto simp: OpenAudit_def split: sum.splits)
  from assms r obtain n c where v: "verifyAuditFile hmac key (oi_scan io) file1 = Inr (au_last a, au_seq a, n)"
    and l: "loadCheckpoint (oi_chk_read io) chk = Inr c" and k: "check_checkpoint c (au_last a) (au_seq a) = Inr ()"
    and f: "file' = Some (case file1 of None \<Rightarrow> [] | Some d \<Rightarrow> d)"
    by (auto simp: OpenAudit_def errE split: sum.splits prod.splits)
  from v obtain seen where "scanAuditFile hmac key (oi_scan io) file1 = (seen, (au_last a, au_seq a, n), None)"
    by (auto simp: verifyAuditFile_def split: prod.splits option.splits)
  then have s: "scanAuditFile hmac key True file' = (seen, (au_last a, au_seq a, n), None)"
    using f by (cases file1) (auto simp: scanAuditFile_def scan_tokens_def split: if_splits)
  then have "verified hmac key [] 0 (map snd seen) \<and> au_seq a = last_seq 0 (map snd seen)"
    using f scan_lines_verified by (auto simp: scanAuditFile_def)
  moreover have "ck_Seq c' \<le> au_seq a" if "chk = ChkSaved c'" for c'
    using that l k by (auto simp: loadCheckpoint_def check_checkpoint_def split: if_splits)
  ultimately show ?thesis using s by blast
qed

section \<open>A small log\<close>

definition demo_hmac :: keyed_hash where "demo_hmac key m = []"

definition demo_append :: append_req where
  "demo_append = \<lparr>ar_workspace = ''w'', ar_type = ''login'', ar_actor = ''ann'', ar_node = [], ar_session = [],
     ar_detail = [(''a'', ''b'')], ar_now = 7\<rparr>"

definition demo_event :: AuditEvent where
  "demo_event = \<lparr>ae_Seq = 1, ae_TS = 7, ae_Workspace = ''w'', ae_Type = ''login'', ae_Actor = ''ann'', ae_Node = [],
     ae_Session = [], ae_Detail = [(''a'', ''b'')], ae_Prev = [], ae_Hash = []\<rparr>"

lemma demo_spec_event: "spec_event demo_hmac key [] demo_append = demo_event"
  by (simp add: next_event_def Let_def demo_append_def demo_event_def auditMAC_def demo_hmac_def hex_EncodeToString_def i64_def)

lemma marshal_demo_length: "length (marshal demo_event) = 100"
  by (simp add: marshal_def event_json_def demo_event_def omitempty_def print_str_def json_escape.simps escape_ascii_def
      FormatInt_def FormatUint.simps)

lemma demo_readable: "readable_event demo_event"
  using marshal_demo_length
  by (simp add: readable_event_def maxToken_def event_ints_def demo_event_def i64_range_def canon_def canon_detail_def sanitize_ascii)

lemma demo_req_ok: "req_ok demo_hmac key [] demo_append"
  using demo_readable demo_spec_event [of key] by (simp add: req_ok_def i64_range_def)

section \<open>Properties\<close>



text \<open>
  C16: Tamper evidence.  Let \<open>A\<close> be the records the controller appended, and let the keyed hash be
  unforgeable on the file at hand: a record of the file with a correct tag is one whose tagged bytes the
  controller tagged.  Then whatever was done to the file, if \<open>OpenAudit\<close> accepts it the records in it
  are, in order, the first \<open>n\<close> of \<open>A\<close>, with \<open>n\<close> at least the sequence number of the checkpoint:
  nothing is changed, inserted, reordered or dropped, and nothing is cut off that the checkpoint covers.
\<close>

theorem accepted_log_is_what_was_appended:
  assumes "chain hmac key A"
    and "OpenAudit hmac key io file (ChkSaved c) = (Inr a, file', chk')"
    and "\<And>l e. (l, e) \<in> set (fst (scanAuditFile hmac key True file')) \<Longrightarrow>
      ae_Hash e = auditMAC hmac key e \<Longrightarrow> tagged_bytes e \<in> tagged_bytes ` set A"
  shows "\<exists>n \<le> length A. ck_Seq c \<le> int n \<and> au_seq a = int n \<and>
    map (tagged_bytes \<circ> snd) (fst (scanAuditFile hmac key True file')) = map tagged_bytes (take n A)"
proof -
  from OpenAudit_Inr [OF assms(2)] obtain seen n where
    s: "scanAuditFile hmac key True file' = (seen, (au_last a, au_seq a, n), None)"
    and v: "verified hmac key [] 0 (map snd seen)" and q: "au_seq a = last_seq 0 (map snd seen)" and c: "ck_Seq c \<le> au_seq a"
    by auto
  have "verified hmac key p t es \<Longrightarrow> e \<in> set es \<Longrightarrow> ae_Hash e = auditMAC hmac key e" for p t es e
    by (induction es arbitrary: p t) auto
  then have "\<forall>e \<in> set (map snd seen). tagged_bytes e \<in> tagged_bytes ` set A"
    using assms(3) v unfolding s by force
  from verified_prefix [OF assms(1) _ _ this, of "[]" 0] v q c show ?thesis
    unfolding s by (intro exI [of _ "length seen"]) simp
qed

lemma demo_chain: "chain demo_hmac key [demo_event]"
  using chain_snoc [of demo_hmac key "[]" demo_append] demo_req_ok [of key] demo_spec_event [of key] by (simp add: chain_def)

theorem accepted_log_is_what_was_appended_witness:
  "let c = \<lparr>ck_Seq = 1, ck_Hash = [], ck_Count = 1\<rparr>; r = OpenAudit demo_hmac [] io_ok (Some (file_of [demo_event] @ ''torn'')) (ChkSaved c)
   in \<exists>a file' chk'. r = (Inr a, file', chk') \<and> au_seq a = 1 \<and>
     map (tagged_bytes \<circ> snd) (fst (scanAuditFile demo_hmac [] True file')) = [tagged_bytes demo_event]"
proof -
  let ?c = "\<lparr>ck_Seq = 1, ck_Hash = [], ck_Count = 1\<rparr>"
  let ?r = "OpenAudit demo_hmac [] io_ok (Some (file_of [demo_event] @ ''torn'')) (ChkSaved ?c)"
  have "chk_ok [demo_event] (ChkSaved ?c)" by (simp add: chk_ok_def demo_event_def)
  from open_consistent [OF demo_chain [of "[]"] _ this, of "''torn''"]
  have cons: "consistent demo_hmac [] [demo_event] (audit_open demo_hmac [] io_ok (Some (file_of [demo_event] @ ''torn'')) (ChkSaved ?c))"
    by simp
  then obtain a file' chk' where r: "?r = (Inr a, file', chk')" and f: "file' = Some (file_of [demo_event])"
    by (auto simp: audit_open_def consistent_def split: prod.splits sum.splits)
  have log: "fst (scanAuditFile demo_hmac [] True file') = [(marshal demo_event, demo_event)]"
    using scan_file_of [OF demo_chain [of "[]"]] unfolding f by simp
  obtain n where "n \<le> length [demo_event]" "1 \<le> int n" "au_seq a = int n"
    "map (tagged_bytes \<circ> snd) (fst (scanAuditFile demo_hmac [] True file')) = map tagged_bytes (take n [demo_event])"
    using accepted_log_is_what_was_appended [OF demo_chain r] unfolding log by auto
  then show ?thesis using r by (auto simp: Let_def)
qed

text \<open>
  A record that was written but whose sync failed is left in the file while the counters do not
  advance.  The next append then reuses its sequence number, both calls are over, and the next opening
  refuses the chain.
\<close>

theorem failed_sync_breaks_the_chain:
  assumes c: "consistent hmac key es st" and q1: "req_ok hmac key es q1" and q2: "req_ok hmac key es q2"
    and io1: "ap_write io1 = None" "\<not> ap_sync io1" and io2: "ap_write io2 = None" "ap_sync io2"
    and st': "st' = foldl (audit_step hmac key) st [AppendOp q1 io1, AppendOp q2 io2]"
  shows "\<exists>err. OpenAudit hmac key io_ok (as_file st') (as_chk st') = (Inl err, as_file st', as_chk st')"
proof -
  let ?e1 = "spec_event hmac key es q1" and ?e2 = "spec_event hmac key es q2"
  have f: "as_file st' = Some (unlines (map marshal (es @ [?e1]) @ [marshal ?e2]))"
    using c io1 io2 unfolding st' consistent_def by (auto simp: AppendWS_def Let_def file_of_def)
  have seq: "i64 (int (length es) + 1) = int (length es) + 1" using q1 by (simp add: req_ok_def)
  have ch: "linked hmac key [] 0 (es @ [?e1])" "list_all readable_event (es @ [?e1])"
    using chain_snoc [OF _ q1] c by (simp_all add: chain_def consistent_def)
  have "i64 (x + 1) \<noteq> x" if "i64_range x" for x
    using that by (cases "x = 2 ^ 63 - 1") (simp add: i64_def, simp add: i64_Suc)
  from this [of "int (length es) + 1"] have "int (length es) + 1 \<noteq> i64 (2 + int (length es))"
    using q1 by (simp add: req_ok_def algebra_simps)
  then have "check_record hmac key (ae_Hash ?e1) (int (length es) + 1) (marshal ?e2) \<noteq> Inr e" for e
    using q2 seq unmarshal_marshal [of ?e2] next_event_links(2) [of hmac key "last_tag [] es" "int (length es)" q2]
    by (auto simp: check_record_def req_ok_def readable_event_def split: if_splits)
  then obtain err where "check_record hmac key (ae_Hash ?e1) (int (length es) + 1) (marshal ?e2) = Inl err"
    by (metis sum.exhaust)
  then have "repair_lines hmac key (map marshal (es @ [?e1]) @ [marshal ?e2]) [] 0 = Some err"
    using repair_records [OF ch, of "[marshal ?e2]"] by (simp add: add.commute)
  moreover have "split_byte newline (unlines (map marshal (es @ [?e1]) @ [marshal ?e2])) = map marshal (es @ [?e1]) @ [marshal ?e2] @ [[]]"
    using split_unlines [of "map marshal (es @ [?e1]) @ [marshal ?e2]" "[]"] by auto
  ultimately show ?thesis
    unfolding f by (simp add: OpenAudit_def repairTornTail_def Let_def io_ok_def butlast_append)
qed

theorem failed_sync_breaks_the_chain_witness:
  "let io1 = \<lparr>ap_write = None, ap_sync = False, ap_chk_write = True\<rparr>; io2 = \<lparr>ap_write = None, ap_sync = True, ap_chk_write = True\<rparr>;
       st' = foldl (audit_step demo_hmac []) (audit_init demo_hmac []) [AppendOp demo_append io1, AppendOp demo_append io2]
   in \<exists>err. OpenAudit demo_hmac [] io_ok (as_file st') (as_chk st') = (Inl err, as_file st', as_chk st')"
  unfolding Let_def
  by (rule failed_sync_breaks_the_chain [OF init_consistent demo_req_ok demo_req_ok _ _ _ _ refl]) simp_all

text \<open>
  A record with a string that is not valid UTF-8 breaks the chain although its append succeeds: the
  tag covers the escape the encoder writes for the invalid byte, and the record that is read back holds
  the replacement character instead, which encodes to other bytes.  Unless the keyed hash happens to
  agree on the two, the next opening refuses the chain.
\<close>

theorem invalid_utf8_breaks_the_chain:
  assumes c: "consistent hmac key es st" and e: "e = spec_event hmac key es q"
    and ints: "event_ints e" and differ: "hmac key (tagged_bytes (canon e)) \<noteq> hmac key (tagged_bytes e)"
    and io: "io = \<lparr>ap_write = None, ap_sync = True, ap_chk_write = True\<rparr>"
    and r: "AppendWS hmac key io q (the (as_file st)) (as_chk st) (the (as_audit st)) = (err, data, chk, a)"
  shows "err = None \<and> (\<exists>err'. OpenAudit hmac key io_ok (Some data) chk = (Inl err', Some data, chk))"
proof -
  have f: "err = None" "data = unlines (map marshal es @ [marshal e])"
    using c r io e unfolding consistent_def by (auto simp: AppendWS_def Let_def file_of_def)
  have ch: "linked hmac key [] 0 es" "list_all readable_event es"
    using c by (simp_all add: chain_def consistent_def)
  have "ae_Hash (canon e) = ae_Hash e"
  proof -
    have "byte (hex_digit n) < 0x80" if "n < 16" for n using that by (simp add: hex_digit_def)
    then have "list_all (\<lambda>c. byte c < 0x80) (hex_EncodeToString m)" for m
      by (simp add: hex_EncodeToString_def list_all_iff)
    then show ?thesis by (simp add: canon_def e next_event_links(3) auditMAC_def sanitize_ascii)
  qed
  moreover have "auditMAC hmac key (canon e) \<noteq> ae_Hash e"
    using differ hex_EncodeToString_inject unfolding e next_event_links(3) auditMAC_def tagged_bytes_def by metis
  ultimately have "check_record hmac key p s (marshal e) \<noteq> Inr x" for p s x
    using unmarshal_marshal [OF ints] by (auto simp: check_record_def split: if_splits)
  then obtain err' where "check_record hmac key (last_tag [] es) (int (length es)) (marshal e) = Inl err'"
    by (metis sum.exhaust)
  then have "repair_lines hmac key (map marshal es @ [marshal e]) [] 0 = Some err'"
    using repair_records [OF ch, of "[marshal e]"] by simp
  moreover have "split_byte newline data = map marshal es @ [marshal e] @ [[]]"
    using split_unlines [of "map marshal es @ [marshal e]" "[]"] unfolding f by auto
  ultimately show ?thesis
    using f(1) by (simp add: OpenAudit_def repairTornTail_def Let_def io_ok_def butlast_append)
qed

text \<open>The event of lifting the suspension of a subject given as the single byte 0xFF.\<close>

definition bad_append :: append_req where
  "bad_append = \<lparr>ar_workspace = ''w'', ar_type = ''u'', ar_actor = [], ar_node = [], ar_session = [],
     ar_detail = [(''subject'', [CHR 0xFF])], ar_now = 7\<rparr>"

theorem invalid_utf8_breaks_the_chain_witness:
  "let hmac = (\<lambda>_ m. m); st = audit_init hmac []; io = \<lparr>ap_write = None, ap_sync = True, ap_chk_write = True\<rparr>;
       (err, data, chk, a) = AppendWS hmac [] io bad_append (the (as_file st)) (as_chk st) (the (as_audit st))
   in err = None \<and> (\<exists>err'. OpenAudit hmac [] io_ok (Some data) chk = (Inl err', Some data, chk))"
proof -
  let ?h = "\<lambda>_ m :: bytes. m" and ?io = "\<lparr>ap_write = None, ap_sync = True, ap_chk_write = True\<rparr>"
  let ?e = "spec_event ?h [] [] bad_append" and ?st = "audit_init ?h []"
  obtain err data chk a where
    r: "AppendWS ?h [] ?io bad_append (the (as_file ?st)) (as_chk ?st) (the (as_audit ?st)) = (err, data, chk, a)"
    by (cases "AppendWS ?h [] ?io bad_append (the (as_file ?st)) (as_chk ?st) (the (as_audit ?st))")
  have ints: "event_ints ?e" by (simp add: event_ints_def next_event_def Let_def bad_append_def i64_range_def)
  have "length (tagged_bytes (canon ?e)) \<noteq> length (tagged_bytes ?e)"
    by (simp add: tagged_bytes_def marshal_def event_json_def omitempty_def print_str_def canon_def canon_detail_def
        next_event_def Let_def bad_append_def sanitize.simps rune_error_def json_escape.simps escape_ascii_def escape_rune_def
        cont_byte_def lead_lo_def lead_hi_def)
  then have "tagged_bytes (canon ?e) \<noteq> tagged_bytes ?e" by metis
  from invalid_utf8_breaks_the_chain [OF init_consistent refl ints this refl r] show ?thesis
    unfolding Let_def r by simp
qed

lemma page_window:
  fixes t off l :: nat
  shows "nat (max 0 (max 0 (int t - int off) - int l)) = t - off - l"
  "nat (max 0 (int t - int off) - max 0 (max 0 (int t - int off) - int l)) = t - off - (t - off - l)"
proof -
  have e: "max 0 (int t - int off) = int (t - off)" by simp
  have s: "max 0 (int (t - off) - int l) = int (t - off - l)" by simp
  show "nat (max 0 (max 0 (int t - int off) - int l)) = t - off - l" unfolding e s by simp
  show "nat (max 0 (int t - int off) - max 0 (max 0 (int t - int off) - int l)) = t - off - (t - off - l)"
    unfolding e s by (simp only: nat_minus_as_int)
qed

lemma QueryPage_lines:
  assumes s: "scanAuditFile hmac key True file = (seen, pos, err)" and l: "0 < l"
    and m: "matched = map fst (filter (\<lambda>(_, e). audit_match eqf q e) seen)"
  shows "apg_Lines (QueryPage hmac key eqf (q\<lparr>aq_Limit := int l, aq_Offset := int off\<rparr>) True file) =
    take (length matched - off - (length matched - off - l)) (drop (length matched - off - l) matched)"
proof -
  have a: "audit_match eqf (q\<lparr>aq_Limit := int l, aq_Offset := int off\<rparr>) = audit_match eqf q"
    by (simp add: audit_match_def fun_eq_iff)
  have q: "aq_Limit (q\<lparr>aq_Limit := int l, aq_Offset := int off\<rparr>) = int l"
    "aq_Offset (q\<lparr>aq_Limit := int l, aq_Offset := int off\<rparr>) = int off" "(int l \<le> 0) = False"
    using l by simp_all
  show ?thesis
    unfolding QueryPage_def Let_def s prod.case a m [symmetric] q
    by (simp only: AuditPage.simps if_False page_window)
qed

lemma windows_tile:
  "concat (rev (map (\<lambda>i. take (length xs - i * l - (length xs - i * l - l)) (drop (length xs - i * l - l) xs)) [0 ..< n])) =
   drop (length xs - n * l) xs"
proof (induction n)
  case (Suc n)
  let ?a = "length xs - n * l" and ?b = "length xs - n * l - l"
  have "?a - ?b + ?b = ?a" by (simp only: le_add_diff_inverse2 diff_le_self)
  then have "drop ?a xs = drop (?a - ?b) (drop ?b xs)" by (simp only: drop_drop)
  then have "take (?a - ?b) (drop ?b xs) @ drop ?a xs = drop ?b xs" by (simp only: append_take_drop_id)
  moreover have "length xs - Suc n * l = ?b" by (simp add: add.commute)
  ultimately show ?case using Suc by simp
qed simp

text \<open>
  The pages of the audit view.  A query for a workspace returns only lines of verified records of that
  workspace, and the pages of size \<open>l\<close> at offsets \<open>0\<close>, \<open>l\<close>, \<open>2 l\<close> and so on, read backwards,
  concatenate to all the matching lines in file order: no record is shown twice and none is missed.
\<close>

theorem audit_pages_tile_the_matches:
  assumes "0 < l" and "scanAuditFile hmac key True file = (seen, pos, err)"
    and "matched = map fst (filter (\<lambda>(_, e). audit_match eqf q e) seen)" and "length matched \<le> k * l"
  shows "concat (rev (map (\<lambda>i. apg_Lines (QueryPage hmac key eqf (q\<lparr>aq_Limit := int l, aq_Offset := int (i * l)\<rparr>) True file)) [0 ..< k])) = matched \<and>
    (aq_Workspace q \<noteq> [] \<longrightarrow> (\<forall>m \<in> set matched. \<exists>e. (m, e) \<in> set seen \<and> ae_Workspace e = aq_Workspace q))"
proof -
  note page = QueryPage_lines [OF assms(2,1,3), of "i * l" for i]
  have "length matched - k * l = 0" using assms(4) by simp
  then have "concat (rev (map (\<lambda>i. apg_Lines (QueryPage hmac key eqf (q\<lparr>aq_Limit := int l, aq_Offset := int (i * l)\<rparr>) True file)) [0 ..< k])) = matched"
    unfolding page using windows_tile [of matched l k] by simp
  moreover have "\<exists>e. (m, e) \<in> set seen \<and> ae_Workspace e = aq_Workspace q" if "m \<in> set matched" "aq_Workspace q \<noteq> []" for m
    using that assms(3) by (auto simp: audit_match_def)
  ultimately show ?thesis by blast
qed

theorem audit_pages_tile_the_matches_witness:
  "let q = \<lparr>aq_SinceUnix = 0, aq_UntilUnix = 0, aq_Type = [], aq_Workspace = ''w'', aq_Actor = [], aq_Node = [], aq_Limit = 1, aq_Offset = 0\<rparr>
   in concat (rev (map (\<lambda>i. apg_Lines (QueryPage demo_hmac [] (=) (q\<lparr>aq_Limit := int 1, aq_Offset := int (i * 1)\<rparr>) True
        (Some (file_of [demo_event])))) [0 ..< 2])) = [marshal demo_event]"
proof -
  let ?q = "\<lparr>aq_SinceUnix = 0, aq_UntilUnix = 0, aq_Type = [], aq_Workspace = ''w'', aq_Actor = [], aq_Node = [], aq_Limit = 1, aq_Offset = 0\<rparr>"
  have "[marshal demo_event] = map fst (filter (\<lambda>(_, e). audit_match (=) ?q e) (map (\<lambda>e. (marshal e, e)) [demo_event]))"
    by (simp add: audit_match_def demo_event_def)
  from audit_pages_tile_the_matches [OF zero_less_one scan_file_of [OF demo_chain] this, of 2] show ?thesis
    unfolding Let_def by (simp only: list.size mult_1_right one_le_numeral add_0 One_nat_def [symmetric])
qed

end
