(* ===== verification/Deny_Cache.thy ===== *)
theory Deny_Cache
  imports Go_Std Geneza_Prelude
begin

text \<open>
  The cache in front of the two deny reads of the controller (certificate revocation and principal
  suspension): \<open>internal/controller/denycache.go\<close>, with the principal keys of \<open>authzstate.go\<close>.

  \<open>lookup\<close> holds the mutex twice and reads the store in between, so it is two operations here:
  \<open>lookup_begin\<close> up to the release of the mutex and \<open>lookup_end\<close> from the answer of the store.
  The system \<open>deny_step\<close> interleaves any number of lookups with store writes, invalidations,
  flushes, garbage collection and the passage of time.  The generation counter is an unbounded number:
  an unsigned 64-bit counter differs only after 2^64 invalidations during one store read.
\<close>

section \<open>Keys\<close>

definition TrimPrefix :: "string \<Rightarrow> string \<Rightarrow> string" where
  "TrimPrefix s p = (if take (length p) s = p then drop (length p) s else s)"

definition normProvider :: "string \<Rightarrow> string" where
  "normProvider provider = TrimPrefix provider ''device:''"

definition principalKey :: "string \<Rightarrow> string \<Rightarrow> string \<Rightarrow> string" where
  "principalKey ws provider subject = ws @ ''|'' @ normProvider provider @ ''|'' @ subject"

definition suspendable :: "string \<Rightarrow> bool" where
  "suspendable subject \<longleftrightarrow> subject \<noteq> []"

section \<open>Cache\<close>

datatype deny_table = RevEntries | SuspEntries

record denyEntry =
  de_deny :: bool
  de_expires :: gotime

record denyCache =
  dc_entries :: "deny_table \<Rightarrow> (string \<rightharpoonup> denyEntry)"
  dc_gen :: nat
  dc_ttl :: duration
  dc_failClosed :: bool

definition newDenyCache :: "duration \<Rightarrow> bool \<Rightarrow> denyCache" where
  "newDenyCache ttl failClosed =
     \<lparr>dc_entries = \<lambda>_. Map.empty, dc_gen = 0, dc_ttl = ttl, dc_failClosed = failClosed\<rparr>"

definition upd_entries :: "deny_table \<Rightarrow> ((string \<rightharpoonup> denyEntry) \<Rightarrow> (string \<rightharpoonup> denyEntry)) \<Rightarrow> denyCache \<Rightarrow> denyCache" where
  "upd_entries t g c = c\<lparr>dc_entries := (dc_entries c)(t := g (dc_entries c t))\<rparr>"

text \<open>
  \<open>Inl\<close> is the verdict of a fresh entry.  \<open>Inr\<close> is what the lookup takes along to the store: the
  lapsed entry, if there is one, and the generation.
\<close>

definition lookup_begin :: "gotime \<Rightarrow> deny_table \<Rightarrow> string \<Rightarrow> denyCache \<Rightarrow> bool + denyEntry option \<times> nat" where
  "lookup_begin now t key c =
     (case dc_entries c t key of
        Some ent \<Rightarrow> if now < de_expires ent then Inl (de_deny ent) else Inr (Some ent, dc_gen c)
      | None \<Rightarrow> Inr (None, dc_gen c))"

text \<open>The store answers \<open>Some deny\<close>, or \<open>None\<close> for a fault.\<close>

definition lookup_end ::
    "gotime \<Rightarrow> deny_table \<Rightarrow> string \<Rightarrow> denyEntry option \<Rightarrow> nat \<Rightarrow> bool option \<Rightarrow> denyCache \<Rightarrow> bool \<times> denyCache" where
  "lookup_end now t key ent gen answer c =
     (case answer of
        Some deny \<Rightarrow>
          (deny,
           if dc_gen c = gen
           then upd_entries t (\<lambda>m. m(key \<mapsto> \<lparr>de_deny = deny, de_expires = now + dc_ttl c\<rparr>)) c
           else c)
      | None \<Rightarrow>
          (if \<not> dc_failClosed c then (case ent of Some e \<Rightarrow> de_deny e | None \<Rightarrow> False) else True, c))"

definition lookup :: "gotime \<Rightarrow> deny_table \<Rightarrow> string \<Rightarrow> bool option \<Rightarrow> denyCache \<Rightarrow> bool \<times> denyCache" where
  "lookup now t key answer c =
     (case lookup_begin now t key c of
        Inl deny \<Rightarrow> (deny, c)
      | Inr (ent, gen) \<Rightarrow> lookup_end now t key ent gen answer c)"

definition certRevoked :: "gotime \<Rightarrow> string \<Rightarrow> bool option \<Rightarrow> denyCache \<Rightarrow> bool \<times> denyCache" where
  "certRevoked now serial answer c = lookup now RevEntries serial answer c"

definition suspended :: "gotime \<Rightarrow> string \<Rightarrow> bool option \<Rightarrow> denyCache \<Rightarrow> bool \<times> denyCache" where
  "suspended now key answer c = lookup now SuspEntries key answer c"

definition invalidate :: "deny_table \<Rightarrow> string \<Rightarrow> denyCache \<Rightarrow> denyCache" where
  "invalidate t key c = (upd_entries t (\<lambda>m. m(key := None)) c)\<lparr>dc_gen := dc_gen c + 1\<rparr>"

definition invalidateRevoked :: "string \<Rightarrow> denyCache \<Rightarrow> denyCache" where
  "invalidateRevoked serial c = invalidate RevEntries serial c"

definition invalidateSuspension :: "string \<Rightarrow> string \<Rightarrow> string \<Rightarrow> denyCache \<Rightarrow> denyCache" where
  "invalidateSuspension ws provider subject c = invalidate SuspEntries (principalKey ws provider subject) c"

definition deny_flush :: "denyCache \<Rightarrow> denyCache" where
  "deny_flush c = c\<lparr>dc_entries := \<lambda>_. Map.empty, dc_gen := dc_gen c + 1\<rparr>"

definition deny_gc :: "gotime \<Rightarrow> denyCache \<Rightarrow> denyCache" where
  "deny_gc now c = c\<lparr>dc_entries := \<lambda>t k.
     (case dc_entries c t k of None \<Rightarrow> None | Some e \<Rightarrow> if \<not> now < de_expires e then None else Some e)\<rparr>"

section \<open>Interleavings\<close>

record load =
  ld_table :: deny_table
  ld_key :: string
  ld_ent :: "denyEntry option"
  ld_gen :: nat
  ld_answer :: "(bool option) option" \<comment> \<open>\<open>None\<close>: the store has not answered yet\<close>

record deny_sys =
  ds_cache :: denyCache
  ds_store :: "deny_table \<Rightarrow> string \<Rightarrow> bool"
  ds_now :: gotime
  ds_loads :: "nat \<rightharpoonup> load"
  ds_verdict :: "nat \<rightharpoonup> bool"

datatype deny_event =
    Wait nat
  | StoreWrite deny_table string bool
  | Invalidate deny_table string
  | Flush
  | Gc
  | BeginLookup nat deny_table string
  | StoreAnswer nat bool \<comment> \<open>whether the read faults\<close>
  | EndLookup nat

fun deny_step :: "deny_sys \<Rightarrow> deny_event \<Rightarrow> deny_sys" where
  "deny_step s (Wait n) = s\<lparr>ds_now := ds_now s + int n\<rparr>"
| "deny_step s (StoreWrite t k d) = s\<lparr>ds_store := (ds_store s)(t := (ds_store s t)(k := d))\<rparr>"
| "deny_step s (Invalidate t k) = s\<lparr>ds_cache := invalidate t k (ds_cache s)\<rparr>"
| "deny_step s Flush = s\<lparr>ds_cache := deny_flush (ds_cache s)\<rparr>"
| "deny_step s Gc = s\<lparr>ds_cache := deny_gc (ds_now s) (ds_cache s)\<rparr>"
| "deny_step s (BeginLookup i t k) =
     (case lookup_begin (ds_now s) t k (ds_cache s) of
        Inl deny \<Rightarrow> s\<lparr>ds_verdict := (ds_verdict s)(i \<mapsto> deny)\<rparr>
      | Inr (ent, gen) \<Rightarrow>
          s\<lparr>ds_loads := (ds_loads s)(i \<mapsto> \<lparr>ld_table = t, ld_key = k, ld_ent = ent, ld_gen = gen, ld_answer = None\<rparr>)\<rparr>)"
| "deny_step s (StoreAnswer i fault) =
     (case ds_loads s i of
        None \<Rightarrow> s
      | Some l \<Rightarrow>
          s\<lparr>ds_loads := (ds_loads s)(i \<mapsto> l\<lparr>ld_answer :=
             Some (if fault then None else Some (ds_store s (ld_table l) (ld_key l)))\<rparr>)\<rparr>)"
| "deny_step s (EndLookup i) =
     (case ds_loads s i of
        None \<Rightarrow> s
      | Some l \<Rightarrow>
          (case ld_answer l of
             None \<Rightarrow> s
           | Some answer \<Rightarrow>
               let (deny, c) = lookup_end (ds_now s) (ld_table l) (ld_key l) (ld_ent l) (ld_gen l) answer (ds_cache s)
               in s\<lparr>ds_cache := c, ds_verdict := (ds_verdict s)(i \<mapsto> deny), ds_loads := (ds_loads s)(i := None)\<rparr>))"

definition deny_init :: "duration \<Rightarrow> bool \<Rightarrow> (deny_table \<Rightarrow> string \<Rightarrow> bool) \<Rightarrow> gotime \<Rightarrow> deny_sys" where
  "deny_init ttl failClosed store now =
     \<lparr>ds_cache = newDenyCache ttl failClosed, ds_store = store, ds_now = now, ds_loads = Map.empty,
      ds_verdict = Map.empty\<rparr>"

section \<open>Lemmas\<close>

text \<open>Principals with the same key are the same principal, as long as no part contains the separator.\<close>

lemma principalKey_inject:
  assumes "CHR ''|'' \<notin> set ws" "CHR ''|'' \<notin> set ws'"
    and "CHR ''|'' \<notin> set (normProvider p)" "CHR ''|'' \<notin> set (normProvider p')"
    and "principalKey ws p s = principalKey ws' p' s'"
  shows "ws = ws' \<and> normProvider p = normProvider p' \<and> s = s'"
proof -
  have split: "a @ CHR ''|'' # x = b @ CHR ''|'' # y \<Longrightarrow> CHR ''|'' \<notin> set a \<Longrightarrow> CHR ''|'' \<notin> set b \<Longrightarrow> a = b \<and> x = y"
    for a b x y
  proof (induction a arbitrary: b)
    case Nil
    then show ?case by (cases b) auto
  next
    case (Cons c a)
    then show ?case by (cases b) auto
  qed
  have "ws = ws' \<and> normProvider p @ ''|'' @ s = normProvider p' @ ''|'' @ s'"
    using assms split [of ws "normProvider p @ ''|'' @ s" ws' "normProvider p' @ ''|'' @ s'"]
    by (simp add: principalKey_def)
  then show ?thesis using assms split [of "normProvider p" s "normProvider p'" s'] by simp
qed

text \<open>No load in flight carries a generation the cache has not reached.\<close>

definition gens_ok :: "deny_sys \<Rightarrow> bool" where
  "gens_ok s \<longleftrightarrow> (\<forall>i l. ds_loads s i = Some l \<longrightarrow> ld_gen l \<le> dc_gen (ds_cache s))"

lemma gen_lookup_end [simp]: "dc_gen (snd (lookup_end now t k ent gen a c)) = dc_gen c"
  by (simp add: lookup_end_def upd_entries_def split: option.split)

lemma failClosed_lookup_end [simp]: "dc_failClosed (snd (lookup_end now t k ent gen a c)) = dc_failClosed c"
  by (simp add: lookup_end_def upd_entries_def split: option.split)

lemma gens_step: "gens_ok s \<Longrightarrow> gens_ok (deny_step s e)"
proof (cases e)
  case (EndLookup i)
  assume s: "gens_ok s"
  show ?thesis unfolding EndLookup using s
    by (auto simp: gens_ok_def case_prod_unfold Let_def split: option.splits if_splits)
qed (force simp: gens_ok_def invalidate_def upd_entries_def deny_flush_def deny_gc_def lookup_begin_def
       split: option.splits if_splits)+

interpretation deny_gens: step_system deny_step gens_ok
  by unfold_locales (rule gens_step)

text \<open>
  What holds of a key once a denial has been stored and announced: every cached entry denies, and so
  does every answer that a load in flight could still put into the cache.
\<close>

definition key_denied :: "deny_table \<Rightarrow> string \<Rightarrow> deny_sys \<Rightarrow> bool" where
  "key_denied t k s \<longleftrightarrow>
     ds_store s t k \<and> gens_ok s \<and>
     (\<forall>e. dc_entries (ds_cache s) t k = Some e \<longrightarrow> de_deny e) \<and>
     (\<forall>i l. ds_loads s i = Some l \<longrightarrow> ld_table l = t \<longrightarrow> ld_key l = k \<longrightarrow> ld_gen l = dc_gen (ds_cache s) \<longrightarrow>
        ld_answer l \<noteq> Some (Some False))"

fun lifts :: "deny_table \<Rightarrow> string \<Rightarrow> deny_event \<Rightarrow> bool" where
  "lifts t k (StoreWrite t' k' d) = (t' = t \<and> k' = k \<and> \<not> d)"
| "lifts t k _ = False"

lemma invalidate_denies: "gens_ok s \<Longrightarrow> ds_store s t k \<Longrightarrow> key_denied t k (deny_step s (Invalidate t k))"
  by (fastforce simp: key_denied_def gens_ok_def invalidate_def upd_entries_def)


lemma entries_lookup_end:
  "dc_entries (snd (lookup_end now t k ent gen a c)) t' k' =
     (case a of
        Some deny \<Rightarrow> if dc_gen c = gen \<and> t' = t \<and> k' = k then Some \<lparr>de_deny = deny, de_expires = now + dc_ttl c\<rparr>
                     else dc_entries c t' k'
      | None \<Rightarrow> dc_entries c t' k')"
  by (simp add: lookup_end_def upd_entries_def split: option.split)

lemma deny_step_EndLookup:
  "ds_loads s i = Some l \<Longrightarrow> ld_answer l = Some a \<Longrightarrow>
   deny_step s (EndLookup i) =
     (let r = lookup_end (ds_now s) (ld_table l) (ld_key l) (ld_ent l) (ld_gen l) a (ds_cache s)
      in s\<lparr>ds_cache := snd r, ds_verdict := (ds_verdict s)(i \<mapsto> fst r), ds_loads := (ds_loads s)(i := None)\<rparr>)"
  by (simp add: case_prod_unfold Let_def)

lemma EndLookup_other:
  assumes "j \<noteq> i \<or> \<not> (\<exists>l a. ds_loads s i = Some l \<and> ld_answer l = Some a)"
  shows "ds_loads (deny_step s (EndLookup j)) i = ds_loads s i \<and>
     ds_verdict (deny_step s (EndLookup j)) i = ds_verdict s i"
proof (cases "\<exists>l a. ds_loads s j = Some l \<and> ld_answer l = Some a")
  case True
  then obtain l a where l: "ds_loads s j = Some l" "ld_answer l = Some a" by blast
  then have "j \<noteq> i" using assms by blast
  then show ?thesis unfolding deny_step_EndLookup [OF l] by (simp add: Let_def)
next
  case False
  then have "deny_step s (EndLookup j) = s" by (auto split: option.split)
  then show ?thesis by simp
qed

lemma key_denied_step:
  assumes s: "key_denied t k s" and e: "\<not> lifts t k e"
  shows "key_denied t k (deny_step s e)"
proof -
  have g: "gens_ok (deny_step s e)" using s gens_step by (simp add: key_denied_def)
  have le: "\<And>i l. ds_loads s i = Some l \<Longrightarrow> ld_gen l \<noteq> Suc (dc_gen (ds_cache s))"
    using s by (fastforce simp: key_denied_def gens_ok_def)
  show ?thesis
  proof (cases e)
    case (EndLookup i)
    show ?thesis
    proof (cases "\<exists>l a. ds_loads s i = Some l \<and> ld_answer l = Some a")
      case True
      then obtain l a where l: "ds_loads s i = Some l" "ld_answer l = Some a" by blast
      have "ld_table l = t \<Longrightarrow> ld_key l = k \<Longrightarrow> ld_gen l = dc_gen (ds_cache s) \<Longrightarrow> a \<noteq> Some False"
        using s l by (auto simp: key_denied_def)
      then have "dc_entries (snd (lookup_end now (ld_table l) (ld_key l) ent (ld_gen l) a (ds_cache s))) t k = Some e
          \<Longrightarrow> de_deny e" for now ent e
        using s by (cases a) (auto simp: key_denied_def entries_lookup_end split: if_splits)
      then show ?thesis
        using s g l unfolding EndLookup deny_step_EndLookup [OF l]
        by (simp add: key_denied_def Let_def)
    next
      case False
      then have "deny_step s (EndLookup i) = s" by (auto split: option.split)
      then show ?thesis using s by (simp add: EndLookup)
    qed
  next
    case (StoreAnswer i f)
    then show ?thesis using s g by (auto simp: key_denied_def split: option.splits)
  next
    case (BeginLookup i t' k')
    then show ?thesis using s g by (auto simp: key_denied_def lookup_begin_def split: option.splits if_splits)
  next
    case (Invalidate t' k')
    then show ?thesis using s g
      by (auto simp: key_denied_def invalidate_def upd_entries_def dest: le split: if_splits)
  next
    case Flush
    then show ?thesis using s g by (auto simp: key_denied_def deny_flush_def dest: le)
  next
    case Gc
    then show ?thesis using s g by (auto simp: key_denied_def deny_gc_def split: option.splits if_splits)
  next
    case (StoreWrite t' k' d)
    then show ?thesis using s g e by (auto simp: key_denied_def)
  next
    case (Wait n)
    then show ?thesis using s g by (auto simp: key_denied_def)
  qed
qed

subsection \<open>One lookup among the others\<close>

fun begins :: "nat \<Rightarrow> deny_event \<Rightarrow> bool" where
  "begins i (BeginLookup j _ _) = (j = i)"
| "begins i _ = False"

lemma unused_step:
  "\<not> begins i e \<Longrightarrow> ds_loads s i = None \<Longrightarrow> ds_verdict s i = None \<Longrightarrow>
   ds_loads (deny_step s e) i = None \<and> ds_verdict (deny_step s e) i = None"
  by (cases e) (auto simp: lookup_begin_def case_prod_unfold Let_def split: option.splits if_splits)

lemma unused_run:
  "list_all (\<lambda>e. \<not> begins i e) es \<Longrightarrow> ds_loads s i = None \<Longrightarrow> ds_verdict s i = None \<Longrightarrow>
   ds_loads (foldl deny_step s es) i = None \<and> ds_verdict (foldl deny_step s es) i = None"
  by (induction es arbitrary: s) (simp_all del: deny_step.simps add: unused_step)

lemma failClosed_step [simp]: "dc_failClosed (ds_cache (deny_step s e)) = dc_failClosed (ds_cache s)"
  by (cases e)
     (auto simp: invalidate_def upd_entries_def deny_flush_def deny_gc_def case_prod_unfold Let_def lookup_begin_def
        split: option.splits)

lemma failClosed_run [simp]: "dc_failClosed (ds_cache (foldl deny_step s es)) = dc_failClosed (ds_cache s)"
  by (induction es arbitrary: s) (simp_all del: deny_step.simps)

definition lookup_denied :: "deny_table \<Rightarrow> string \<Rightarrow> nat \<Rightarrow> deny_sys \<Rightarrow> bool" where
  "lookup_denied t k i s \<longleftrightarrow> key_denied t k s \<and> ds_verdict s i \<noteq> Some False \<and>
     (\<forall>l. ds_loads s i = Some l \<longrightarrow>
        ld_table l = t \<and> ld_key l = k \<and> ld_answer l \<noteq> Some (Some False) \<and>
        (ld_answer l = Some None \<longrightarrow> dc_failClosed (ds_cache s)))"

lemma lookup_denied_begin:
  "key_denied t k s \<Longrightarrow> ds_loads s i = None \<Longrightarrow> ds_verdict s i = None \<Longrightarrow>
   lookup_denied t k i (deny_step s (BeginLookup i t k))"
  using key_denied_step [of t k s "BeginLookup i t k"]
  by (auto simp: lookup_denied_def key_denied_def lookup_begin_def split: option.splits if_splits)

lemma lookup_denied_step:
  assumes s: "lookup_denied t k i s" and e: "\<not> lifts t k e" "\<not> begins i e"
    and f: "dc_failClosed (ds_cache s) \<or> e \<noteq> StoreAnswer i True"
  shows "lookup_denied t k i (deny_step s e)"
proof -
  have kd: "key_denied t k s" using s by (simp add: lookup_denied_def)
  have kd': "key_denied t k (deny_step s e)" using kd e(1) by (rule key_denied_step)
  have fc: "dc_failClosed (ds_cache (deny_step s e)) = dc_failClosed (ds_cache s)" by simp
  show ?thesis
  proof (cases e)
    case (EndLookup j)
    show ?thesis
    proof (cases "j = i \<and> (\<exists>l a. ds_loads s i = Some l \<and> ld_answer l = Some a)")
      case True
      then obtain l a where l: "ds_loads s i = Some l" "ld_answer l = Some a" and j: "j = i" by blast
      have "fst (lookup_end (ds_now s) (ld_table l) (ld_key l) (ld_ent l) (ld_gen l) a (ds_cache s))"
        using s l by (auto simp: lookup_denied_def lookup_end_def split: option.split)
      then show ?thesis
        using kd' unfolding EndLookup j deny_step_EndLookup [OF l] by (simp add: lookup_denied_def Let_def)
    next
      case False
      then have "ds_loads (deny_step s e) i = ds_loads s i \<and> ds_verdict (deny_step s e) i = ds_verdict s i"
        unfolding EndLookup by (intro EndLookup_other) blast
      then show ?thesis using s kd' fc unfolding lookup_denied_def by (simp del: deny_step.simps)
    qed
  next
    case (StoreAnswer j g)
    have st: "ds_store s t k" using kd by (simp add: key_denied_def)
    show ?thesis
    proof (cases "ds_loads s j")
      case None
      then show ?thesis using s by (simp add: StoreAnswer)
    next
      case (Some l)
      have l: "ld_table l = t \<and> ld_key l = k" if "j = i"
        using s Some that by (simp add: lookup_denied_def)
      have "ds_verdict (deny_step s e) = ds_verdict s"
        "ds_loads (deny_step s e) i = (if j = i then Some (l\<lparr>ld_answer := Some (if g then None else Some True)\<rparr>) else ds_loads s i)"
        using l st by (auto simp: StoreAnswer Some)
      moreover have "j = i \<Longrightarrow> g \<Longrightarrow> dc_failClosed (ds_cache s)" using f by (simp add: StoreAnswer)
      ultimately show ?thesis
        using s kd' fc l unfolding lookup_denied_def by (cases "j = i") (simp_all del: deny_step.simps)
    qed
  next
    case (BeginLookup j t' k')
    then have "j \<noteq> i" using e by simp
    then show ?thesis using s kd' unfolding lookup_denied_def BeginLookup
      by (cases "lookup_begin (ds_now s) t' k' (ds_cache s)") (simp_all add: case_prod_unfold)
  qed (use s kd' in \<open>simp_all add: lookup_denied_def invalidate_def upd_entries_def deny_flush_def deny_gc_def\<close>)
qed

lemma lookup_denied_run:
  "lookup_denied t k i s \<Longrightarrow> list_all (\<lambda>e. \<not> lifts t k e \<and> \<not> begins i e) es \<Longrightarrow>
   dc_failClosed (ds_cache s) \<or> StoreAnswer i True \<notin> set es \<Longrightarrow> lookup_denied t k i (foldl deny_step s es)"
proof (induction es arbitrary: s)
  case (Cons e es)
  then have "lookup_denied t k i (deny_step s e)" by (intro lookup_denied_step) auto
  then show ?case using Cons.prems Cons.IH [of "deny_step s e"] by (auto simp del: deny_step.simps)
qed simp

lemma key_denied_run:
  "key_denied t k s \<Longrightarrow> list_all (\<lambda>e. \<not> lifts t k e) es \<Longrightarrow> key_denied t k (foldl deny_step s es)"
  by (induction es arbitrary: s) (auto simp del: deny_step.simps intro: key_denied_step)

section \<open>Property\<close>

text \<open>
  C19: An announced denial beats the cache.  Whatever has happened before, once the store denies a key
  and its entry has been invalidated, no lookup that begins afterwards answers with an allow while
  the denial stands, in any interleaving with other lookups, slow store reads, flushes and garbage
  collection.  The one exception is a store read that faults on a controller that fails open.
\<close>

theorem announced_denial_beats_the_cache:
  assumes denied: "ds_store (foldl deny_step (deny_init ttl fc store now) es0) t k"
    and stands: "list_all (\<lambda>e. \<not> lifts t k e) (es1 @ es2)"
    and fresh: "list_all (\<lambda>e. \<not> begins i e) (es0 @ es1 @ es2)"
    and faults: "fc \<or> StoreAnswer i True \<notin> set es2"
  shows "ds_verdict (foldl deny_step (deny_init ttl fc store now)
           (es0 @ [Invalidate t k] @ es1 @ [BeginLookup i t k] @ es2)) i \<noteq> Some False"
proof -
  define s0 where "s0 = deny_init ttl fc store now"
  define s1 where "s1 = foldl deny_step s0 es0"
  define s2 where "s2 = deny_step s1 (Invalidate t k)"
  define s3 where "s3 = foldl deny_step s2 es1"
  define s4 where "s4 = deny_step s3 (BeginLookup i t k)"
  have "gens_ok s0" by (simp add: s0_def gens_ok_def deny_init_def)
  from deny_gens.run_inv [OF this] have g: "gens_ok s1" by (simp add: s1_def)
  then have "key_denied t k s2" unfolding s2_def using denied by (intro invalidate_denies) (simp_all add: s1_def s0_def)
  then have kd: "key_denied t k s3" unfolding s3_def using stands by (intro key_denied_run) simp_all
  have "ds_loads s1 i = None \<and> ds_verdict s1 i = None"
    unfolding s1_def using fresh by (intro unused_run) (simp_all add: s0_def deny_init_def)
  then have "ds_loads s2 i = None \<and> ds_verdict s2 i = None" by (simp add: s2_def)
  then have u: "ds_loads s3 i = None \<and> ds_verdict s3 i = None"
    unfolding s3_def using fresh by (intro unused_run) simp_all
  have ld: "lookup_denied t k i s4" unfolding s4_def using kd u by (intro lookup_denied_begin) simp_all
  have "dc_failClosed (ds_cache s4) = fc"
    unfolding s4_def s3_def s2_def s1_def
    by (simp del: deny_step.simps) (simp add: s0_def deny_init_def newDenyCache_def)
  then have "lookup_denied t k i (foldl deny_step s4 es2)"
    using ld stands fresh faults by (intro lookup_denied_run) (auto simp: list_all_iff)
  then show ?thesis
    unfolding lookup_denied_def s4_def s3_def s2_def s1_def s0_def by (simp del: deny_step.simps)
qed

theorem announced_denial_beats_the_cache_witness:
  "ds_verdict (foldl deny_step (deny_init 3 True (\<lambda>_ _. False) 0)
     ([BeginLookup 1 SuspEntries ''k'', StoreAnswer 1 False, StoreWrite SuspEntries ''k'' True] @
      [Invalidate SuspEntries ''k''] @ [EndLookup 1] @
      [BeginLookup 2 SuspEntries ''k''] @ [StoreAnswer 2 False, EndLookup 2])) 2 = Some True"
proof -
  note defs = deny_init_def newDenyCache_def lookup_begin_def lookup_end_def invalidate_def upd_entries_def
  have d: "ds_store (foldl deny_step (deny_init 3 True (\<lambda>_ _. False) 0)
     [BeginLookup 1 SuspEntries ''k'', StoreAnswer 1 False, StoreWrite SuspEntries ''k'' True]) SuspEntries ''k''"
    by (simp add: defs)
  have "ds_verdict (foldl deny_step (deny_init 3 True (\<lambda>_ _. False) 0)
     ([BeginLookup 1 SuspEntries ''k'', StoreAnswer 1 False, StoreWrite SuspEntries ''k'' True] @
      [Invalidate SuspEntries ''k''] @ [EndLookup 1] @
      [BeginLookup 2 SuspEntries ''k''] @ [StoreAnswer 2 False, EndLookup 2])) 2 \<noteq> Some False"
    by (rule announced_denial_beats_the_cache [where ?es0.0 = "[BeginLookup 1 SuspEntries ''k'',
        StoreAnswer 1 False, StoreWrite SuspEntries ''k'' True]" and ?es1.0 = "[EndLookup 1]" and
        ?es2.0 = "[StoreAnswer 2 False, EndLookup 2]", OF d]) simp_all
  moreover have "ds_verdict (foldl deny_step (deny_init 3 True (\<lambda>_ _. False) 0)
     ([BeginLookup 1 SuspEntries ''k'', StoreAnswer 1 False, StoreWrite SuspEntries ''k'' True] @
      [Invalidate SuspEntries ''k''] @ [EndLookup 1] @
      [BeginLookup 2 SuspEntries ''k''] @ [StoreAnswer 2 False, EndLookup 2])) 2 \<noteq> None"
    by (simp add: defs)
  moreover have "v \<noteq> Some False \<Longrightarrow> v \<noteq> None \<Longrightarrow> v = Some True" for v by auto
  ultimately show ?thesis by blast
qed

end
