(* ===== verification/Session_Signal.thy ===== *)
theory Session_Signal
  imports Agent_Gate Deny_Cache
begin

text \<open>
  Session-scoped signalling at the controller: \<open>internal/controller/sessionsignal.go\<close> (the broker of
  signalling entries and the forwarding from the agent), with the two streams a client opens on an
  entry, \<open>SessionSignal\<close> (\<open>userapi.go\<close>) and \<open>SessionControl\<close> (\<open>sessioncontrol.go\<close>).

  The two buffered channels of an entry are lists in the order of sending; a send to a full channel
  is dropped, as the code does.  A closed entry leaves the table and stays readable to the stream
  that is attached to it, so the closed entries are kept beside the table.  Every operation is one
  critical section of the broker's mutex or one receive of a stream handler.
\<close>

section \<open>Data\<close>

record Identity =
  id_Workspace :: string
  id_Name :: string
  id_Roles :: "string list"
  id_Subject :: string
  id_Provider :: string

datatype ControllerEnforcement =
    CE_SessionLease SessionLease
  | CE_SessionPolicyDelta SessionPolicyDelta
  | CE_SessionRevoke SessionRevoke

record IceCreds =
  ic_Ufrag :: string
  ic_Pwd :: string

text \<open>The body of a \<open>DiscoMsg\<close> an agent sends; the last two are never sent by an agent.\<close>

datatype disco_body =
    DiscoIceCreds IceCreds
  | DiscoEndpoints "string list"
  | DiscoCallMeMaybe "string list"
  | DiscoPunchAt string

record ControllerSignal =
  sg_IceCreds :: "IceCreds option"
  sg_Candidates :: "string list"
  sg_Controlling :: bool
  sg_Notice :: "bytes option" \<comment> \<open>a drain notice or a re-home, written by the controller itself\<close>

record sigEntry =
  si_ws :: string
  si_nodeID :: string
  si_controlling :: bool
  si_user :: string
  si_subject :: string
  si_provider :: string
  si_toClient :: "ControllerSignal list"
  si_attached :: bool
  si_toControl :: "ControllerEnforcement list"
  si_controlAttached :: bool
  si_expiry :: gotime

record sessionSignalBroker =
  sb_entries :: "string \<rightharpoonup> sigEntry"
  sb_closed :: "(string \<times> sigEntry) list"

definition sessionEntryTTL :: duration where "sessionEntryTTL = 3 * minute"

definition toClientCap :: nat where "toClientCap = 32"

definition toControlCap :: nat where "toControlCap = 16"

section \<open>The broker\<close>

definition newSessionSignalBroker :: sessionSignalBroker where
  "newSessionSignalBroker = \<lparr>sb_entries = Map.empty, sb_closed = []\<rparr>"

definition authorizes :: "sigEntry \<Rightarrow> Identity \<Rightarrow> bool" where
  "authorizes e ident =
     (if id_Workspace ident \<noteq> si_ws e then False
      else if si_subject e \<noteq> [] then
        id_Subject ident = si_subject e \<and> normProvider (id_Provider ident) = normProvider (si_provider e)
      else id_Name ident = si_user e)"

definition register ::
    "gotime \<Rightarrow> string \<Rightarrow> string \<Rightarrow> string \<Rightarrow> bool \<Rightarrow> string \<Rightarrow> string \<Rightarrow> string \<Rightarrow> sessionSignalBroker \<Rightarrow> sessionSignalBroker" where
  "register now sessionID ws nodeID controlling user subject provider b =
     b\<lparr>sb_entries := (sb_entries b)(sessionID \<mapsto>
        \<lparr>si_ws = ws, si_nodeID = nodeID, si_controlling = controlling, si_user = user,
         si_subject = subject, si_provider = provider, si_toClient = [], si_attached = False,
         si_toControl = [], si_controlAttached = False, si_expiry = now + sessionEntryTTL\<rparr>)\<rparr>"

definition unregister :: "string \<Rightarrow> sessionSignalBroker \<Rightarrow> sessionSignalBroker" where
  "unregister sessionID b =
     (case sb_entries b sessionID of
        None \<Rightarrow> b
      | Some e \<Rightarrow> \<lparr>sb_entries = (sb_entries b)(sessionID := None), sb_closed = sb_closed b @ [(sessionID, e)]\<rparr>)"

definition get :: "gotime \<Rightarrow> string \<Rightarrow> sessionSignalBroker \<Rightarrow> sigEntry option \<times> sessionSignalBroker" where
  "get now sessionID b =
     (case sb_entries b sessionID of
        None \<Rightarrow> (None, b)
      | Some e \<Rightarrow> if \<not> now < si_expiry e then (None, unregister sessionID b) else (Some e, b))"

definition upd_entry :: "string \<Rightarrow> (sigEntry \<Rightarrow> sigEntry) \<Rightarrow> sessionSignalBroker \<Rightarrow> sessionSignalBroker" where
  "upd_entry sessionID f b =
     (case sb_entries b sessionID of
        None \<Rightarrow> b
      | Some e \<Rightarrow> b\<lparr>sb_entries := (sb_entries b)(sessionID \<mapsto> f e)\<rparr>)"

definition touch :: "gotime \<Rightarrow> string \<Rightarrow> sessionSignalBroker \<Rightarrow> sessionSignalBroker" where
  "touch now sessionID = upd_entry sessionID (\<lambda>e. e\<lparr>si_expiry := now + sessionEntryTTL\<rparr>)"

text \<open>\<open>ids\<close> is the order in which the map is iterated.\<close>

fun sweepExpired :: "gotime \<Rightarrow> string list \<Rightarrow> sessionSignalBroker \<Rightarrow> sessionSignalBroker" where
  "sweepExpired now [] b = b"
| "sweepExpired now (sid # ids) b = sweepExpired now ids (snd (get now sid b))"

definition deliverToClient ::
    "gotime \<Rightarrow> string \<Rightarrow> ControllerSignal \<Rightarrow> sessionSignalBroker \<Rightarrow> bool \<times> sessionSignalBroker" where
  "deliverToClient now sessionID sig b =
     (case get now sessionID b of
        (None, b') \<Rightarrow> (False, b')
      | (Some e, b') \<Rightarrow>
          if length (si_toClient e) < toClientCap
          then (True, upd_entry sessionID (\<lambda>e. e\<lparr>si_toClient := si_toClient e @ [sig]\<rparr>) b')
          else (False, b'))"

definition deliverControl ::
    "gotime \<Rightarrow> string \<Rightarrow> ControllerEnforcement \<Rightarrow> sessionSignalBroker \<Rightarrow> bool \<times> sessionSignalBroker" where
  "deliverControl now sessionID ctl b =
     (case get now sessionID b of
        (None, b') \<Rightarrow> (False, b')
      | (Some e, b') \<Rightarrow>
          if length (si_toControl e) < toControlCap
          then (True, upd_entry sessionID (\<lambda>e. e\<lparr>si_toControl := si_toControl e @ [ctl]\<rparr>) b')
          else (False, b'))"

definition teardownSession :: "string \<Rightarrow> sessionSignalBroker \<Rightarrow> sessionSignalBroker" where
  "teardownSession sessionID b = unregister sessionID b"

definition forwardAgentSignalToClient ::
    "gotime \<Rightarrow> string \<Rightarrow> string \<Rightarrow> string \<Rightarrow> disco_body \<Rightarrow> sessionSignalBroker \<Rightarrow> sessionSignalBroker" where
  "forwardAgentSignalToClient now ws fromNodeID sessionID d b =
     (case get now sessionID b of
        (loc, b1) \<Rightarrow>
          if (case loc of None \<Rightarrow> False | Some e \<Rightarrow> si_nodeID e \<noteq> fromNodeID \<or> si_ws e \<noteq> ws) then b1
          else
            let controlling = (case loc of None \<Rightarrow> False | Some e \<Rightarrow> si_controlling e);
                sig = (case d of
                    DiscoIceCreds c \<Rightarrow>
                      Some \<lparr>sg_IceCreds = Some c, sg_Candidates = [], sg_Controlling = controlling, sg_Notice = None\<rparr>
                  | DiscoEndpoints addrs \<Rightarrow>
                      Some \<lparr>sg_IceCreds = None, sg_Candidates = addrs, sg_Controlling = controlling, sg_Notice = None\<rparr>
                  | _ \<Rightarrow> None)
            in case (sig, loc) of
                 (Some sg, Some _) \<Rightarrow> snd (deliverToClient now sessionID sg b1)
               | _ \<Rightarrow> b1)"

section \<open>The client streams\<close>

datatype stream_error = Unauthenticated | NoSessionId | NoSuchSession | OtherPrincipal | AlreadyAttached

text \<open>
  A client stream from its first message to the claim of the entry; \<open>ident\<close> is the verified identity
  of the connection, if there is one.
\<close>

definition SessionControl_open ::
    "gotime \<Rightarrow> Identity option \<Rightarrow> string \<Rightarrow> sessionSignalBroker \<Rightarrow> (stream_error + unit) \<times> sessionSignalBroker" where
  "SessionControl_open now ident sid b =
     (case ident of
        None \<Rightarrow> (Inl Unauthenticated, b)
      | Some who \<Rightarrow>
          if sid = [] then (Inl NoSessionId, b)
          else
            (case get now sid b of
               (None, b') \<Rightarrow> (Inl NoSuchSession, b')
             | (Some e, b') \<Rightarrow>
                 if \<not> authorizes e who then (Inl OtherPrincipal, b')
                 else if si_controlAttached e then (Inl AlreadyAttached, b')
                 else (Inr (), upd_entry sid (\<lambda>e. e\<lparr>si_controlAttached := True\<rparr>) b')))"

definition SessionSignal_open ::
    "gotime \<Rightarrow> Identity option \<Rightarrow> string \<Rightarrow> sessionSignalBroker \<Rightarrow> (stream_error + unit) \<times> sessionSignalBroker" where
  "SessionSignal_open now ident sid b =
     (case ident of
        None \<Rightarrow> (Inl Unauthenticated, b)
      | Some who \<Rightarrow>
          if sid = [] then (Inl NoSessionId, b)
          else
            (case get now sid b of
               (None, b') \<Rightarrow> (Inl NoSuchSession, b')
             | (Some e, b') \<Rightarrow>
                 if \<not> authorizes e who then (Inl OtherPrincipal, b')
                 else if si_attached e then (Inl AlreadyAttached, b')
                 else (Inr (), upd_entry sid (\<lambda>e. e\<lparr>si_attached := True\<rparr>) b')))"

text \<open>One receive from a channel by the attached stream, and the final flush once the entry is closed.\<close>

definition SessionControl_next :: "string \<Rightarrow> sessionSignalBroker \<Rightarrow> ControllerEnforcement option \<times> sessionSignalBroker" where
  "SessionControl_next sid b =
     (case sb_entries b sid of
        None \<Rightarrow> (None, b)
      | Some e \<Rightarrow>
          (case si_toControl e of
             [] \<Rightarrow> (None, b)
           | ctl # rest \<Rightarrow> (Some ctl, upd_entry sid (\<lambda>e. e\<lparr>si_toControl := rest\<rparr>) b)))"

definition SessionControl_flush :: "sigEntry \<Rightarrow> ControllerEnforcement list" where
  "SessionControl_flush e = (if si_controlAttached e then si_toControl e else [])"

definition SessionSignal_next :: "string \<Rightarrow> sessionSignalBroker \<Rightarrow> ControllerSignal option \<times> sessionSignalBroker" where
  "SessionSignal_next sid b =
     (case sb_entries b sid of
        None \<Rightarrow> (None, b)
      | Some e \<Rightarrow>
          (case si_toClient e of
             [] \<Rightarrow> (None, b)
           | sg # rest \<Rightarrow> (Some sg, upd_entry sid (\<lambda>e. e\<lparr>si_toClient := rest\<rparr>) b)))"

definition SessionControl_close :: "string \<Rightarrow> sessionSignalBroker \<Rightarrow> sessionSignalBroker" where
  "SessionControl_close sid = upd_entry sid (\<lambda>e. e\<lparr>si_controlAttached := False\<rparr>)"

definition SessionSignal_close :: "string \<Rightarrow> sessionSignalBroker \<Rightarrow> sessionSignalBroker" where
  "SessionSignal_close sid = upd_entry sid (\<lambda>e. e\<lparr>si_attached := False\<rparr>)"

section \<open>Histories\<close>

datatype broker_event =
    BRegister gotime string string string bool string string string
  | BUnregister string
  | BTouch gotime string
  | BSweep gotime "string list"
  | BAgentSignal gotime string string string disco_body
  | BNotice gotime string ControllerSignal
  | BControl gotime string ControllerEnforcement
  | BOpenSignal gotime "Identity option" string
  | BOpenControl gotime "Identity option" string
  | BRecvSignal string
  | BRecvControl string
  | BCloseSignal string
  | BCloseControl string

fun broker_step :: "sessionSignalBroker \<Rightarrow> broker_event \<Rightarrow> sessionSignalBroker" where
  "broker_step b (BRegister now sid ws node controlling user subject provider) =
     register now sid ws node controlling user subject provider b"
| "broker_step b (BUnregister sid) = unregister sid b"
| "broker_step b (BTouch now sid) = touch now sid b"
| "broker_step b (BSweep now ids) = sweepExpired now ids b"
| "broker_step b (BAgentSignal now ws node sid d) = forwardAgentSignalToClient now ws node sid d b"
| "broker_step b (BNotice now sid sg) = snd (deliverToClient now sid sg b)"
| "broker_step b (BControl now sid ctl) = snd (deliverControl now sid ctl b)"
| "broker_step b (BOpenSignal now ident sid) = snd (SessionSignal_open now ident sid b)"
| "broker_step b (BOpenControl now ident sid) = snd (SessionControl_open now ident sid b)"
| "broker_step b (BRecvSignal sid) = snd (SessionSignal_next sid b)"
| "broker_step b (BRecvControl sid) = snd (SessionControl_next sid b)"
| "broker_step b (BCloseSignal sid) = SessionSignal_close sid b"
| "broker_step b (BCloseControl sid) = SessionControl_close sid b"

section \<open>Lemmas\<close>

lemma entries_unregister [simp]: "sb_entries (unregister sid b) = (sb_entries b)(sid := None)"
  by (auto simp: unregister_def split: option.splits)

lemma entries_upd_entry [simp]:
  "sb_entries (upd_entry sid f b) x = (if x = sid then map_option f (sb_entries b sid) else sb_entries b x)"
  by (auto simp: upd_entry_def split: option.splits)

lemma entries_get:
  "sb_entries (snd (get now sid b)) x =
     (if x = sid \<and> (case sb_entries b sid of None \<Rightarrow> True | Some e \<Rightarrow> \<not> now < si_expiry e) then None
      else sb_entries b x)"
  by (auto simp: get_def split: option.splits)

lemma get_Some: "get now sid b = (Some e, b') \<longleftrightarrow> sb_entries b sid = Some e \<and> now < si_expiry e \<and> b' = b"
  by (auto simp: get_def split: option.splits)

lemma get_None: "get now sid b = (None, b') \<Longrightarrow> b' = (if sb_entries b sid = None then b else unregister sid b)"
  by (auto simp: get_def split: option.splits if_splits)

lemma entries_sweep: "sb_entries (sweepExpired now ids b) x = Some e \<Longrightarrow> sb_entries b x = Some e"
proof (induction ids arbitrary: b)
  case (Cons sid ids)
  then have "sb_entries (snd (get now sid b)) x = Some e" by simp
  then show ?case by (simp add: entries_get split: if_splits)
qed simp

text \<open>What one operation may do to an entry that is there before and after it.\<close>

definition same_pair :: "sigEntry \<Rightarrow> sigEntry \<Rightarrow> bool" where
  "same_pair e e' \<longleftrightarrow>
     si_ws e' = si_ws e \<and> si_nodeID e' = si_nodeID e \<and> si_user e' = si_user e \<and>
     si_subject e' = si_subject e \<and> si_provider e' = si_provider e \<and> si_controlling e' = si_controlling e"

lemma deliverToClient_entry:
  assumes "sb_entries (snd (deliverToClient now sid sg b)) x = Some e'"
  shows "\<exists>e. sb_entries b x = Some e \<and>
     (e' = e \<or> x = sid \<and> e' = e\<lparr>si_toClient := si_toClient e @ [sg]\<rparr>)"
  using assms
  by (cases "sb_entries b sid") (auto simp: deliverToClient_def get_def split: if_splits)

lemma deliverControl_entry:
  assumes "sb_entries (snd (deliverControl now sid ctl b)) x = Some e'"
  shows "\<exists>e. sb_entries b x = Some e \<and>
     (e' = e \<or> x = sid \<and> e' = e\<lparr>si_toControl := si_toControl e @ [ctl]\<rparr>)"
  using assms
  by (cases "sb_entries b sid") (auto simp: deliverControl_def get_def split: if_splits)

lemma open_control_entry:
  assumes "sb_entries (snd (SessionControl_open now ident sid b)) x = Some e'"
  shows "\<exists>e. sb_entries b x = Some e \<and>
     (e' = e \<or> x = sid \<and> e' = e\<lparr>si_controlAttached := True\<rparr> \<and> \<not> si_controlAttached e \<and>
        (\<exists>who. ident = Some who \<and> authorizes e who))"
  using assms
  by (cases ident; cases "sb_entries b sid") (auto simp: SessionControl_open_def get_def split: if_splits)

lemma open_signal_entry:
  assumes "sb_entries (snd (SessionSignal_open now ident sid b)) x = Some e'"
  shows "\<exists>e. sb_entries b x = Some e \<and>
     (e' = e \<or> x = sid \<and> e' = e\<lparr>si_attached := True\<rparr> \<and> \<not> si_attached e \<and>
        (\<exists>who. ident = Some who \<and> authorizes e who))"
  using assms
  by (cases ident; cases "sb_entries b sid") (auto simp: SessionSignal_open_def get_def split: if_splits)

lemma agent_signal_entry:
  assumes "sb_entries (forwardAgentSignalToClient now ws node sid d b) x = Some e'"
  shows "\<exists>e. sb_entries b x = Some e \<and>
     (e' = e \<or> x = sid \<and> si_ws e = ws \<and> si_nodeID e = node \<and>
        (\<exists>sg. e' = e\<lparr>si_toClient := si_toClient e @ [sg]\<rparr>))"
proof (cases "get now sid b")
  case (Pair r b1)
  show ?thesis
  proof (cases r)
    case None
    then have "forwardAgentSignalToClient now ws node sid d b = b1"
      using Pair by (auto simp: forwardAgentSignalToClient_def split: disco_body.splits)
    with assms Pair None show ?thesis by (auto dest!: get_None split: if_splits)
  next
    case (Some e)
    with Pair have b: "b1 = b" "sb_entries b sid = Some e" by (auto simp: get_Some)
    show ?thesis
    proof (cases "si_nodeID e = node \<and> si_ws e = ws")
      case False
      with Pair Some b assms show ?thesis by (auto simp: forwardAgentSignalToClient_def)
    next
      case True
      then have "forwardAgentSignalToClient now ws node sid d b = b \<or>
          (\<exists>sg. forwardAgentSignalToClient now ws node sid d b = snd (deliverToClient now sid sg b))"
        using Pair Some b by (cases d) (auto simp: forwardAgentSignalToClient_def)
      then show ?thesis
        using assms True b by (fastforce dest!: deliverToClient_entry)
    qed
  qed
qed

lemma sweep_same: "sb_entries (sweepExpired now ids b) x = Some e' \<Longrightarrow> \<exists>e. sb_entries b x = Some e \<and> e' = e"
  using entries_sweep by blast

section \<open>Properties\<close>

text \<open>
  Signalling stays between the two principals of the grant.  Whatever operation runs, an entry
  that is there before and after it keeps its workspace, node and principal; a signal appears in its
  client buffer only if the controller itself put it there or it came from the node the session was
  brokered to, in the same workspace; and a signalling or control stream becomes attached only for
  an identity the entry authorizes, and only if none was attached.
\<close>

theorem signalling_stays_between_the_pair:
  assumes "sb_entries b sid = Some e" and "sb_entries (broker_step b ev) sid = Some e'"
    and "\<forall>now ws node c u s p. ev \<noteq> BRegister now sid ws node c u s p"
  shows "same_pair e e' \<and>
    (\<forall>sg. sg \<in> set (si_toClient e') \<and> sg \<notin> set (si_toClient e) \<longrightarrow>
       (\<exists>now. ev = BNotice now sid sg) \<or> (\<exists>now d. ev = BAgentSignal now (si_ws e) (si_nodeID e) sid d)) \<and>
    (si_attached e' \<and> \<not> si_attached e \<longrightarrow> (\<exists>now who. ev = BOpenSignal now (Some who) sid \<and> authorizes e who)) \<and>
    (si_controlAttached e' \<and> \<not> si_controlAttached e \<longrightarrow>
       (\<exists>now who. ev = BOpenControl now (Some who) sid \<and> authorizes e who))"
proof (cases ev)
  case (BAgentSignal now ws node sid' d)
  with assms show ?thesis by (auto simp: same_pair_def dest!: agent_signal_entry)
next
  case (BNotice now sid' sg)
  with assms show ?thesis by (auto simp: same_pair_def dest!: deliverToClient_entry)
next
  case (BControl now sid' ctl)
  with assms show ?thesis by (auto simp: same_pair_def dest!: deliverControl_entry)
next
  case (BOpenSignal now ident sid')
  with assms show ?thesis by (auto simp: same_pair_def dest!: open_signal_entry)
next
  case (BOpenControl now ident sid')
  with assms show ?thesis by (auto simp: same_pair_def dest!: open_control_entry)
next
  case (BSweep now ids)
  with assms show ?thesis by (auto simp: same_pair_def dest!: sweep_same)
next
  case (BRecvSignal sid')
  with assms show ?thesis
    by (auto simp: same_pair_def SessionSignal_next_def split: option.splits list.splits if_splits)
next
  case (BRecvControl sid')
  with assms show ?thesis
    by (auto simp: same_pair_def SessionControl_next_def split: option.splits list.splits if_splits)
qed (use assms in \<open>auto simp: same_pair_def register_def touch_def SessionSignal_close_def
       SessionControl_close_def split: if_splits\<close>)

definition demo_broker :: sessionSignalBroker where
  "demo_broker = register 0 ''s1'' ''w'' ''n1'' True ''alice'' ''sub'' ''oidc'' newSessionSignalBroker"

theorem signalling_stays_between_the_pair_witness:
  "length (si_toClient (the (sb_entries (broker_step demo_broker
     (BAgentSignal 1 ''w'' ''n1'' ''s1'' (DiscoEndpoints [''a'']))) ''s1''))) = 1 \<and>
   same_pair (the (sb_entries demo_broker ''s1''))
     (the (sb_entries (broker_step demo_broker (BAgentSignal 1 ''w'' ''n1'' ''s1'' (DiscoEndpoints [''a'']))) ''s1''))"
proof -
  let ?b = "broker_step demo_broker (BAgentSignal 1 ''w'' ''n1'' ''s1'' (DiscoEndpoints [''a'']))"
  have 1: "sb_entries demo_broker ''s1'' = Some (the (sb_entries demo_broker ''s1''))"
    by (simp add: demo_broker_def register_def newSessionSignalBroker_def)
  have 2: "sb_entries ?b ''s1'' = Some (the (sb_entries ?b ''s1''))" "length (si_toClient (the (sb_entries ?b ''s1''))) = 1"
    by (simp_all add: demo_broker_def register_def newSessionSignalBroker_def forwardAgentSignalToClient_def
          deliverToClient_def get_def upd_entry_def sessionEntryTTL_def minute_def second_def toClientCap_def)
  from signalling_stays_between_the_pair [OF 1 2(1)] 2(2) show ?thesis by blast
qed

end
