(* ===== verification/Overlay_Pool.thy ===== *)
theory Overlay_Pool
  imports Go_Std Geneza_Prelude "HOL-Library.Word"
begin

unbundle bit_operations_syntax

text \<open>
  Overlay addresses: \<open>internal/controller/overlay.go\<close> (the per-session pool, the machine pool and the
  allocator over an arbitrary subnet), with the two callers that make an assignment durable
  (\<open>ensureNodeOverlayIP\<close> of \<open>dns.go\<close>, \<open>networkOverlayIP\<close> of \<open>networkpush.go\<close>).

  An address is its bytes, 4 or 16 of them; \<open>IP_Mask\<close>, \<open>To4\<close>, \<open>Contains\<close> and \<open>Mask_Size\<close> are those of
  the package \<open>net\<close>.  A parsed subnet is given by its address and mask; the textual form of a 16-byte
  address is an argument of the allocator.  The loop over a subnet is a partial function: it is a
  theorem, not an assumption, that it returns.
\<close>

section \<open>Session addresses\<close>

definition overlayClientFirst :: nat where "overlayClientFirst = 128"
definition overlayClientLast :: nat where "overlayClientLast = 254"
definition overlayMachineFirst :: nat where "overlayMachineFirst = 2"
definition overlayMachineLast :: nat where "overlayMachineLast = 126"

definition overlay_addr :: "nat \<Rightarrow> string" where
  "overlay_addr x = ''100.64.0.'' @ FormatUint x"

definition OverlayResolverIP :: string where "OverlayResolverIP = ''100.64.0.53''"

record overlayAllocator =
  oa_used :: "string set"
  oa_next :: nat

definition newOverlayAllocator :: overlayAllocator where
  "newOverlayAllocator = \<lparr>oa_used = {}, oa_next = overlayClientFirst\<rparr>"

fun alloc_loop :: "nat \<Rightarrow> overlayAllocator \<Rightarrow> string option \<times> overlayAllocator" where
  "alloc_loop 0 a = (None, a)"
| "alloc_loop (Suc i) a =
     (let x = oa_next a;
          a1 = a\<lparr>oa_next := if x + 1 > overlayClientLast then overlayClientFirst else x + 1\<rparr>;
          ip = overlay_addr x
      in if ip \<notin> oa_used a1 then (Some ip, a1\<lparr>oa_used := insert ip (oa_used a1)\<rparr>)
         else alloc_loop i a1)"

definition alloc :: "overlayAllocator \<Rightarrow> string option \<times> overlayAllocator" where
  "alloc a = alloc_loop (overlayClientLast - overlayClientFirst + 1) a"

definition release :: "string \<Rightarrow> overlayAllocator \<Rightarrow> overlayAllocator" where
  "release ip a = (if ip = [] then a else a\<lparr>oa_used := oa_used a - {ip}\<rparr>)"

section \<open>Machine addresses\<close>

fun machine_loop :: "nat list \<Rightarrow> string set \<Rightarrow> string option" where
  "machine_loop [] used = None"
| "machine_loop (x # xs) used =
     (let ip = overlay_addr x in
      if ip = OverlayResolverIP \<or> ip \<in> used then machine_loop xs used else Some ip)"

definition allocMachineIP :: "string set \<Rightarrow> string option" where
  "allocMachineIP used = machine_loop [overlayMachineFirst ..< overlayMachineLast + 1] used"

section \<open>Addresses of a subnet\<close>

type_synonym ipbytes = "nat list"

record IPNet =
  net_IP :: ipbytes
  net_Mask :: ipbytes

definition To4 :: "ipbytes \<Rightarrow> ipbytes option" where
  "To4 ip =
     (if length ip = 4 then Some ip
      else if length ip = 16 \<and> take 10 ip = replicate 10 0 \<and> ip ! 10 = 255 \<and> ip ! 11 = 255
      then Some (drop 12 ip) else None)"

definition IP_Mask :: "ipbytes \<Rightarrow> ipbytes \<Rightarrow> ipbytes" where
  "IP_Mask ip msk =
     (let m' = (if length msk = 16 \<and> length ip = 4 \<and> take 12 msk = replicate 12 255 then drop 12 msk else msk);
          ip' = (if length m' = 4 \<and> length ip = 16 \<and> To4 ip \<noteq> None then drop 12 ip else ip)
      in if length ip' \<noteq> length m' then [] else map2 (AND) ip' m')"

definition Contains :: "IPNet \<Rightarrow> ipbytes \<Rightarrow> bool" where
  "Contains n ip =
     (let nn = (case To4 (net_IP n) of Some v \<Rightarrow> v | None \<Rightarrow> net_IP n);
          m = (if length (net_Mask n) = 16 \<and> length nn = 4 then drop 12 (net_Mask n) else net_Mask n);
          x = (case To4 ip of Some v \<Rightarrow> v | None \<Rightarrow> ip)
      in if length x \<noteq> length nn then False
         else list_all (\<lambda>i. nn ! i AND m ! i = x ! i AND m ! i) [0 ..< length x])"

fun byte_ones :: "nat \<Rightarrow> nat" where
  "byte_ones b = (if b = 255 then 8 else if b = 254 then 7 else if b = 252 then 6 else if b = 248 then 5
                  else if b = 240 then 4 else if b = 224 then 3 else if b = 192 then 2 else if b = 128 then 1 else 0)"

definition Mask_Size :: "ipbytes \<Rightarrow> nat \<times> nat" where
  "Mask_Size m = (sum_list (map byte_ones m), 8 * length m)"

text \<open>\<open>incIP\<close> adds one to the number the bytes write, from the last byte on.\<close>

fun inc_rev :: "nat list \<Rightarrow> nat list" where
  "inc_rev [] = []"
| "inc_rev (b # bs) = (let b' = (b + 1) mod 256 in if b' \<noteq> 0 then b' # bs else b' # inc_rev bs)"

definition incIP :: "ipbytes \<Rightarrow> ipbytes" where
  "incIP ip = rev (inc_rev (rev ip))"

definition isBroadcast :: "ipbytes \<Rightarrow> IPNet \<Rightarrow> bool" where
  "isBroadcast ip n =
     (case To4 ip of
        None \<Rightarrow> False
      | Some v4 \<Rightarrow> v4 = map (\<lambda>i. v4 ! i OR (255 - net_Mask n ! i)) [0 ..< length v4])"

definition IP_String :: "(ipbytes \<Rightarrow> string) \<Rightarrow> ipbytes \<Rightarrow> string" where
  "IP_String str6 ip =
     (case To4 ip of Some v \<Rightarrow> strings_Join (map FormatUint v) ''.'' | None \<Rightarrow> str6 ip)"

partial_function (option) subnet_loop ::
    "(ipbytes \<Rightarrow> string) \<Rightarrow> IPNet \<Rightarrow> ipbytes \<Rightarrow> string set \<Rightarrow> ipbytes \<Rightarrow> (string option) option" where
  "subnet_loop str6 n controller used cur =
     (if \<not> Contains n cur then Some None
      else let s = IP_String str6 cur in
           if \<not> isBroadcast cur n \<and> s \<noteq> IP_String str6 controller \<and> s \<notin> used then Some (Some s)
           else subnet_loop str6 n controller used (incIP cur))"

declare subnet_loop.simps [code]

text \<open>The subnet as \<open>net.ParseCIDR\<close> yields it: the address as written and the network.\<close>

definition allocIPInCIDR ::
    "(ipbytes \<Rightarrow> string) \<Rightarrow> (ipbytes \<times> IPNet) option \<Rightarrow> string set \<Rightarrow> (string option) option" where
  "allocIPInCIDR str6 parsed used =
     (case parsed of
        None \<Rightarrow> Some None
      | Some (addr, n) \<Rightarrow>
          let ip = IP_Mask addr (net_Mask n);
              (ones, bits) = Mask_Size (net_Mask n)
          in if int bits - int ones < 2 then Some None
             else
               let controller = incIP ip
               in subnet_loop str6 n controller used (incIP controller))"

section \<open>Durable assignments\<close>

text \<open>The nodes of a workspace with their overlay address; empty means not assigned.\<close>

type_synonym node_table = "(string \<times> string) list"

definition put_node :: "string \<Rightarrow> string \<Rightarrow> node_table \<Rightarrow> node_table" where
  "put_node nid ip tbl = (nid, ip) # filter (\<lambda>(n, _). n \<noteq> nid) tbl"

record node_io =
  ni_get :: bool \<comment> \<open>\<open>GetNode\<close> succeeds\<close>
  ni_list :: bool \<comment> \<open>\<open>ListNodes\<close> succeeds\<close>
  ni_put :: bool \<comment> \<open>\<open>PutNode\<close> succeeds\<close>

definition ensureNodeOverlayIP :: "node_io \<Rightarrow> string \<Rightarrow> string \<Rightarrow> node_table \<Rightarrow> string option \<times> node_table" where
  "ensureNodeOverlayIP io nid overlayIP tbl =
     (if overlayIP \<noteq> [] then (Some overlayIP, tbl)
      else
        let fresh = (if ni_get io then map_of tbl nid else None) in
        (case fresh of
           Some (c # cs) \<Rightarrow> (Some (c # cs), tbl)
         | _ \<Rightarrow>
             let used = (if ni_list io then set (filter (\<lambda>ip. ip \<noteq> []) (map snd tbl)) else {}) in
             (case allocMachineIP used of
                None \<Rightarrow> (None, tbl)
              | Some ip \<Rightarrow> if \<not> ni_put io then (None, tbl) else (Some ip, put_node nid ip tbl))))"

section \<open>Addresses of a Network\<close>

text \<open>\<open>vniForWorkspace\<close>: the 24-bit id of a workspace's default Network.\<close>

definition fnv1a32 :: "string \<Rightarrow> 32 word" where
  "fnv1a32 s = foldl (\<lambda>h c. (h XOR of_nat (of_char c)) * 16777619) 2166136261 s"

definition vniForWorkspace :: "string \<Rightarrow> 32 word" where
  "vniForWorkspace wsid =
     (if wsid = ''default'' then 1
      else let v = fnv1a32 wsid AND 0xFFFFFF in if v = 0 \<or> v = 1 then v + 2 else v)"

record NetworkRecord =
  nw_ID :: string
  nw_VNI :: "32 word"

record subnet_record =
  sn_NetworkID :: string
  sn_CIDR :: string

definition defaultOverlayCIDR :: string where "defaultOverlayCIDR = ''100.64.0.0/24''"

text \<open>Each argument is what the store returns: the subnets, and the workspace's own overlay subnet.\<close>

definition networkSubnet :: "subnet_record list option \<Rightarrow> string option \<Rightarrow> NetworkRecord \<Rightarrow> string" where
  "networkSubnet subs wsRec net =
     (case Option.bind subs (List.find (\<lambda>sn. sn_NetworkID sn = nw_ID net \<and> sn_CIDR sn \<noteq> [])) of
        Some sn \<Rightarrow> sn_CIDR sn
      | None \<Rightarrow> (case wsRec of Some (c # cs) \<Rightarrow> c # cs | _ \<Rightarrow> defaultOverlayCIDR))"

record overlay_state =
  ov_nodes :: node_table
  ov_bindings :: "32 word \<Rightarrow> node_table" \<comment> \<open>the bindings of a workspace, per VNI\<close>

record bind_io =
  bi_get1 :: bool \<comment> \<open>\<open>GetBinding\<close> before the lock succeeds\<close>
  bi_get2 :: bool \<comment> \<open>\<open>GetBinding\<close> under the lock succeeds\<close>
  bi_list :: bool \<comment> \<open>\<open>ListBindings\<close> succeeds\<close>
  bi_put :: bool \<comment> \<open>\<open>PutBinding\<close> succeeds\<close>

definition bound_ip :: "bool \<Rightarrow> node_table \<Rightarrow> string \<Rightarrow> string option" where
  "bound_ip got tbl nid =
     (case (if got then map_of tbl nid else None) of Some (c # cs) \<Rightarrow> Some (c # cs) | _ \<Rightarrow> None)"

definition networkOverlayIP ::
    "(ipbytes \<Rightarrow> string) \<Rightarrow> (string \<Rightarrow> (ipbytes \<times> IPNet) option) \<Rightarrow> bind_io \<Rightarrow> node_io \<Rightarrow>
     string \<Rightarrow> string \<Rightarrow> NetworkRecord \<Rightarrow> string \<Rightarrow> string \<Rightarrow> overlay_state \<Rightarrow> (string option \<times> overlay_state) option" where
  "networkOverlayIP str6 ParseCIDR io nio wsid cidr net nid overlayIP st =
     (if nw_VNI net = vniForWorkspace wsid
      then let (r, tbl) = ensureNodeOverlayIP nio nid overlayIP (ov_nodes st) in Some (r, st\<lparr>ov_nodes := tbl\<rparr>)
      else
        let tbl = ov_bindings st (nw_VNI net) in
        (case bound_ip (bi_get1 io) tbl nid of
           Some ip \<Rightarrow> Some (Some ip, st)
         | None \<Rightarrow>
             (case bound_ip (bi_get2 io) tbl nid of
                Some ip \<Rightarrow> Some (Some ip, st)
              | None \<Rightarrow>
                  let used = (if bi_list io then set (map snd tbl) else {}) in
                  (case allocIPInCIDR str6 (ParseCIDR cidr) used of
                     None \<Rightarrow> None
                   | Some None \<Rightarrow> Some (None, st)
                   | Some (Some ip) \<Rightarrow>
                       if \<not> bi_put io then Some (None, st)
                       else Some (Some ip, st\<lparr>ov_bindings := (ov_bindings st)(nw_VNI net := put_node nid ip tbl)\<rparr>)))))"

section \<open>The contract of a pool\<close>

text \<open>
  A pool picks an address of its space that is not in use, and gives up only when the whole space is
  in use.
\<close>

locale address_pool =
  fixes pick :: "'a set \<Rightarrow> 'a option"
    and space :: "'a set"
  assumes pick_free: "pick used = Some x \<Longrightarrow> x \<in> space \<and> x \<notin> used"
    and pick_exhausted: "pick used = None \<Longrightarrow> space \<subseteq> used"
begin

lemma pick_fresh: "distinct xs \<Longrightarrow> set xs \<subseteq> space \<Longrightarrow> pick (set xs) = Some x \<Longrightarrow>
    distinct (x # xs) \<and> set (x # xs) \<subseteq> space"
  using pick_free by fastforce

lemma pick_capacity:
  assumes "finite space" and "distinct xs" and "set xs \<subseteq> space"
  shows "pick (set xs) = None \<longleftrightarrow> length xs = card space"
proof
  assume "pick (set xs) = None"
  with pick_exhausted assms have "set xs = space" by blast
  then show "length xs = card space" using assms by (metis distinct_card)
next
  assume "length xs = card space"
  then have "set xs = space" using assms by (metis card_subset_eq distinct_card)
  then show "pick (set xs) = None" using pick_free by (cases "pick (set xs)") auto
qed

end

subsection \<open>Session addresses\<close>

lemma overlay_addr_inject [simp]: "overlay_addr x = overlay_addr y \<longleftrightarrow> x = y"
  by (simp add: overlay_addr_def)

definition client_slot :: "nat \<Rightarrow> nat" where "client_slot i = 128 + i mod 127"

lemma client_slot_Suc:
  "(if client_slot i + 1 > overlayClientLast then overlayClientFirst else client_slot i + 1) = client_slot (Suc i)"
  by (auto simp: client_slot_def overlayClientLast_def overlayClientFirst_def mod_Suc)

lemma alloc_loop_spec:
  "case alloc_loop n \<lparr>oa_used = used, oa_next = client_slot i\<rparr> of
     (None, a') \<Rightarrow> (\<forall>j < n. overlay_addr (client_slot (i + j)) \<in> used) \<and> oa_used a' = used \<and>
       oa_next a' = client_slot (i + n)
   | (Some ip, a') \<Rightarrow> (\<exists>j < n. ip = overlay_addr (client_slot (i + j)) \<and> ip \<notin> used \<and> oa_used a' = insert ip used \<and>
       oa_next a' = client_slot (Suc (i + j)))"
proof (induction n arbitrary: i)
  case (Suc n)
  show ?case
  proof (cases "overlay_addr (client_slot i) \<in> used")
    case True
    have "alloc_loop (Suc n) \<lparr>oa_used = used, oa_next = client_slot i\<rparr> =
        alloc_loop n \<lparr>oa_used = used, oa_next = client_slot (Suc i)\<rparr>"
      using True client_slot_Suc [of i] by (simp add: Let_def)
    moreover have "(\<forall>j < Suc n. overlay_addr (client_slot (i + j)) \<in> used) \<longleftrightarrow>
        (\<forall>j < n. overlay_addr (client_slot (Suc i + j)) \<in> used)"
      using True by (auto simp: less_Suc_eq_0_disj)
    moreover have "\<exists>j < Suc n. P (i + j)" if "\<exists>j < n. P (Suc i + j)" for P
      using that by (metis Suc_less_eq add_Suc_shift)
    ultimately show ?thesis
      using Suc.IH [of "Suc i"] by (auto split: prod.splits option.splits)
  next
    case False
    then show ?thesis
      using client_slot_Suc [of i] by (auto simp: Let_def intro!: exI [of _ 0])
  qed
qed simp

lemma client_slots: "client_slot ` {i ..< i + 127} = {128 .. 254}"
proof -
  have "(\<lambda>j. j mod 127) ` {i ..< i + 127} = {0 ..< 127}"
  proof
    show "{0 ..< 127} \<subseteq> (\<lambda>j. j mod 127) ` {i ..< i + 127}"
    proof
      fix y :: nat
      assume y: "y \<in> {0 ..< 127}"
      define x where "x = i + (y + 127 - i mod 127) mod 127"
      have "x mod 127 = (i + (y + 127 - i mod 127)) mod 127"
        unfolding x_def by (simp only: mod_add_right_eq)
      also have "i + (y + 127 - i mod 127) = 127 * (i div 127 + 1) + y"
      proof -
        define q r where "q = i div 127" and "r = i mod 127"
        then have "i = 127 * q + r" "r < 127" by simp_all
        then have "i + (y + 127 - r) = 127 * (q + 1) + y" by simp
        then show ?thesis by (simp only: q_def r_def)
      qed
      finally have "x mod 127 = y mod 127" by (simp only: mod_mult_self4)
      then have "x mod 127 = y" using y by simp
      moreover have "x \<in> {i ..< i + 127}" by (simp add: x_def)
      ultimately show "y \<in> (\<lambda>j. j mod 127) ` {i ..< i + 127}" by blast
    qed
  qed auto
  then have "(\<lambda>y. 128 + y) ` (\<lambda>j. j mod 127) ` {i ..< i + 127} = (\<lambda>y. 128 + y) ` {0 ..< 127 :: nat}" by simp
  moreover have "(\<lambda>y. 128 + y) ` {0 ..< 127 :: nat} = {128 .. 254}"
    unfolding image_add_atLeastLessThan by auto
  ultimately show ?thesis unfolding image_image client_slot_def by simp
qed

definition session_pool :: "nat \<Rightarrow> string set \<Rightarrow> overlayAllocator" where
  "session_pool i used = \<lparr>oa_used = used, oa_next = client_slot i\<rparr>"


lemma alloc_spec:
  "case alloc (session_pool i used) of
     (None, a') \<Rightarrow> overlay_addr ` {128 .. 254} \<subseteq> used \<and> (\<exists>j. a' = session_pool j used)
   | (Some ip, a') \<Rightarrow> ip \<in> overlay_addr ` {128 .. 254} \<and> ip \<notin> used \<and>
       (\<exists>j. a' = session_pool j (insert ip used))"
proof -
  obtain r a' where r: "alloc (session_pool i used) = (r, a')" by fastforce
  have l: "alloc_loop 127 \<lparr>oa_used = used, oa_next = client_slot i\<rparr> = (r, a')"
    using r by (simp add: alloc_def session_pool_def overlayClientLast_def overlayClientFirst_def)
  note spec = alloc_loop_spec [where n = 127 and used = used and i = i, unfolded l prod.case]
  have slots: "overlay_addr (client_slot (i + j)) \<in> overlay_addr ` {128 .. 254}" if "j < 127" for j
    using that client_slots [of i] by auto
  show ?thesis
  proof (cases r)
    case None
    have "overlay_addr x \<in> used" if "x \<in> {128 .. 254}" for x
    proof -
      from that obtain m where "m \<in> {i ..< i + 127}" "x = client_slot m"
        unfolding client_slots [of i, symmetric] by blast
      then have "m - i < 127" "x = client_slot (i + (m - i))" by auto
      with spec None show ?thesis by auto
    qed
    moreover have "a' = session_pool (i + 127) used" using spec None by (simp add: session_pool_def)
    ultimately show ?thesis using None r by auto
  next
    case (Some ip)
    with spec obtain j where j: "j < 127" "ip = overlay_addr (client_slot (i + j))" "ip \<notin> used"
      "oa_used a' = insert ip used" "oa_next a' = client_slot (Suc (i + j))"
      by auto
    then have "a' = session_pool (Suc (i + j)) (insert ip used)" by (simp add: session_pool_def)
    with j slots Some r show ?thesis by auto
  qed
qed

interpretation session_addrs: address_pool "\<lambda>used. fst (alloc (session_pool i used))" "overlay_addr ` {128 .. 254}" for i
proof unfold_locales
  fix used x
  show "fst (alloc (session_pool i used)) = Some x \<Longrightarrow> x \<in> overlay_addr ` {128 .. 254} \<and> x \<notin> used"
    using alloc_spec [where i = i and used = used] by (auto split: prod.splits option.splits)
  show "fst (alloc (session_pool i used)) = None \<Longrightarrow> overlay_addr ` {128 .. 254} \<subseteq> used"
    using alloc_spec [where i = i and used = used] by (auto split: prod.splits option.splits)
qed

subsection \<open>Machine addresses\<close>

definition machine_space :: "string set" where
  "machine_space = overlay_addr ` ({2 .. 126} - {53})"

lemma resolver_addr: "OverlayResolverIP = overlay_addr 53"
  by code_simp

lemma machine_loop_Some: "machine_loop xs used = Some ip \<Longrightarrow>
    ip \<in> overlay_addr ` (set xs - {53}) \<and> ip \<notin> used"
  by (induction xs) (auto simp: resolver_addr Let_def split: if_splits)

lemma machine_loop_None: "machine_loop xs used = None \<Longrightarrow> overlay_addr ` (set xs - {53}) \<subseteq> used"
  by (induction xs) (auto simp: resolver_addr Let_def split: if_splits)

interpretation machine_addrs: address_pool allocMachineIP machine_space
proof unfold_locales
  have "set [overlayMachineFirst ..< overlayMachineLast + 1] = {2 .. 126}"
    unfolding overlayMachineFirst_def overlayMachineLast_def set_upt by auto
  then show "allocMachineIP used = Some x \<Longrightarrow> x \<in> machine_space \<and> x \<notin> used"
    and "allocMachineIP used = None \<Longrightarrow> machine_space \<subseteq> used" for used x
    using machine_loop_Some [of "[overlayMachineFirst ..< overlayMachineLast + 1]" used x]
      machine_loop_None [of "[overlayMachineFirst ..< overlayMachineLast + 1]" used]
    by (simp_all add: allocMachineIP_def machine_space_def)
qed

definition assigned :: "node_table \<Rightarrow> string list" where
  "assigned tbl = filter (\<lambda>ip. ip \<noteq> []) (map snd tbl)"

definition node_table_ok :: "node_table \<Rightarrow> bool" where
  "node_table_ok tbl \<longleftrightarrow> distinct (map fst tbl) \<and> distinct (assigned tbl) \<and> set (assigned tbl) \<subseteq> machine_space"

lemma assigned_filter: "set (assigned (filter P tbl)) \<subseteq> set (assigned tbl)"
  by (auto simp: assigned_def)

lemma distinct_assigned_filter: "distinct (assigned tbl) \<Longrightarrow> distinct (assigned (filter P tbl))"
  by (induction tbl) (force simp: assigned_def)+

lemma addr_not_empty [simp]: "[] \<notin> machine_space"
  by (auto simp: machine_space_def overlay_addr_def)

lemma ensure_keeps_ok:
  assumes ok: "node_table_ok tbl" and l: "ni_list io"
  shows "node_table_ok (snd (ensureNodeOverlayIP io nid ip tbl))"
proof -
  have "node_table_ok (put_node nid a tbl)" if "allocMachineIP (set (assigned tbl)) = Some a" for a
  proof -
    have "a \<in> machine_space" "a \<notin> set (assigned tbl)" using machine_addrs.pick_free that by auto
    moreover from this have "a \<noteq> []" by auto
    ultimately show ?thesis
      using ok distinct_assigned_filter [of tbl] assigned_filter [of _ tbl]
      by (auto simp: node_table_ok_def put_node_def distinct_map_filter) (auto simp: assigned_def)
  qed
  then show ?thesis
    using ok l by (auto simp: ensureNodeOverlayIP_def Let_def assigned_def split: option.split list.split)
qed

subsection \<open>Subnet addresses\<close>

text \<open>The number that the bytes of an address write, least significant byte first.\<close>

fun rev_value :: "nat list \<Rightarrow> nat" where
  "rev_value [] = 0"
| "rev_value (b # bs) = b + 256 * rev_value bs"

abbreviation bytes_ok :: "ipbytes \<Rightarrow> bool" where
  "bytes_ok ip \<equiv> \<forall>b \<in> set ip. b < 256"

lemma rev_value_bound: "bytes_ok bs \<Longrightarrow> rev_value bs < 256 ^ length bs"
  by (induction bs) auto

lemma rev_value_inject:
  "length xs = length ys \<Longrightarrow> bytes_ok xs \<Longrightarrow> bytes_ok ys \<Longrightarrow> rev_value xs = rev_value ys \<Longrightarrow> xs = ys"
proof (induction xs ys rule: list_induct2)
  case (Cons x xs y ys)
  then have "x < 256" "y < 256" "x + 256 * rev_value xs = y + 256 * rev_value ys" by auto
  then have "x = y \<and> rev_value xs = rev_value ys"
    by (metis mod_mult_self2 mod_less add_left_cancel mult_cancel1 zero_neq_numeral)
  with Cons show ?case by simp
qed simp

lemma length_inc_rev [simp]: "length (inc_rev bs) = length bs"
  by (induction bs) (auto simp: Let_def)

lemma inc_rev_ok: "bytes_ok bs \<Longrightarrow> bytes_ok (inc_rev bs)"
  by (induction bs) (auto simp: Let_def)

lemma inc_rev_value: "bytes_ok bs \<Longrightarrow> rev_value (inc_rev bs) = (rev_value bs + 1) mod 256 ^ length bs"
proof (induction bs)
  case (Cons b bs)
  then have b: "b < 256" and r: "rev_value bs < 256 ^ length bs" by (auto intro: rev_value_bound)
  show ?case
  proof (cases "b = 255")
    case True
    have "(256 + 256 * rev_value bs) mod (256 * 256 ^ length bs) = 256 * ((1 + rev_value bs) mod 256 ^ length bs)"
      using mult_mod_right [of 256 "1 + rev_value bs" "256 ^ length bs"] by (simp only: distrib_left mult_1_right)
    with True Cons show ?thesis by (simp add: Let_def)
  next
    case False
    with b have "(b + 1) mod 256 = b + 1" by simp
    moreover have "b + 1 + 256 * rev_value bs < 256 * 256 ^ length bs"
      using b False r by linarith
    ultimately show ?thesis by (simp add: Let_def)
  qed
qed simp

lemma inc_rev_iter:
  assumes "bytes_ok bs"
  shows "bytes_ok ((inc_rev ^^ k) bs) \<and> length ((inc_rev ^^ k) bs) = length bs \<and>
    rev_value ((inc_rev ^^ k) bs) = (rev_value bs + k) mod 256 ^ length bs"
proof (induction k)
  case 0
  with assms rev_value_bound show ?case by auto
next
  case (Suc k)
  then show ?case using inc_rev_ok inc_rev_value by (auto simp: mod_Suc_eq)
qed

lemma inc_rev_reaches:
  assumes xs: "bytes_ok xs" and ys: "bytes_ok ys" and len: "length xs = length ys"
  shows "\<exists>k. (inc_rev ^^ k) xs = ys"
proof -
  let ?m = "256 ^ length xs :: nat"
  let ?k = "rev_value ys + ?m - rev_value xs"
  have "rev_value xs \<le> ?m" "rev_value ys < ?m" using rev_value_bound xs ys len by (metis less_imp_le)+
  then have "(rev_value xs + ?k) mod ?m = rev_value ys" by simp
  then have "(inc_rev ^^ ?k) xs = ys"
    using inc_rev_iter [OF xs, of ?k] ys len by (intro rev_value_inject) auto
  then show ?thesis by blast
qed

lemma incIP_iter: "(incIP ^^ k) ip = rev ((inc_rev ^^ k) (rev ip))"
  by (induction k) (simp_all add: incIP_def)

lemma incIP_reaches: "bytes_ok x \<Longrightarrow> bytes_ok y \<Longrightarrow> length x = length y \<Longrightarrow> \<exists>k. (incIP ^^ k) x = y"
  using inc_rev_reaches [of "rev x" "rev y"] by (metis incIP_iter length_rev rev_rev_ident set_rev)

lemma incIP_ok: "bytes_ok ip \<Longrightarrow> bytes_ok (incIP ip)"
  using inc_rev_ok [of "rev ip"] by (simp add: incIP_def)

lemma length_incIP [simp]: "length (incIP ip) = length ip"
  by (simp add: incIP_def)

lemma byte_take_bit: "b < 256 \<longleftrightarrow> take_bit 8 b = b" for b :: nat
  by (simp add: take_bit_nat_eq_self_iff)

lemma byte_and: "a < 256 \<Longrightarrow> b < 256 \<Longrightarrow> a AND b < 256" for a b :: nat
  by (simp add: byte_take_bit)

lemma byte_flip: "a < 256 \<Longrightarrow> a XOR 255 < 256" for a :: nat
  by (simp add: byte_take_bit take_bit_xor)

lemma flip_outside:
  fixes b m :: nat
  assumes "m < 256" and "m \<noteq> 0"
  shows "b AND m \<noteq> (b XOR 255) AND m"
proof
  assume eq: "b AND m = (b XOR 255) AND m"
  from \<open>m \<noteq> 0\<close> obtain j where j: "bit m j" by (auto simp: bit_eq_iff)
  with \<open>m < 256\<close> have "j < 8" by (metis bit_take_bit_iff byte_take_bit)
  have "(255 :: nat) = mask 8" by (simp add: mask_eq_exp_minus_1)
  with \<open>j < 8\<close> have "bit (255 :: nat) j" by (metis bit_mask_iff possible_bit_nat)
  with eq j show False by (metis bit_and_iff bit_xor_iff)
qed

text \<open>A subnet as \<open>net.ParseCIDR\<close> builds it, other than the whole address space.\<close>

definition cidr_ok :: "ipbytes \<Rightarrow> IPNet \<Rightarrow> bool" where
  "cidr_ok addr n \<longleftrightarrow> bytes_ok addr \<and> bytes_ok (net_Mask n) \<and> length addr = 16 \<and>
     (length (net_Mask n) = 4 \<and> To4 addr \<noteq> None \<or> length (net_Mask n) = 16) \<and>
     net_IP n = IP_Mask addr (net_Mask n) \<and> (\<exists>b \<in> set (net_Mask n). b \<noteq> 0)"

lemma bytes_ok_and: "bytes_ok xs \<Longrightarrow> bytes_ok ys \<Longrightarrow> bytes_ok (map2 (AND) xs ys)"
  by (induction xs ys rule: list_induct2') (auto simp: byte_and)

lemma bytes_ok_drop: "bytes_ok xs \<Longrightarrow> bytes_ok (drop k xs)"
  by (meson in_set_dropD)

lemma cidr_ok_net:
  assumes ok: "cidr_ok addr n"
  shows "bytes_ok (net_IP n)" "length (net_IP n) = length (net_Mask n)" "length (net_Mask n) = 4 \<or> length (net_Mask n) = 16"
proof -
  show "length (net_Mask n) = 4 \<or> length (net_Mask n) = 16" using ok unfolding cidr_ok_def by blast
  have eq: "net_IP n = map2 (AND) (if length (net_Mask n) = 4 then drop 12 addr else addr) (net_Mask n)"
    using ok unfolding cidr_ok_def IP_Mask_def Let_def by (elim conjE disjE) simp_all
  moreover have "bytes_ok addr" "bytes_ok (net_Mask n)" using ok unfolding cidr_ok_def by blast+
  ultimately show "bytes_ok (net_IP n)" using bytes_ok_and [OF bytes_ok_drop] bytes_ok_and by presburger
  from eq ok show "length (net_IP n) = length (net_Mask n)" unfolding cidr_ok_def by (elim conjE disjE) simp_all
qed

lemma flipped_outside:
  assumes "cidr_ok addr n" and nn: "(case To4 (net_IP n) of Some v \<Rightarrow> v | None \<Rightarrow> net_IP n) = net_IP n"
  shows "\<not> Contains n (map (\<lambda>b. b XOR 255) (net_IP n))"
proof -
  let ?t = "map (\<lambda>b. b XOR 255) (net_IP n)"
  let ?x = "case To4 ?t of Some v \<Rightarrow> v | None \<Rightarrow> ?t"
  note len = cidr_ok_net [OF assms(1)]
  from assms(1) obtain b where "b \<in> set (net_Mask n)" "b \<noteq> 0" "b < 256" unfolding cidr_ok_def by blast
  then obtain i where i: "i < length (net_Mask n)" "net_Mask n ! i \<noteq> 0" "net_Mask n ! i < 256"
    unfolding in_set_conv_nth by blast
  have m: "\<not> (length (net_Mask n) = 16 \<and> length (net_IP n) = 4)" using len(2) by auto
  show ?thesis
  proof (cases "?x = ?t")
    case True
    have "net_IP n ! i AND net_Mask n ! i \<noteq> ?t ! i AND net_Mask n ! i"
      using flip_outside [OF i(3,2)] i(1) len(2) by simp
    then show ?thesis using i(1) len(2) m unfolding Contains_def Let_def nn True
      by (auto simp: list_all_iff)
  next
    case False
    then have "length ?x = 4" "length (net_IP n) \<noteq> 4" by (auto simp: To4_def split: if_splits)
    then show ?thesis unfolding Contains_def Let_def nn by auto
  qed
qed

lemma outside_exists:
  assumes "cidr_ok addr n"
  shows "\<exists>t. bytes_ok t \<and> length t = length (net_IP n) \<and> \<not> Contains n t"
proof (cases "(case To4 (net_IP n) of Some v \<Rightarrow> v | None \<Rightarrow> net_IP n) = net_IP n")
  case True
  with flipped_outside [OF assms] cidr_ok_net [OF assms] byte_flip show ?thesis
    by (intro exI [of _ "map (\<lambda>b. b XOR 255) (net_IP n)"]) auto
next
  case False
  then have nn: "length (net_IP n) = 16" "length (case To4 (net_IP n) of Some v \<Rightarrow> v | None \<Rightarrow> net_IP n) = 4"
    by (auto simp: To4_def split: if_splits)
  have "To4 (replicate 16 255) = None" by code_simp
  with nn have "\<not> Contains n (replicate 16 255)" by (simp add: Contains_def Let_def)
  with nn show ?thesis by (intro exI [of _ "replicate 16 255"]) simp
qed

text \<open>What the loop may hand out: an address of the subnet, neither its broadcast address nor the controller's, not in use.\<close>

definition usable :: "(ipbytes \<Rightarrow> string) \<Rightarrow> IPNet \<Rightarrow> ipbytes \<Rightarrow> string set \<Rightarrow> ipbytes \<Rightarrow> bool" where
  "usable str6 n controller used x \<longleftrightarrow> Contains n x \<and> \<not> isBroadcast x n \<and>
     IP_String str6 x \<noteq> IP_String str6 controller \<and> IP_String str6 x \<notin> used"

lemma subnet_loop_spec:
  assumes "\<not> Contains n ((incIP ^^ k) cur)"
  shows "\<exists>m. (\<forall>j < m. Contains n ((incIP ^^ j) cur) \<and> \<not> usable str6 n controller used ((incIP ^^ j) cur)) \<and>
    (\<not> Contains n ((incIP ^^ m) cur) \<and> subnet_loop str6 n controller used cur = Some None \<or>
     usable str6 n controller used ((incIP ^^ m) cur) \<and>
       subnet_loop str6 n controller used cur = Some (Some (IP_String str6 ((incIP ^^ m) cur))))"
  using assms
proof (induction k arbitrary: cur)
  case 0
  then show ?case by (intro exI [of _ 0]) (simp add: subnet_loop.simps)
next
  case (Suc k)
  consider "\<not> Contains n cur" | "usable str6 n controller used cur"
    | "Contains n cur" "\<not> usable str6 n controller used cur" by blast
  then show ?case
  proof cases
    case 3
    then have step: "subnet_loop str6 n controller used cur = subnet_loop str6 n controller used (incIP cur)"
      by (subst subnet_loop.simps) (auto simp: usable_def Let_def)
    from Suc.prems have "\<not> Contains n ((incIP ^^ k) (incIP cur))" by (simp add: funpow_swap1)
    from Suc.IH [OF this] obtain m where m:
      "\<forall>j < m. Contains n ((incIP ^^ Suc j) cur) \<and> \<not> usable str6 n controller used ((incIP ^^ Suc j) cur)"
      "\<not> Contains n ((incIP ^^ Suc m) cur) \<and> subnet_loop str6 n controller used cur = Some None \<or>
       usable str6 n controller used ((incIP ^^ Suc m) cur) \<and>
         subnet_loop str6 n controller used cur = Some (Some (IP_String str6 ((incIP ^^ Suc m) cur)))"
      unfolding step funpow_Suc_right comp_def by blast
    have "\<forall>j < Suc m. Contains n ((incIP ^^ j) cur) \<and> \<not> usable str6 n controller used ((incIP ^^ j) cur)"
      unfolding All_less_Suc2 using m(1) 3 by simp
    with m(2) show ?thesis by blast
  qed (intro exI [of _ 0], simp add: subnet_loop.simps usable_def)+
qed

lemma subnet_exit:
  assumes "cidr_ok addr n" and "bytes_ok cur" and "length cur = length (net_IP n)"
  shows "\<exists>k. \<not> Contains n ((incIP ^^ k) cur)"
proof -
  from outside_exists [OF assms(1)] obtain t where t: "bytes_ok t" "length t = length (net_IP n)" "\<not> Contains n t"
    by blast
  then obtain k where "(incIP ^^ k) cur = t"
    using incIP_reaches [OF assms(2) t(1)] assms(3) by auto
  with t(3) show ?thesis by blast
qed

subsection \<open>Histories\<close>

datatype session_event = SAlloc | SRelease string

fun session_step :: "overlayAllocator \<Rightarrow> session_event \<Rightarrow> overlayAllocator" where
  "session_step a SAlloc = snd (alloc a)"
| "session_step a (SRelease ip) = release ip a"

definition session_ok :: "overlayAllocator \<Rightarrow> bool" where
  "session_ok a \<longleftrightarrow> (\<exists>i used. a = session_pool i used \<and> used \<subseteq> overlay_addr ` {128 .. 254})"

interpretation session_runs: step_system session_step session_ok
proof unfold_locales
  fix a e
  assume "session_ok a"
  then obtain i used where a: "a = session_pool i used" "used \<subseteq> overlay_addr ` {128 .. 254}"
    unfolding session_ok_def by blast
  show "session_ok (session_step a e)"
  proof (cases e)
    case SAlloc
    then show ?thesis using alloc_spec [where i = i and used = used] a
      by (cases "alloc a") (auto simp: session_ok_def session_pool_def split: option.splits)
  next
    case (SRelease ip)
    then show ?thesis using a by (auto simp: release_def session_ok_def session_pool_def)
  qed
qed

record overlay_req =
  oq_io :: bind_io
  oq_nio :: node_io
  oq_cidr :: string
  oq_net :: NetworkRecord
  oq_node :: string
  oq_ip :: string \<comment> \<open>the address in the caller's copy of the node\<close>

definition overlay_step ::
    "(ipbytes \<Rightarrow> string) \<Rightarrow> (string \<Rightarrow> (ipbytes \<times> IPNet) option) \<Rightarrow> string \<Rightarrow> overlay_state \<Rightarrow> overlay_req \<Rightarrow> overlay_state" where
  "overlay_step str6 ParseCIDR wsid st q =
     (case networkOverlayIP str6 ParseCIDR (oq_io q) (oq_nio q) wsid (oq_cidr q) (oq_net q) (oq_node q) (oq_ip q) st of
        None \<Rightarrow> st | Some (_, st') \<Rightarrow> st')"

definition overlay_ok :: "overlay_state \<Rightarrow> bool" where
  "overlay_ok st \<longleftrightarrow> node_table_ok (ov_nodes st) \<and>
     (\<forall>v. distinct (map fst (ov_bindings st v)) \<and> distinct (map snd (ov_bindings st v)))"

definition reads_listed :: "overlay_req \<Rightarrow> bool" where
  "reads_listed q \<longleftrightarrow> bi_list (oq_io q) \<and> ni_list (oq_nio q)"

text \<open>What the allocator over a subnet returns, and that it does.\<close>

lemma allocIPInCIDR_spec:
  assumes ok: "cidr_ok addr n"
  shows "\<exists>r. allocIPInCIDR str6 (Some (addr, n)) used = Some r \<and>
    (case r of
       Some s \<Rightarrow> \<exists>x. s = IP_String str6 x \<and> usable str6 n (incIP (net_IP n)) used x
     | None \<Rightarrow> int (snd (Mask_Size (net_Mask n))) - int (fst (Mask_Size (net_Mask n))) < 2 \<or>
         (\<exists>m. \<not> Contains n ((incIP ^^ m) (incIP (incIP (net_IP n)))) \<and>
            (\<forall>j < m. \<not> usable str6 n (incIP (net_IP n)) used ((incIP ^^ j) (incIP (incIP (net_IP n)))))))"
proof (cases "int (snd (Mask_Size (net_Mask n))) - int (fst (Mask_Size (net_Mask n))) < 2")
  case True
  then show ?thesis by (simp add: allocIPInCIDR_def Let_def split_beta)
next
  case False
  let ?c = "incIP (net_IP n)"
  have "net_IP n = IP_Mask addr (net_Mask n)" using ok by (simp add: cidr_ok_def)
  with False have a: "allocIPInCIDR str6 (Some (addr, n)) used = subnet_loop str6 n ?c used (incIP ?c)"
    by (simp add: allocIPInCIDR_def Let_def split_beta)
  obtain k where "\<not> Contains n ((incIP ^^ k) (incIP ?c))"
    using subnet_exit [OF ok incIP_ok [OF incIP_ok [OF cidr_ok_net(1) [OF ok]]]] by auto
  from subnet_loop_spec [OF this, of str6 ?c used] False show ?thesis
    unfolding a by (auto split: option.split)
qed

lemma put_node_distinct:
  assumes "distinct (map fst tbl)" and "distinct (map snd tbl)" and "ip \<notin> set (map snd tbl)"
  shows "distinct (map fst (put_node nid ip tbl)) \<and> distinct (map snd (put_node nid ip tbl))"
  using assms by (auto simp: put_node_def distinct_map_filter)

lemma subnet_loop_unused:
  "subnet_loop str6 n controller used cur = Some r \<Longrightarrow> r = None \<or> the r \<notin> used"
  by (rule subnet_loop.raw_induct [where P = "\<lambda>_ _ _ used _ r. r = None \<or> the r \<notin> used"])
    (auto simp: Let_def split: if_splits)

lemma allocIPInCIDR_unused: "allocIPInCIDR str6 c used = Some (Some s) \<Longrightarrow> s \<notin> used"
  using subnet_loop_unused [where r = "Some s"]
  by (auto simp: allocIPInCIDR_def Let_def split_beta split: option.splits if_splits)

lemma overlay_step_cases:
  fixes q :: overlay_req and st :: overlay_state
  defines "tbl \<equiv> ov_bindings st (nw_VNI (oq_net q))"
  obtains (same) "overlay_step str6 ParseCIDR wsid st q = st"
  | (node) "overlay_step str6 ParseCIDR wsid st q =
      st\<lparr>ov_nodes := snd (ensureNodeOverlayIP (oq_nio q) (oq_node q) (oq_ip q) (ov_nodes st))\<rparr>"
  | (bound) ip where "bound_ip (bi_get2 (oq_io q)) tbl (oq_node q) = None"
      "allocIPInCIDR str6 (ParseCIDR (oq_cidr q)) (if bi_list (oq_io q) then set (map snd tbl) else {}) = Some (Some ip)"
      "overlay_step str6 ParseCIDR wsid st q =
        st\<lparr>ov_bindings := (ov_bindings st)(nw_VNI (oq_net q) := put_node (oq_node q) ip tbl)\<rparr>"
proof (cases "nw_VNI (oq_net q) = vniForWorkspace wsid")
  case True
  then show ?thesis using node by (simp add: overlay_step_def networkOverlayIP_def split_beta Let_def)
next
  case False
  have "overlay_step str6 ParseCIDR wsid st q = st \<or>
    (\<exists>ip. bound_ip (bi_get2 (oq_io q)) tbl (oq_node q) = None \<and>
      allocIPInCIDR str6 (ParseCIDR (oq_cidr q)) (if bi_list (oq_io q) then set (map snd tbl) else {}) = Some (Some ip) \<and>
      overlay_step str6 ParseCIDR wsid st q =
        st\<lparr>ov_bindings := (ov_bindings st)(nw_VNI (oq_net q) := put_node (oq_node q) ip tbl)\<rparr>)"
    using False by (simp add: overlay_step_def networkOverlayIP_def Let_def tbl_def split: option.split)
  then show ?thesis using same bound by blast
qed

lemma overlay_step_ok:
  assumes ok: "overlay_ok st" and l: "reads_listed q"
  shows "overlay_ok (overlay_step str6 ParseCIDR wsid st q)"
proof (rule overlay_step_cases [of str6 ParseCIDR wsid st q])
  fix ip
  let ?tbl = "ov_bindings st (nw_VNI (oq_net q))"
  assume a: "allocIPInCIDR str6 (ParseCIDR (oq_cidr q)) (if bi_list (oq_io q) then set (map snd ?tbl) else {}) = Some (Some ip)"
    and s: "overlay_step str6 ParseCIDR wsid st q =
        st\<lparr>ov_bindings := (ov_bindings st)(nw_VNI (oq_net q) := put_node (oq_node q) ip ?tbl)\<rparr>"
  have "ip \<notin> set (map snd ?tbl)" using allocIPInCIDR_unused [OF a] l by (simp add: reads_listed_def)
  then show ?thesis
    unfolding s using ok put_node_distinct [of ?tbl ip] by (auto simp: overlay_ok_def)
qed (use ok l ensure_keeps_ok in \<open>auto simp: overlay_ok_def reads_listed_def\<close>)

definition reads_got :: "overlay_req \<Rightarrow> bool" where
  "reads_got q \<longleftrightarrow> bi_get2 (oq_io q) \<and> ni_get (oq_nio q)"

lemma map_of_put_node: "map_of (put_node nid ip tbl) = (map_of tbl)(nid \<mapsto> ip)"
proof -
  have "map_of (filter (\<lambda>(n, _). n \<noteq> nid) tbl) x = (if x = nid then None else map_of tbl x)" for x
    by (induction tbl) auto
  then show ?thesis by (auto simp: put_node_def fun_eq_iff)
qed

lemma ensure_stable:
  assumes "ni_get io" and "map_of tbl x = Some ip" and "ip \<noteq> []"
  shows "map_of (snd (ensureNodeOverlayIP io nid cached tbl)) x = Some ip"
  using assms by (auto simp: ensureNodeOverlayIP_def Let_def map_of_put_node split: option.split list.split)

lemma overlay_step_stable:
  assumes got: "reads_got q" and ip: "ip \<noteq> []"
  shows "map_of (ov_nodes st) x = Some ip \<Longrightarrow> map_of (ov_nodes (overlay_step str6 ParseCIDR wsid st q)) x = Some ip"
    and "map_of (ov_bindings st v) x = Some ip \<Longrightarrow> map_of (ov_bindings (overlay_step str6 ParseCIDR wsid st q) v) x = Some ip"
proof -
  show "map_of (ov_nodes (overlay_step str6 ParseCIDR wsid st q)) x = Some ip" if "map_of (ov_nodes st) x = Some ip"
    by (rule overlay_step_cases [of str6 ParseCIDR wsid st q])
      (use that ip got ensure_stable in \<open>simp_all add: reads_got_def\<close>)
  show "map_of (ov_bindings (overlay_step str6 ParseCIDR wsid st q) v) x = Some ip" if v: "map_of (ov_bindings st v) x = Some ip"
  proof (rule overlay_step_cases [of str6 ParseCIDR wsid st q])
    fix ip'
    assume n: "bound_ip (bi_get2 (oq_io q)) (ov_bindings st (nw_VNI (oq_net q))) (oq_node q) = None"
      and s: "overlay_step str6 ParseCIDR wsid st q = st\<lparr>ov_bindings :=
        (ov_bindings st)(nw_VNI (oq_net q) := put_node (oq_node q) ip' (ov_bindings st (nw_VNI (oq_net q))))\<rparr>"
    have "\<not> (v = nw_VNI (oq_net q) \<and> x = oq_node q)"
      using n v ip got by (cases ip) (auto simp: bound_ip_def reads_got_def)
    then show ?thesis unfolding s using v by (auto simp: map_of_put_node)
  qed (use v in simp_all)
qed

lemma overlay_run_stable:
  assumes "\<forall>q \<in> set qs. reads_got q" and "ip \<noteq> []"
  shows "map_of (ov_nodes st) x = Some ip \<Longrightarrow> map_of (ov_nodes (foldl (overlay_step str6 ParseCIDR wsid) st qs)) x = Some ip"
    and "map_of (ov_bindings st v) x = Some ip \<Longrightarrow>
      map_of (ov_bindings (foldl (overlay_step str6 ParseCIDR wsid) st qs) v) x = Some ip"
  using assms by (induction qs arbitrary: st) (simp_all add: overlay_step_stable)

lemma overlay_run_ok:
  "overlay_ok st \<Longrightarrow> \<forall>q \<in> set qs. reads_listed q \<Longrightarrow> overlay_ok (foldl (overlay_step str6 ParseCIDR wsid) st qs)"
  by (induction qs arbitrary: st) (simp_all add: overlay_step_ok)

section \<open>Properties\<close>

text \<open>
  C29: Over any history of address requests of a workspace's nodes, on the default Network and on others,
  in which the store answers the reads (writes may fail), no two nodes of a Network hold the same
  address, the addresses of the default Network stay within the machine range and never are the
  resolver's, and an address once assigned never changes.
\<close>

theorem overlay_addresses_unique_and_stable:
  assumes "overlay_ok st" and "\<forall>q \<in> set qs. reads_listed q \<and> reads_got q"
    and "st' = foldl (overlay_step str6 ParseCIDR wsid) st qs"
  shows "distinct (assigned (ov_nodes st')) \<and>
    set (assigned (ov_nodes st')) \<subseteq> overlay_addr ` {2 .. 126} - {OverlayResolverIP} \<and>
    distinct (map snd (ov_bindings st' v)) \<and>
    (ip \<noteq> [] \<longrightarrow> map_of (ov_nodes st) x = Some ip \<longrightarrow> map_of (ov_nodes st') x = Some ip) \<and>
    (ip \<noteq> [] \<longrightarrow> map_of (ov_bindings st v) x = Some ip \<longrightarrow> map_of (ov_bindings st' v) x = Some ip)"
proof -
  have "overlay_ok st'" using overlay_run_ok assms by simp
  then have "distinct (assigned (ov_nodes st'))" "distinct (map snd (ov_bindings st' v))"
      "set (assigned (ov_nodes st')) \<subseteq> overlay_addr ` {2 .. 126} - {OverlayResolverIP}"
    by (auto simp: overlay_ok_def node_table_ok_def machine_space_def resolver_addr)
  moreover have "ip \<noteq> [] \<longrightarrow> map_of (ov_nodes st) x = Some ip \<longrightarrow> map_of (ov_nodes st') x = Some ip"
    "ip \<noteq> [] \<longrightarrow> map_of (ov_bindings st v) x = Some ip \<longrightarrow> map_of (ov_bindings st' v) x = Some ip"
    using overlay_run_stable assms by simp_all
  ultimately show ?thesis by blast
qed

text \<open>Two nodes of the default workspace ask for an address, then the first asks again with a stale copy.\<close>

definition demo_req :: "string \<Rightarrow> overlay_req" where
  "demo_req nid =
     \<lparr>oq_io = \<lparr>bi_get1 = True, bi_get2 = True, bi_list = True, bi_put = True\<rparr>,
      oq_nio = \<lparr>ni_get = True, ni_list = True, ni_put = True\<rparr>,
      oq_cidr = defaultOverlayCIDR, oq_net = \<lparr>nw_ID = ''net'', nw_VNI = 1\<rparr>, oq_node = nid, oq_ip = []\<rparr>"

definition demo_overlay :: overlay_state where
  "demo_overlay = \<lparr>ov_nodes = [(''a'', overlay_addr 2)], ov_bindings = (\<lambda>_. [])\<rparr>"

lemma allocMachineIP_second: "allocMachineIP {overlay_addr 2} = Some (overlay_addr 3)"
proof -
  have "[overlayMachineFirst ..< overlayMachineLast + 1] = 2 # 3 # [4 ..< 127]"
    by (simp add: overlayMachineFirst_def overlayMachineLast_def upt_rec)
  then show ?thesis by (simp add: allocMachineIP_def resolver_addr Let_def)
qed

lemma demo_overlay_run:
  "foldl (overlay_step str6 ParseCIDR ''default'') demo_overlay [demo_req ''b'', demo_req ''a''] =
   \<lparr>ov_nodes = [(''b'', overlay_addr 3), (''a'', overlay_addr 2)], ov_bindings = (\<lambda>_. [])\<rparr>"
  using allocMachineIP_second
  by (simp add: overlay_step_def networkOverlayIP_def demo_req_def demo_overlay_def ensureNodeOverlayIP_def
      vniForWorkspace_def put_node_def overlay_addr_def)

lemma demo_overlay_ok: "overlay_ok demo_overlay"
  by (simp add: overlay_ok_def demo_overlay_def node_table_ok_def assigned_def machine_space_def)

theorem overlay_addresses_unique_and_stable_witness:
  "let st = \<lparr>ov_nodes = [(''b'', overlay_addr 3), (''a'', overlay_addr 2)], ov_bindings = (\<lambda>_. [])\<rparr> in
   st = foldl (overlay_step (\<lambda>_. []) (\<lambda>_. None) ''default'') demo_overlay [demo_req ''b'', demo_req ''a''] \<and>
   distinct (assigned (ov_nodes st)) \<and> map_of (ov_nodes st) ''a'' = Some (overlay_addr 2)"
proof -
  have "\<forall>q \<in> set [demo_req ''b'', demo_req ''a'']. reads_listed q \<and> reads_got q"
    by (simp add: reads_listed_def reads_got_def demo_req_def)
  from overlay_addresses_unique_and_stable [OF demo_overlay_ok this demo_overlay_run [symmetric], of _ "overlay_addr 2" "''a''"]
  show ?thesis
    unfolding Let_def demo_overlay_run by (simp add: demo_overlay_def)
qed

text \<open>
  A failed read of the node list does not stop an assignment: the used set is then taken to be empty,
  and the first address of the range is handed out and stored although another node holds it.
\<close>

theorem failed_list_read_duplicates_an_address:
  "let io = \<lparr>ni_get = True, ni_list = False, ni_put = True\<rparr>; tbl = [(''a'', overlay_addr 2)] in
   node_table_ok tbl \<and>
   ensureNodeOverlayIP io ''b'' [] tbl = (Some (overlay_addr 2), [(''b'', overlay_addr 2), (''a'', overlay_addr 2)]) \<and>
   \<not> node_table_ok (snd (ensureNodeOverlayIP io ''b'' [] tbl))"
proof -
  have "[overlayMachineFirst ..< overlayMachineLast + 1] = 2 # [3 ..< 127]"
    by (simp add: overlayMachineFirst_def overlayMachineLast_def upt_rec)
  then have "allocMachineIP {} = Some (overlay_addr 2)" by (simp add: allocMachineIP_def resolver_addr Let_def)
  then show ?thesis
    using demo_overlay_ok
    by (simp add: ensureNodeOverlayIP_def put_node_def overlay_ok_def demo_overlay_def)
      (simp add: node_table_ok_def assigned_def overlay_addr_def)
qed

text \<open>
  After any history of session starts and ends, an allocation returns an address of
  100.64.0.128 to 100.64.0.254 that no live session holds and marks exactly it, and it fails exactly
  when all 127 addresses are held.
\<close>

theorem session_pool_exact:
  "let a = foldl session_step newOverlayAllocator es in
    case alloc a of
      (Some ip, a') \<Rightarrow> ip \<in> overlay_addr ` {128 .. 254} \<and> ip \<notin> oa_used a \<and> oa_used a' = insert ip (oa_used a) \<and>
        card (oa_used a) < 127
    | (None, a') \<Rightarrow> card (oa_used a) = 127 \<and> oa_used a' = oa_used a"
proof -
  define a where "a = foldl session_step newOverlayAllocator es"
  have "session_ok newOverlayAllocator"
    unfolding session_ok_def newOverlayAllocator_def overlayClientFirst_def
    by (intro exI [of _ 0] exI [of _ "{}"]) (simp add: session_pool_def client_slot_def)
  then obtain i used where a: "a = session_pool i used" "used \<subseteq> overlay_addr ` {128 .. 254}"
    using session_runs.run_inv unfolding a_def session_ok_def by blast
  have c: "card (overlay_addr ` {128 .. 254}) = 127" by (subst card_image) (auto simp: inj_on_def)
  have "used \<noteq> overlay_addr ` {128 .. 254} \<longrightarrow> card used < 127"
    using a(2) c by (metis finite_atLeastAtMost finite_imageI psubset_card_mono psubsetI)
  then show ?thesis
    using alloc_spec [where i = i and used = used] a c unfolding Let_def a_def [symmetric]
    by (auto simp: session_pool_def split: option.splits prod.splits)
qed


text \<open>The subnet 10.0.0.0/30 has one host besides the controller.\<close>

definition demo_addr :: ipbytes where
  "demo_addr = [0, 0, 0, 0, 0, 0, 0, 0, 0, 0, 255, 255, 10, 0, 0, 0]"

definition demo_net :: IPNet where
  "demo_net = \<lparr>net_IP = [10, 0, 0, 0], net_Mask = [255, 255, 255, 252]\<rparr>"


end
