(* ===== verification/Session_Authz.thy ===== *)
theory Session_Authz
  imports Session_Signal Policy_Engine Overlay_Pool
begin

text \<open>
  Continuous authorization at the controller: \<open>internal/controller/continuousauthz.go\<close> (the sweep, the
  revocation paths, the reconnect redelivery), \<open>sessionenforce.go\<close> (the signers and the enforcement
  epoch), \<open>handleSessionEvent\<close> of \<open>nodecontrol.go\<close>, the stream routers (\<open>streamrouter.go\<close>,
  \<open>pgrouter.go\<close>) and the suspension rows of \<open>authzstate.go\<close>.

  The state \<open>ctl\<close> is the shared store (sessions, nodes, suspensions), the address pools, the
  signalling broker, and what was handed to the outside: the messages given to the agents' control
  streams, the doorbells rung at other controllers, the audit rows.  The environment \<open>ctl_env\<close> of one
  call gives the clock, the streams this controller holds, the router, the policies, the signing key,
  and which store operations fail.  A store update is a transaction on one record: its closure runs
  once the record is read, and what the closure does outside the record stays even if the commit fails.
  The operations take the record they act on as an argument, as the code does, so a stale snapshot is
  covered.  Fields of the session record this code neither reads nor writes are left out, and so is the
  expiry of device grants, handoffs, relays and controllers that the sweep also starts: it touches none
  of this state.
\<close>

section \<open>Data\<close>

datatype SessionState = SessionPending | SessionActive | SessionDetached | SessionEnded | SessionRevoked

record SessionRecord =
  ss_WorkspaceID :: string
  ss_ID :: string
  ss_User :: string
  ss_Provider :: string
  ss_Subject :: string
  ss_NodeID :: string
  ss_NodeName :: string
  ss_Action :: string
  ss_State :: SessionState
  ss_HostSessionID :: string
  ss_StartedUnix :: int
  ss_EndedUnix :: int
  ss_ExitCode :: int
  ss_Detachable :: bool
  ss_Roles :: "string list"
  ss_Service :: string
  ss_ServiceKind :: string
  ss_ServiceLabels :: "string \<rightharpoonup> string"
  ss_ClientPath :: string
  ss_OverlayIP :: string
  ss_ClientNoisePub :: bytes
  ss_GrantAllowPTY :: bool
  ss_GrantForwardTargets :: "string list"
  ss_EnforcementEpoch :: int
  ss_RehomeEpoch :: int
  ss_GrantScope :: bytes
  ss_RevokeReason :: string
  ss_RevokeDelivered :: bool
  ss_RequirePresence :: bool
  ss_LastPresenceUnix :: int
  ss_LastPresenceCounter :: nat
  ss_PresenceChallenge :: bytes
  ss_PrevPresenceChallenge :: bytes
  ss_PrevChallengeUnix :: int

record NodeRecord =
  nr_WorkspaceID :: string
  nr_ID :: string
  nr_Name :: string
  nr_Labels :: "string \<rightharpoonup> string"
  nr_NoisePub :: bytes
  nr_HostUUID :: string
  nr_Approved :: bool
  nr_ApprovedBy :: string
  nr_ApprovedAtUnix :: int
  nr_OverlayIP :: string
  nr_Region :: string
  nr_ApprovedBinaryHash :: bytes
  nr_ApprovedBinaryCreatedUnix :: int
  nr_LastBinaryHash :: bytes
  nr_LastMeasuredUnix :: int

record SuspensionRecord =
  sp_Workspace :: string
  sp_Provider :: string
  sp_Subject :: string
  sp_Username :: string
  sp_Reason :: string
  sp_SuspendedBy :: string
  sp_SuspendedUnix :: int

record QuarantineRecord =
  qr_Workspace :: string
  qr_NodeID :: string
  qr_Reason :: string
  qr_Detail :: "(string \<times> string) list"
  qr_QuarantinedBy :: string
  qr_QuarantinedUnix :: int
  qr_HostUUID :: string

type_synonym sessions = "((string \<times> string) \<times> SessionRecord) list"

type_synonym nodes = "((string \<times> string) \<times> NodeRecord) list"

record audit_row =
  row_Workspace :: string
  row_Type :: string
  row_Actor :: string
  row_Node :: string
  row_Session :: string

record ctl =
  ct_sessions :: sessions \<comment> \<open>by workspace and id, in the order of the store\<close>
  ct_nodes :: nodes
  ct_nodeWS :: "string \<rightharpoonup> string" \<comment> \<open>the workspace of a node id\<close>
  ct_suspensions :: "string \<rightharpoonup> SuspensionRecord"
  ct_quarantines :: "(string \<times> QuarantineRecord) list"
  ct_pool :: "string \<Rightarrow> overlayAllocator"
  ct_signals :: sessionSignalBroker
  ct_agent_out :: "(string \<times> ControllerEnforcement) list"
  ct_offers :: "(string \<times> string \<times> bytes) list" \<comment> \<open>node, session and signed grant\<close>
  ct_rings :: "(string \<times> string) list" \<comment> \<open>channel and payload\<close>
  ct_repush :: "string list" \<comment> \<open>workspaces whose networks were pushed again\<close>
  ct_audit :: "audit_row list"

datatype upd_outcome = Committed | NotRead | NotCommitted

datatype store_op = BumpEpoch | MarkRevoked | NodeEvent | PutRecord | EndRejected | BumpRehome

record ctl_codec =
  mc_Signed :: "Signed \<Rightarrow> bytes option"
  mc_Grant :: "SessionGrant \<Rightarrow> bytes option"
  mc_Lease :: "LeasePayload \<Rightarrow> bytes option"
  mc_Delta :: "DeltaPayload \<Rightarrow> bytes option"
  mc_Revoke :: "RevokePayload \<Rightarrow> bytes option"

record pg_env =
  pg_controllerID :: string
  pg_affinity :: "string \<rightharpoonup> string \<times> int" \<comment> \<open>the directory's owner and epoch\<close>
  pg_handleEpoch :: "string \<Rightarrow> int" \<comment> \<open>the epoch the locally held stream claimed\<close>
  pg_notify :: bool

datatype router = InprocRouter | PGRouter pg_env

record ctl_env =
  en_now :: gotime
  en_online :: "string \<Rightarrow> bool" \<comment> \<open>the nodes whose stream this controller holds\<close>
  en_send :: "string \<Rightarrow> bool" \<comment> \<open>the outcome of a send on it\<close>
  en_store :: "store_op \<Rightarrow> string \<Rightarrow> upd_outcome" \<comment> \<open>by session id\<close>
  en_listSessions :: bool
  en_listNodes :: bool
  en_getNode :: bool
  en_suspRead :: "bool option" \<comment> \<open>the verdict reported on a failed read, if the read fails\<close>
  en_audit :: bool
  en_router :: router
  en_policies :: "string \<rightharpoonup> Doc"
  en_zone :: zone
  en_show :: "reason \<Rightarrow> string" \<comment> \<open>the text of a policy reason\<close>
  en_presenceTTL :: duration
  en_grantKey :: signer
  en_grantKeyID :: string
  en_codec :: ctl_codec

section \<open>Store\<close>

definition GetSession :: "string \<Rightarrow> string \<Rightarrow> ctl \<Rightarrow> SessionRecord option" where
  "GetSession ws sid st = map_of (ct_sessions st) (ws, sid)"

definition GetNode :: "string \<Rightarrow> string \<Rightarrow> ctl \<Rightarrow> NodeRecord option" where
  "GetNode ws n st = map_of (ct_nodes st) (ws, n)"

definition ListAllSessions :: "ctl_env \<Rightarrow> ctl \<Rightarrow> SessionRecord list option" where
  "ListAllSessions env st = (if en_listSessions env then Some (map snd (ct_sessions st)) else None)"

definition PutSession :: "string \<Rightarrow> SessionRecord \<Rightarrow> ctl \<Rightarrow> ctl" where
  "PutSession ws rec st =
     (let r = rec\<lparr>ss_WorkspaceID := ws\<rparr>
      in st\<lparr>ct_sessions :=
           (if map_of (ct_sessions st) (ws, ss_ID r) = None then ct_sessions st @ [((ws, ss_ID r), r)]
            else map (\<lambda>(k, v). if k = (ws, ss_ID r) then (k, r) else (k, v)) (ct_sessions st))\<rparr>)"

definition set_session :: "string \<Rightarrow> string \<Rightarrow> SessionRecord \<Rightarrow> ctl \<Rightarrow> ctl" where
  "set_session ws sid r st =
     st\<lparr>ct_sessions := map (\<lambda>(k, v). if k = (ws, sid) then (k, r) else (k, v)) (ct_sessions st)\<rparr>"

text \<open>The result is what the closure left in its copy of the record, if it ran.\<close>

definition UpdateSession ::
    "upd_outcome \<Rightarrow> string \<Rightarrow> string \<Rightarrow> (SessionRecord \<Rightarrow> SessionRecord) \<Rightarrow> ctl \<Rightarrow> SessionRecord option \<times> ctl" where
  "UpdateSession out ws sid f st =
     (case (out, GetSession ws sid st) of
        (NotRead, _) \<Rightarrow> (None, st)
      | (_, None) \<Rightarrow> (None, st)
      | (NotCommitted, Some r) \<Rightarrow> (Some (f r), st)
      | (Committed, Some r) \<Rightarrow> (Some (f r), set_session ws sid (f r) st))"

definition SuspendPrincipal ::
    "gotime \<Rightarrow> string \<Rightarrow> string \<Rightarrow> string \<Rightarrow> string \<Rightarrow> string \<Rightarrow> string \<Rightarrow> ctl \<Rightarrow> ctl option" where
  "SuspendPrincipal now ws provider subject username suspendedBy reason st =
     (if subject = [] then None
      else Some (st\<lparr>ct_suspensions := (ct_suspensions st)(principalKey ws provider subject \<mapsto>
        \<lparr>sp_Workspace = ws, sp_Provider = normProvider provider, sp_Subject = subject, sp_Username = username,
         sp_Reason = reason, sp_SuspendedBy = suspendedBy, sp_SuspendedUnix = Time_Unix now\<rparr>)\<rparr>))"

definition LiftSuspension :: "string \<Rightarrow> string \<Rightarrow> string \<Rightarrow> ctl \<Rightarrow> ctl" where
  "LiftSuspension ws provider subject st =
     st\<lparr>ct_suspensions := (ct_suspensions st)(principalKey ws provider subject := None)\<rparr>"

definition IsSuspended :: "ctl_env \<Rightarrow> string \<Rightarrow> string \<Rightarrow> string \<Rightarrow> ctl \<Rightarrow> bool" where
  "IsSuspended env ws provider subject st =
     (if \<not> suspendable subject then False
      else case en_suspRead env of
          Some verdict \<Rightarrow> verdict
        | None \<Rightarrow> ct_suspensions st (principalKey ws provider subject) \<noteq> None)"

definition storeNodeLookup :: "ctl_env \<Rightarrow> ctl \<Rightarrow> string \<Rightarrow> string \<Rightarrow> NodeRecord option" where
  "storeNodeLookup env st ws sid = (if en_getNode env then GetNode ws sid st else None)"

definition append_audit :: "string \<Rightarrow> string \<Rightarrow> string \<Rightarrow> string \<Rightarrow> string \<Rightarrow> ctl \<Rightarrow> ctl" where
  "append_audit ws typ actor node session st =
     st\<lparr>ct_audit := ct_audit st @ [\<lparr>row_Workspace = ws, row_Type = typ, row_Actor = actor,
          row_Node = node, row_Session = session\<rparr>]\<rparr>"

section \<open>Signing\<close>

definition nextEpoch :: "ctl_env \<Rightarrow> string \<Rightarrow> string \<Rightarrow> ctl \<Rightarrow> int \<times> ctl" where
  "nextEpoch env ws sid st =
     (case UpdateSession (en_store env BumpEpoch sid) ws sid
             (\<lambda>r. r\<lparr>ss_EnforcementEpoch := i64 (ss_EnforcementEpoch r + 1)\<rparr>) st of
        (None, st') \<Rightarrow> (0, st')
      | (Some r, st') \<Rightarrow> (ss_EnforcementEpoch r, st'))"

definition signEnvelope :: "ctl_env \<Rightarrow> ('p \<Rightarrow> bytes option) \<Rightarrow> 'p \<Rightarrow> env_error + bytes" where
  "signEnvelope env marshal payload =
     bindE (Sign (en_grantKey env) (en_grantKeyID env) ContextSessionPolicy marshal payload) (\<lambda>e.
     (case mc_Signed (en_codec env) e of None \<Rightarrow> Inl ErrMarshal | Some b \<Rightarrow> Inr b))"

definition leaseExpiryMs :: "ctl_env \<Rightarrow> int" where
  "leaseExpiryMs env = Time_UnixMilli (en_now env + SessionLeaseTTL)"

definition signLease :: "ctl_env \<Rightarrow> string \<Rightarrow> int \<Rightarrow> int \<Rightarrow> bytes \<Rightarrow> env_error + SessionLease" where
  "signLease env sid epoch expiryMs clientNoisePub =
     bindE (signEnvelope env (mc_Lease (en_codec env))
              \<lparr>lp_SessionID = sid, lp_Epoch = epoch, lp_ExpiryUnixMs = expiryMs, lp_ClientNoisePub = clientNoisePub\<rparr>)
       (\<lambda>sig. Inr \<lparr>sl_SessionId = sid, sl_Sig = sig\<rparr>)"

definition signRevoke :: "ctl_env \<Rightarrow> SessionRecord \<Rightarrow> int \<Rightarrow> string \<Rightarrow> env_error + SessionRevoke" where
  "signRevoke env rec epoch reason =
     bindE (signEnvelope env (mc_Revoke (en_codec env))
              \<lparr>rp_SessionID = ss_ID rec, rp_Epoch = epoch, rp_Reason = reason, rp_ClientNoisePub = ss_ClientNoisePub rec\<rparr>)
       (\<lambda>sig. Inr \<lparr>sr_SessionId = ss_ID rec, sr_Sig = sig\<rparr>)"

definition capsToTypes :: "SessionCaps option \<Rightarrow> CapsPayload option" where
  "capsToTypes c =
     (case c of
        None \<Rightarrow> None
      | Some c \<Rightarrow> Some \<lparr>cp_Allow = sc_Allow c, cp_AllowPTY = sc_AllowPty c, cp_AllowInput = sc_AllowInput c,
          cp_ForwardTargets = sc_ForwardTargets c, cp_AllowSFTPWrite = sc_AllowSftpWrite c,
          cp_AllowNewChannels = sc_AllowNewChannels c\<rparr>)"

definition signDelta ::
    "ctl_env \<Rightarrow> SessionRecord \<Rightarrow> int \<Rightarrow> string \<Rightarrow> string \<Rightarrow> SessionCaps option \<Rightarrow> int \<Rightarrow> env_error + SessionPolicyDelta" where
  "signDelta env rec epoch op target caps expiryMs =
     bindE (signEnvelope env (mc_Delta (en_codec env))
              \<lparr>dp_SessionID = ss_ID rec, dp_Epoch = epoch, dp_Op = op, dp_Target = target,
               dp_Caps = capsToTypes caps, dp_LeaseExpiryUnixMs = expiryMs, dp_ClientNoisePub = ss_ClientNoisePub rec\<rparr>)
       (\<lambda>sig. Inr \<lparr>sd_SessionId = ss_ID rec, sd_Caps = caps, sd_Sig = sig\<rparr>)"

section \<open>Routing\<close>

text \<open>\<open>registry.SendRevoke\<close>, \<open>SendSessionLease\<close> and \<open>SendSessionPolicyDelta\<close>: a send on the stream held here.\<close>

definition registry_send :: "ctl_env \<Rightarrow> string \<Rightarrow> ControllerEnforcement \<Rightarrow> ctl \<Rightarrow> bool \<times> ctl" where
  "registry_send env nodeID msg st =
     (if \<not> en_online env nodeID then (False, st)
      else if \<not> en_send env nodeID then (False, st)
      else (True, st\<lparr>ct_agent_out := ct_agent_out st @ [(nodeID, msg)]\<rparr>))"

definition principalSep :: char where "principalSep = CHR 0x1F"

fun SplitN :: "nat \<Rightarrow> char \<Rightarrow> string \<Rightarrow> string list" where
  "SplitN n c s =
     (if n \<le> 1 then (if n = 0 then [] else [s])
      else case index_byte c s of
          None \<Rightarrow> [s]
        | Some i \<Rightarrow> take i s # SplitN (n - 1) c (drop (i + 1) s))"

declare SplitN.simps [simp del]

definition pad :: "nat \<Rightarrow> string list \<Rightarrow> string list" where
  "pad n p = p @ replicate (n - length p) []"

definition encDoorbell :: "string \<Rightarrow> string \<Rightarrow> string \<Rightarrow> string \<Rightarrow> string \<Rightarrow> string" where
  "encDoorbell op ws nodeID sessionID reason =
     op @ [principalSep] @ ws @ [principalSep] @ nodeID @ [principalSep] @ sessionID @ [principalSep] @ reason"

definition decDoorbell :: "string \<Rightarrow> string \<times> string \<times> string \<times> string \<times> string" where
  "decDoorbell s =
     (let p = pad 5 (SplitN 5 principalSep s) in (p ! 0, p ! 1, p ! 2, p ! 3, p ! 4))"

definition encPrincipal :: "string \<Rightarrow> string \<Rightarrow> string \<Rightarrow> string" where
  "encPrincipal ws provider subject = ws @ [principalSep] @ provider @ [principalSep] @ subject"

definition decPrincipal :: "string \<Rightarrow> string \<times> string \<times> string" where
  "decPrincipal s = (let p = pad 3 (SplitN 3 principalSep s) in (p ! 0, p ! 1, p ! 2))"

definition gwChannel :: "string \<Rightarrow> string" where
  "gwChannel controllerID = ''geneza_gw_'' @ controllerID"

definition opRevoke :: string where "opRevoke = ''revoke''"

definition owns :: "ctl_env \<Rightarrow> pg_env \<Rightarrow> string \<Rightarrow> bool \<times> string" where
  "owns env pg nodeID =
     (case pg_affinity pg nodeID of
        None \<Rightarrow> (False, [])
      | Some (gw, epoch) \<Rightarrow>
          if gw = pg_controllerID pg \<and> en_online env nodeID \<and> pg_handleEpoch pg nodeID = epoch
          then (True, gw) else (False, gw))"

definition currentEpochMatches :: "ctl_env \<Rightarrow> pg_env \<Rightarrow> string \<Rightarrow> bool" where
  "currentEpochMatches env pg nodeID =
     (case pg_affinity pg nodeID of
        None \<Rightarrow> False
      | Some (gw, epoch) \<Rightarrow>
          if gw \<noteq> pg_controllerID pg then False
          else en_online env nodeID \<and> pg_handleEpoch pg nodeID = epoch)"

definition notifyGW :: "pg_env \<Rightarrow> string \<Rightarrow> string \<Rightarrow> string \<Rightarrow> string \<Rightarrow> string \<Rightarrow> string \<Rightarrow> ctl \<Rightarrow> bool \<times> ctl" where
  "notifyGW pg controllerID op ws nodeID sessionID reason st =
     (if pg_notify pg
      then (True, st\<lparr>ct_rings := ct_rings st @ [(gwChannel controllerID, encDoorbell op ws nodeID sessionID reason)]\<rparr>)
      else (False, st))"

definition signRevokeRec :: "ctl_env \<Rightarrow> SessionRecord \<Rightarrow> string \<Rightarrow> ctl \<Rightarrow> (env_error + SessionRevoke) \<times> ctl" where
  "signRevokeRec env rec reason st =
     (case nextEpoch env (ss_WorkspaceID rec) (ss_ID rec) st of
        (epoch, st') \<Rightarrow> (signRevoke env rec epoch reason, st'))"

text \<open>\<open>SendRevoke\<close> of the two routers: whether a live stream or the owner's doorbell took it, and the message signed here.\<close>

definition SendRevoke_local ::
    "ctl_env \<Rightarrow> SessionRecord \<Rightarrow> string \<Rightarrow> ctl \<Rightarrow> bool \<times> SessionRevoke option \<times> ctl" where
  "SendRevoke_local env rec reason st =
     (case signRevokeRec env rec reason st of
        (Inl _, st1) \<Rightarrow> (False, None, st1)
      | (Inr rv, st1) \<Rightarrow>
          (case registry_send env (ss_NodeID rec) (CE_SessionRevoke rv) st1 of
             (ok, st2) \<Rightarrow> (ok, Some rv, st2)))"

definition SendRevoke ::
    "ctl_env \<Rightarrow> SessionRecord \<Rightarrow> string \<Rightarrow> ctl \<Rightarrow> bool \<times> SessionRevoke option \<times> ctl" where
  "SendRevoke env rec reason st =
     (case en_router env of
        InprocRouter \<Rightarrow> SendRevoke_local env rec reason st
      | PGRouter pg \<Rightarrow>
          (case owns env pg (ss_NodeID rec) of
             (loc, owner) \<Rightarrow>
               if loc then SendRevoke_local env rec reason st
               else if owner = [] \<or> owner = pg_controllerID pg then (False, None, st)
               else
                 (case notifyGW pg owner opRevoke (ss_WorkspaceID rec) (ss_NodeID rec) (ss_ID rec) reason st of
                    (ok, st1) \<Rightarrow> (ok, None, st1))))"

definition signRevokeForRouter ::
    "ctl_env \<Rightarrow> string \<Rightarrow> string \<Rightarrow> string \<Rightarrow> ctl \<Rightarrow> SessionRevoke option \<times> ctl" where
  "signRevokeForRouter env nodeID sessionID reason st =
     (case ct_nodeWS st nodeID of
        None \<Rightarrow> (None, st)
      | Some ws \<Rightarrow>
          (case GetSession ws sessionID st of
             None \<Rightarrow> (None, st)
           | Some rec \<Rightarrow>
               (case nextEpoch env ws sessionID st of
                  (epoch, st1) \<Rightarrow>
                    (case signRevoke env rec epoch reason of
                       Inl _ \<Rightarrow> (None, st1)
                     | Inr rv \<Rightarrow> (Some rv, st1)))))"

definition deliver_control :: "ctl_env \<Rightarrow> string \<Rightarrow> ControllerEnforcement \<Rightarrow> ctl \<Rightarrow> ctl" where
  "deliver_control env sid msg st = st\<lparr>ct_signals := snd (deliverControl (en_now env) sid msg (ct_signals st))\<rparr>"

text \<open>The doorbell of a revoke, at the controller that owns the stream.\<close>

definition handleAgentDoorbell :: "ctl_env \<Rightarrow> pg_env \<Rightarrow> string \<Rightarrow> ctl \<Rightarrow> ctl" where
  "handleAgentDoorbell env pg payload st =
     (case decDoorbell payload of
        (op, ws, nodeID, sessionID, reason) \<Rightarrow>
          if \<not> currentEpochMatches env pg nodeID then st
          else if op = opRevoke then
            (case signRevokeForRouter env nodeID sessionID reason st of
               (None, st1) \<Rightarrow> st1
             | (Some rv, st1) \<Rightarrow>
                 deliver_control env sessionID (CE_SessionRevoke rv)
                   (snd (registry_send env nodeID (CE_SessionRevoke rv) st1)))
          else st)"

section \<open>Revocation\<close>

definition release_ip :: "string \<Rightarrow> string \<Rightarrow> ctl \<Rightarrow> ctl" where
  "release_ip ws ip st = st\<lparr>ct_pool := (ct_pool st)(ws := release ip (ct_pool st ws))\<rparr>"

definition unregister_signal :: "string \<Rightarrow> ctl \<Rightarrow> ctl" where
  "unregister_signal sid st = st\<lparr>ct_signals := unregister sid (ct_signals st)\<rparr>"

definition mark_revoked :: "ctl_env \<Rightarrow> string \<Rightarrow> SessionRecord \<Rightarrow> SessionRecord" where
  "mark_revoked env reason r =
     r\<lparr>ss_State := SessionRevoked, ss_EndedUnix := Time_Unix (en_now env), ss_RevokeReason := reason,
       ss_RevokeDelivered := False\<rparr>"

definition live_state :: "SessionState \<Rightarrow> bool" where
  "live_state s \<longleftrightarrow> s = SessionActive \<or> s = SessionDetached"

definition cut_client :: "ctl_env \<Rightarrow> string \<Rightarrow> SessionRevoke option \<Rightarrow> ctl \<Rightarrow> ctl" where
  "cut_client env sid rv st =
     (case rv of None \<Rightarrow> st | Some m \<Rightarrow> deliver_control env sid (CE_SessionRevoke m) st)"

definition commit_revoked :: "ctl_env \<Rightarrow> SessionRecord \<Rightarrow> string \<Rightarrow> ctl \<Rightarrow> ctl" where
  "commit_revoked env rec reason st =
     (case UpdateSession (en_store env MarkRevoked (ss_ID rec)) (ss_WorkspaceID rec) (ss_ID rec)
             (mark_revoked env reason) st of
        (None, st') \<Rightarrow> st'
      | (Some r, st') \<Rightarrow> release_ip (ss_WorkspaceID rec) (ss_OverlayIP r) st')"

text \<open>The flag is \<open>err == nil\<close>: it is false only if the audit row could not be written.\<close>

definition revokeSession :: "ctl_env \<Rightarrow> SessionRecord \<Rightarrow> string \<Rightarrow> ctl \<Rightarrow> bool \<times> ctl" where
  "revokeSession env rec reason st =
     (if ss_State rec \<noteq> SessionActive \<and> ss_State rec \<noteq> SessionDetached \<and> ss_State rec \<noteq> SessionPending
      then (True, st)
      else
        (case SendRevoke env rec reason st of
           (pushed, rv, st1) \<Rightarrow>
             let st2 = unregister_signal (ss_ID rec) (commit_revoked env rec reason (cut_client env (ss_ID rec) rv st1))
             in if en_audit env
                then (True, append_audit (ss_WorkspaceID rec) ''session_revoked'' [] (ss_NodeID rec) (ss_ID rec) st2)
                else (False, st2)))"

definition rePushRevoke :: "ctl_env \<Rightarrow> SessionRecord \<Rightarrow> ctl \<Rightarrow> ctl" where
  "rePushRevoke env rec st = snd (snd (SendRevoke env rec (ss_RevokeReason rec) st))"

definition confirm_delivered :: "SessionRecord \<Rightarrow> SessionRecord" where
  "confirm_delivered r =
     (if ss_State r = SessionRevoked \<and> \<not> ss_RevokeDelivered r then r\<lparr>ss_RevokeDelivered := True\<rparr> else r)"

definition confirmRevokeDelivered :: "ctl_env \<Rightarrow> string \<Rightarrow> string \<Rightarrow> string \<Rightarrow> ctl \<Rightarrow> ctl" where
  "confirmRevokeDelivered env ws sessionID nodeID st =
     (let first = (case (en_store env NodeEvent sessionID, GetSession ws sessionID st) of
                     (NotRead, _) \<Rightarrow> False
                   | (_, None) \<Rightarrow> False
                   | (_, Some r) \<Rightarrow> ss_State r = SessionRevoked \<and> \<not> ss_RevokeDelivered r);
          st1 = snd (UpdateSession (en_store env NodeEvent sessionID) ws sessionID confirm_delivered st)
      in if first \<and> en_audit env then append_audit ws ''session_revoke_confirmed'' [] nodeID sessionID st1 else st1)"

section \<open>Decision\<close>

datatype reauth = Denied string | Allowed bool \<comment> \<open>read-only or not\<close>

definition policy_input :: "ctl_env \<Rightarrow> SessionRecord \<Rightarrow> (string \<rightharpoonup> string) \<Rightarrow> Input" where
  "policy_input env rec labels =
     \<lparr>in_User = ss_User rec, in_Groups = [], in_Roles = ss_Roles rec, in_NodeID = ss_NodeID rec,
      in_NodeName = ss_NodeName rec, in_NodeLabels = labels, in_Action = ss_Action rec,
      in_ClientPath = ss_ClientPath rec, in_Service = ss_Service rec, in_ServiceKind = ss_ServiceKind rec,
      in_ServiceLabels = ss_ServiceLabels rec, in_Now = en_now env\<rparr>"

text \<open>\<open>policyFor\<close>: a workspace without an engine has the one that denies everything.\<close>

definition policy_decision :: "ctl_env \<Rightarrow> string \<Rightarrow> Input \<Rightarrow> Decision" where
  "policy_decision env ws inp =
     (case en_policies env ws of
        None \<Rightarrow> denied NoReason
      | Some doc \<Rightarrow> Evaluate (en_zone env) (en_now env) doc inp)"

definition presence_stale :: "ctl_env \<Rightarrow> SessionRecord \<Rightarrow> bool" where
  "presence_stale env rec \<longleftrightarrow>
     en_presenceTTL env > 0 \<and> ss_RequirePresence rec \<and>
     Time_Unix (en_now env) - ss_LastPresenceUnix rec > en_presenceTTL env div second"

definition reauthorizeWith ::
    "ctl_env \<Rightarrow> SessionRecord \<Rightarrow> (string \<Rightarrow> string \<Rightarrow> NodeRecord option) \<Rightarrow> ctl \<Rightarrow> reauth" where
  "reauthorizeWith env rec getNode st =
     (if IsSuspended env (ss_WorkspaceID rec) (ss_Provider rec) (ss_Subject rec) st
      then Denied ''principal suspended''
      else if presence_stale env rec then Denied ''presence expired''
      else
        let node = getNode (ss_WorkspaceID rec) (ss_NodeID rec) in
        if (case node of None \<Rightarrow> False | Some n \<Rightarrow> \<not> nr_Approved n) then Denied ''node approval revoked''
        else
          let labels = (case node of None \<Rightarrow> Map.empty | Some n \<Rightarrow> nr_Labels n);
              d = policy_decision env (ss_WorkspaceID rec) (policy_input env rec labels)
          in if d_Allow d then Allowed (d_ReadOnly d) else Denied (en_show env (d_Reason d)))"

section \<open>Driving a session\<close>

definition touch_signal :: "ctl_env \<Rightarrow> string \<Rightarrow> ctl \<Rightarrow> ctl" where
  "touch_signal env sid st = st\<lparr>ct_signals := touch (en_now env) sid (ct_signals st)\<rparr>"

definition push_enforcement :: "ctl_env \<Rightarrow> SessionRecord \<Rightarrow> ControllerEnforcement \<Rightarrow> ctl \<Rightarrow> ctl" where
  "push_enforcement env rec msg st =
     deliver_control env (ss_ID rec) msg (touch_signal env (ss_ID rec) (snd (registry_send env (ss_NodeID rec) msg st)))"

definition read_only_caps :: "SessionRecord \<Rightarrow> SessionCaps" where
  "read_only_caps rec =
     \<lparr>sc_Allow = True, sc_AllowPty = ss_GrantAllowPTY rec, sc_AllowInput = False,
      sc_ForwardTargets = ss_GrantForwardTargets rec, sc_AllowSftpWrite = False, sc_AllowNewChannels = True\<rparr>"

definition pushReadOnlyDelta :: "ctl_env \<Rightarrow> SessionRecord \<Rightarrow> ctl \<Rightarrow> ctl" where
  "pushReadOnlyDelta env rec st =
     (case nextEpoch env (ss_WorkspaceID rec) (ss_ID rec) st of
        (epoch, st1) \<Rightarrow>
          (case signDelta env rec epoch ''read_only'' [] (Some (read_only_caps rec)) (leaseExpiryMs env) of
             Inl _ \<Rightarrow> st1
           | Inr d \<Rightarrow> push_enforcement env rec (CE_SessionPolicyDelta d) st1))"

definition refreshLease :: "ctl_env \<Rightarrow> SessionRecord \<Rightarrow> ctl \<Rightarrow> ctl" where
  "refreshLease env rec st =
     (case nextEpoch env (ss_WorkspaceID rec) (ss_ID rec) st of
        (epoch, st1) \<Rightarrow>
          (case signLease env (ss_ID rec) epoch (leaseExpiryMs env) (ss_ClientNoisePub rec) of
             Inl _ \<Rightarrow> st1
           | Inr l \<Rightarrow> push_enforcement env rec (CE_SessionLease l) st1))"

definition driveLiveSessionWith ::
    "ctl_env \<Rightarrow> SessionRecord \<Rightarrow> (string \<Rightarrow> string \<Rightarrow> NodeRecord option) \<Rightarrow> ctl \<Rightarrow> ctl" where
  "driveLiveSessionWith env rec getNode st =
     (case reauthorizeWith env rec getNode st of
        Denied why \<Rightarrow> snd (revokeSession env rec (''continuous-authz: '' @ why) st)
      | Allowed ro \<Rightarrow> if ro then pushReadOnlyDelta env rec st else refreshLease env rec st)"

definition driveLiveSession :: "ctl_env \<Rightarrow> SessionRecord \<Rightarrow> ctl \<Rightarrow> ctl" where
  "driveLiveSession env rec st = driveLiveSessionWith env rec (storeNodeLookup env st) st"

text \<open>The loops run over the records as they were listed.  The node index of the sweep is the store read at its start.\<close>

definition sweep_one ::
    "ctl_env \<Rightarrow> (string \<Rightarrow> string \<Rightarrow> NodeRecord option) option \<Rightarrow> ctl \<Rightarrow> SessionRecord \<Rightarrow> ctl" where
  "sweep_one env idx st rec =
     (if live_state (ss_State rec) then
        driveLiveSessionWith env rec (case idx of Some look \<Rightarrow> look | None \<Rightarrow> storeNodeLookup env st) st
      else if ss_State rec = SessionRevoked then
        (if \<not> ss_RevokeDelivered rec \<and> en_online env (ss_NodeID rec) then rePushRevoke env rec st else st)
      else st)"

definition reauthSweep :: "ctl_env \<Rightarrow> string list \<Rightarrow> ctl \<Rightarrow> ctl" where
  "reauthSweep env ids st0 =
     (let st = st0\<lparr>ct_signals := sweepExpired (en_now env) ids (ct_signals st0)\<rparr> in
      case ListAllSessions env st of
        None \<Rightarrow> st
      | Some recs \<Rightarrow>
          foldl (sweep_one env (if en_listNodes env then Some (\<lambda>ws n. GetNode ws n st) else None)) st recs)"

definition redeliver_one :: "ctl_env \<Rightarrow> string \<Rightarrow> ctl \<Rightarrow> SessionRecord \<Rightarrow> ctl" where
  "redeliver_one env nodeID st rec =
     (if ss_NodeID rec \<noteq> nodeID then st
      else if ss_State rec = SessionRevoked then
        (if \<not> ss_RevokeDelivered rec then rePushRevoke env rec st else st)
      else if live_state (ss_State rec) then driveLiveSession env rec st
      else st)"

definition redeliverPendingRevokes :: "ctl_env \<Rightarrow> string \<Rightarrow> ctl \<Rightarrow> ctl" where
  "redeliverPendingRevokes env nodeID st =
     (case ListAllSessions env st of None \<Rightarrow> st | Some recs \<Rightarrow> foldl (redeliver_one env nodeID) st recs)"

section \<open>Revoking by selection\<close>

text \<open>The common loop of \<open>revokeBySubject\<close>, \<open>revokeByNodeID\<close>, \<open>revokeUser\<close> and \<open>revokeUserInWorkspace\<close>.\<close>

fun revoke_where :: "ctl_env \<Rightarrow> (SessionRecord \<Rightarrow> bool) \<Rightarrow> string \<Rightarrow> SessionRecord list \<Rightarrow> nat \<times> ctl \<Rightarrow> nat \<times> ctl" where
  "revoke_where env sel reason [] (n, st) = (n, st)"
| "revoke_where env sel reason (rec # recs) (n, st) =
     (if \<not> sel rec \<or> \<not> live_state (ss_State rec) then revoke_where env sel reason recs (n, st)
      else case revokeSession env rec reason st of
          (ok, st') \<Rightarrow> revoke_where env sel reason recs (if ok then n + 1 else n, st'))"

definition revoke_listed :: "ctl_env \<Rightarrow> (SessionRecord \<Rightarrow> bool) \<Rightarrow> string \<Rightarrow> ctl \<Rightarrow> nat \<times> ctl" where
  "revoke_listed env sel reason st =
     (case ListAllSessions env st of None \<Rightarrow> (0, st) | Some recs \<Rightarrow> revoke_where env sel reason recs (0, st))"

definition is_principal :: "string \<Rightarrow> string \<Rightarrow> string \<Rightarrow> SessionRecord \<Rightarrow> bool" where
  "is_principal ws provider subject rec \<longleftrightarrow>
     ss_WorkspaceID rec = ws \<and> normProvider (ss_Provider rec) = normProvider provider \<and> ss_Subject rec = subject"

definition revokeBySubject :: "ctl_env \<Rightarrow> string \<Rightarrow> string \<Rightarrow> string \<Rightarrow> string \<Rightarrow> ctl \<Rightarrow> nat \<times> ctl" where
  "revokeBySubject env ws provider subject reason st =
     (if subject = [] then (0, st) else revoke_listed env (is_principal ws provider subject) reason st)"

definition revokeByNodeID :: "ctl_env \<Rightarrow> string \<Rightarrow> string \<Rightarrow> string \<Rightarrow> ctl \<Rightarrow> nat \<times> ctl" where
  "revokeByNodeID env ws nodeID reason st =
     revoke_listed env (\<lambda>rec. ss_WorkspaceID rec = ws \<and> ss_NodeID rec = nodeID) reason st"

definition revokeUser :: "ctl_env \<Rightarrow> string \<Rightarrow> string \<Rightarrow> ctl \<Rightarrow> nat \<times> ctl" where
  "revokeUser env user reason st = revoke_listed env (\<lambda>rec. ss_User rec = user) reason st"

definition revokeUserInWorkspace :: "ctl_env \<Rightarrow> string \<Rightarrow> string \<Rightarrow> string \<Rightarrow> ctl \<Rightarrow> nat \<times> ctl" where
  "revokeUserInWorkspace env ws user reason st =
     revoke_listed env (\<lambda>rec. ss_WorkspaceID rec = ws \<and> ss_User rec = user) reason st"

definition revokeByID :: "ctl_env \<Rightarrow> string \<Rightarrow> string \<Rightarrow> string \<Rightarrow> ctl \<Rightarrow> bool \<times> ctl" where
  "revokeByID env ws sessionID reason st =
     (case GetSession ws sessionID st of None \<Rightarrow> (False, st) | Some rec \<Rightarrow> revokeSession env rec reason st)"

text \<open>\<open>suspendPrincipal\<close>; the browser sessions it also drops are not part of this state.  \<open>None\<close>: the row was not written.\<close>

definition suspendPrincipal ::
    "ctl_env \<Rightarrow> string \<Rightarrow> string \<Rightarrow> string \<Rightarrow> string \<Rightarrow> string \<Rightarrow> string \<Rightarrow> ctl \<Rightarrow> ctl option" where
  "suspendPrincipal env ws provider subject username suspendedBy reason st =
     (case SuspendPrincipal (en_now env) ws provider subject username suspendedBy reason st of
        None \<Rightarrow> None
      | Some st1 \<Rightarrow>
          let st2 = snd (revokeBySubject env ws provider subject (''suspended: '' @ reason) st1)
          in Some (if en_audit env then append_audit ws ''principal_suspended'' username [] [] st2 else st2))"

definition liftSuspension :: "ctl_env \<Rightarrow> string \<Rightarrow> string \<Rightarrow> string \<Rightarrow> ctl \<Rightarrow> ctl" where
  "liftSuspension env ws provider subject st =
     (let st1 = LiftSuspension ws provider subject st
      in if en_audit env then append_audit ws ''principal_unsuspended'' [] [] [] st1 else st1)"

definition fanout_one :: "ctl_env \<Rightarrow> string \<Rightarrow> string \<Rightarrow> string \<Rightarrow> ctl \<Rightarrow> SessionRecord \<Rightarrow> ctl" where
  "fanout_one env ws provider subject st rec =
     (if \<not> is_principal ws provider subject rec then st
      else if \<not> en_online env (ss_NodeID rec) then st
      else if live_state (ss_State rec)
      then snd (revokeSession env rec (''suspended: '' @ normProvider provider) st)
      else if ss_State rec = SessionRevoked \<and> \<not> ss_RevokeDelivered rec then rePushRevoke env rec st
      else st)"

definition onSuspendFanout :: "ctl_env \<Rightarrow> string \<Rightarrow> string \<Rightarrow> string \<Rightarrow> ctl \<Rightarrow> ctl" where
  "onSuspendFanout env ws provider subject st =
     (if subject = [] then st
      else case ListAllSessions env st of
          None \<Rightarrow> st
        | Some recs \<Rightarrow> foldl (fanout_one env ws provider subject) st recs)"

section \<open>Events of a node\<close>

record node_event =
  nv_SessionId :: string
  nv_Event :: string
  nv_HostSessionId :: string
  nv_ExitCode :: int

definition terminal_state :: "SessionState \<Rightarrow> bool" where
  "terminal_state s \<longleftrightarrow> s = SessionEnded \<or> s = SessionRevoked"

text \<open>The closure \<open>update\<close>: the record of another node is left as it is.\<close>

definition event_update :: "string \<Rightarrow> node_event \<Rightarrow> (SessionRecord \<Rightarrow> SessionRecord) \<Rightarrow> SessionRecord \<Rightarrow> SessionRecord" where
  "event_update nodeID ev f r =
     (if ss_NodeID r \<noteq> nodeID then r
      else f (if nv_HostSessionId ev \<noteq> [] then r\<lparr>ss_HostSessionID := nv_HostSessionId ev\<rparr> else r))"

definition to_state :: "SessionState \<Rightarrow> SessionRecord \<Rightarrow> SessionRecord" where
  "to_state s r = (if \<not> terminal_state (ss_State r) then r\<lparr>ss_State := s\<rparr> else r)"

definition end_session :: "ctl_env \<Rightarrow> int option \<Rightarrow> SessionRecord \<Rightarrow> SessionRecord" where
  "end_session env code r =
     (let r1 = (if ss_State r \<noteq> SessionRevoked then r\<lparr>ss_State := SessionEnded\<rparr> else r);
          r2 = r1\<lparr>ss_EndedUnix := Time_Unix (en_now env)\<rparr>
      in case code of None \<Rightarrow> r2 | Some c \<Rightarrow> r2\<lparr>ss_ExitCode := c\<rparr>)"

definition apply_event ::
    "ctl_env \<Rightarrow> string \<Rightarrow> string \<Rightarrow> node_event \<Rightarrow> (SessionRecord \<Rightarrow> SessionRecord) \<Rightarrow> ctl \<Rightarrow> SessionRecord option \<times> ctl" where
  "apply_event env ws nodeID ev f st =
     UpdateSession (en_store env NodeEvent (nv_SessionId ev)) ws (nv_SessionId ev) (event_update nodeID ev f) st"

definition event_ends ::
    "ctl_env \<Rightarrow> string \<Rightarrow> string \<Rightarrow> node_event \<Rightarrow> int option \<Rightarrow> ctl \<Rightarrow> ctl" where
  "event_ends env ws nodeID ev code st =
     unregister_signal (nv_SessionId ev)
       (case apply_event env ws nodeID ev (end_session env code) st of
          (None, st1) \<Rightarrow> st1
        | (Some r, st1) \<Rightarrow>
            if ss_NodeID r = nodeID then release_ip (ss_WorkspaceID r) (ss_OverlayIP r) st1 else st1)"

definition handleSessionEvent :: "ctl_env \<Rightarrow> string \<Rightarrow> string \<Rightarrow> node_event \<Rightarrow> ctl \<Rightarrow> ctl" where
  "handleSessionEvent env ws nodeID ev st =
     (let st1 =
        (if nv_Event ev = ''established'' then snd (apply_event env ws nodeID ev (to_state SessionActive) st)
         else if nv_Event ev = ''attached'' then snd (apply_event env ws nodeID ev (to_state SessionActive) st)
         else if nv_Event ev = ''detached'' then snd (apply_event env ws nodeID ev (to_state SessionDetached) st)
         else if nv_Event ev = ''ended'' then event_ends env ws nodeID ev (Some (nv_ExitCode ev)) st
         else if nv_Event ev = ''rejected'' then event_ends env ws nodeID ev None st
         else if nv_Event ev = ''revoked'' then confirmRevokeDelivered env ws (nv_SessionId ev) nodeID st
         else st)
      in if en_audit env then append_audit [] ''session_event'' [] nodeID (nv_SessionId ev) st1 else st1)"

section \<open>Lemmas on the store\<close>

text \<open>What one call leaves alone: everything but the session it names.\<close>

lemma map_of_replace:
  "map_of (map (\<lambda>(k, v). if k = a then (k, r) else (k, v)) xs) x =
     (if x = a \<and> map_of xs a \<noteq> None then Some r else map_of xs x)"
  by (induction xs) auto

lemma GetSession_set_session:
  "GetSession w s (set_session ws sid r st) =
     (if w = ws \<and> s = sid \<and> GetSession ws sid st \<noteq> None then Some r else GetSession w s st)"
  by (auto simp: GetSession_def set_session_def map_of_replace)

lemma UpdateSession_get:
  "GetSession w s (snd (UpdateSession out ws sid f st)) =
     (if w = ws \<and> s = sid \<and> out = Committed then map_option f (GetSession ws sid st) else GetSession w s st)"
  by (auto simp: UpdateSession_def GetSession_set_session split: option.splits upd_outcome.splits)

lemma UpdateSession_fst:
  "fst (UpdateSession out ws sid f st) = (if out = NotRead then None else map_option f (GetSession ws sid st))"
  by (auto simp: UpdateSession_def split: option.splits upd_outcome.splits)

text \<open>The part of the state that no operation on sessions writes.\<close>

definition same_rest :: "ctl \<Rightarrow> ctl \<Rightarrow> bool" where
  "same_rest st st' \<longleftrightarrow>
     ct_nodes st' = ct_nodes st \<and> ct_suspensions st' = ct_suspensions st \<and>
     ct_quarantines st' = ct_quarantines st \<and> ct_nodeWS st' = ct_nodeWS st \<and>
     map fst (ct_sessions st') = map fst (ct_sessions st)"

lemma same_rest_refl [simp]: "same_rest st st"
  by (simp add: same_rest_def)

lemma same_rest_trans: "same_rest a b \<Longrightarrow> same_rest b c \<Longrightarrow> same_rest a c"
  by (simp add: same_rest_def)

lemma keys_replace: "map fst (map (\<lambda>(k, v). if k = a then (k, r) else (k, v)) xs) = map fst xs"
  by (induction xs) auto

lemma same_rest_update: "same_rest st (snd (UpdateSession out ws sid f st))"
  by (auto simp: UpdateSession_def same_rest_def set_session_def keys_replace simp del: map_map
      split: option.splits upd_outcome.splits)

lemma nextEpoch_snd:
  "snd (nextEpoch env ws sid st) = snd (UpdateSession (en_store env BumpEpoch sid) ws sid
     (\<lambda>r. r\<lparr>ss_EnforcementEpoch := i64 (ss_EnforcementEpoch r + 1)\<rparr>) st)"
  by (simp add: nextEpoch_def split: prod.splits option.splits)

lemma nextEpoch_fst:
  "fst (nextEpoch env ws sid st) =
     (if en_store env BumpEpoch sid = NotRead then 0
      else case GetSession ws sid st of None \<Rightarrow> 0 | Some r \<Rightarrow> i64 (ss_EnforcementEpoch r + 1))"
  using UpdateSession_fst [of "en_store env BumpEpoch sid" ws sid
      "\<lambda>r. r\<lparr>ss_EnforcementEpoch := i64 (ss_EnforcementEpoch r + 1)\<rparr>" st]
  by (auto simp: nextEpoch_def split: prod.splits option.splits if_splits)

text \<open>Operations that leave the stored sessions alone.\<close>

lemma sessions_unchanged [simp]:
  "ct_sessions (snd (registry_send env n m st)) = ct_sessions st"
  "ct_sessions (snd (notifyGW pg c op ws n sid reason st)) = ct_sessions st"
  "ct_sessions (deliver_control env sid m st) = ct_sessions st"
  "ct_sessions (touch_signal env sid st) = ct_sessions st"
  "ct_sessions (release_ip ws ip st) = ct_sessions st"
  "ct_sessions (unregister_signal sid st) = ct_sessions st"
  "ct_sessions (append_audit ws typ actor n sid st) = ct_sessions st"
  by (simp_all add: registry_send_def notifyGW_def deliver_control_def touch_signal_def release_ip_def
        unregister_signal_def append_audit_def)

lemma rest_unchanged [simp]:
  "same_rest st (snd (registry_send env n m st))"
  "same_rest st (snd (notifyGW pg c op ws n sid reason st))"
  "same_rest st (deliver_control env sid m st)"
  "same_rest st (touch_signal env sid st)"
  "same_rest st (release_ip ws ip st)"
  "same_rest st (unregister_signal sid st)"
  "same_rest st (append_audit ws typ actor n sid st)"
  by (simp_all add: same_rest_def registry_send_def notifyGW_def deliver_control_def touch_signal_def release_ip_def
        unregister_signal_def append_audit_def)

lemma GetSession_cong: "ct_sessions st = ct_sessions st' \<Longrightarrow> GetSession ws sid st = GetSession ws sid st'"
  by (simp add: GetSession_def)

text \<open>The sessions after a router's \<open>SendRevoke\<close>: the epoch of the named one may have moved.\<close>

definition bump :: "SessionRecord \<Rightarrow> SessionRecord" where
  "bump r = r\<lparr>ss_EnforcementEpoch := i64 (ss_EnforcementEpoch r + 1)\<rparr>"

lemma nextEpoch_get:
  "GetSession w s (snd (nextEpoch env ws sid st)) =
     (if w = ws \<and> s = sid \<and> en_store env BumpEpoch sid = Committed then map_option bump (GetSession ws sid st)
      else GetSession w s st)"
  unfolding nextEpoch_snd UpdateSession_get by (auto simp: bump_def [abs_def])

lemma nextEpoch_rest: "same_rest st (snd (nextEpoch env ws sid st))"
  unfolding nextEpoch_snd by (rule same_rest_update)

lemma SendRevoke_local_snd:
  "ct_sessions (snd (snd (SendRevoke_local env rec reason st))) =
     ct_sessions (snd (nextEpoch env (ss_WorkspaceID rec) (ss_ID rec) st))"
  by (simp add: SendRevoke_local_def signRevokeRec_def split_beta split: sum.splits)

lemma SendRevoke_sessions:
  "ct_sessions (snd (snd (SendRevoke env rec reason st))) = ct_sessions st \<or>
   ct_sessions (snd (snd (SendRevoke env rec reason st))) =
     ct_sessions (snd (nextEpoch env (ss_WorkspaceID rec) (ss_ID rec) st))"
proof (cases "en_router env")
  case InprocRouter
  then show ?thesis by (simp add: SendRevoke_def SendRevoke_local_snd)
next
  case (PGRouter pg)
  obtain loc owner where o: "owns env pg (ss_NodeID rec) = (loc, owner)" by fastforce
  show ?thesis
    using sessions_unchanged(2) [of pg owner opRevoke "ss_WorkspaceID rec" "ss_NodeID rec" "ss_ID rec" reason st]
    by (simp add: SendRevoke_def PGRouter o SendRevoke_local_snd split_beta)
qed

lemma SendRevoke_local_rest: "same_rest st (snd (snd (SendRevoke_local env rec reason st)))"
proof -
  obtain e st1 where n: "nextEpoch env (ss_WorkspaceID rec) (ss_ID rec) st = (e, st1)" by fastforce
  have 1: "same_rest st st1" using nextEpoch_rest [of st env "ss_WorkspaceID rec" "ss_ID rec"] n by simp
  show ?thesis
  proof (cases "signRevoke env rec e reason")
    case (Inl err)
    with 1 show ?thesis by (simp add: SendRevoke_local_def signRevokeRec_def n)
  next
    case (Inr rv)
    have "same_rest st (snd (registry_send env (ss_NodeID rec) (CE_SessionRevoke rv) st1))"
      by (rule same_rest_trans [OF 1 rest_unchanged(1)])
    with Inr show ?thesis by (simp add: SendRevoke_local_def signRevokeRec_def n split_beta)
  qed
qed

lemma SendRevoke_rest: "same_rest st (snd (snd (SendRevoke env rec reason st)))"
proof (cases "en_router env")
  case InprocRouter
  then show ?thesis by (simp add: SendRevoke_def SendRevoke_local_rest)
next
  case (PGRouter pg)
  obtain loc owner where o: "owns env pg (ss_NodeID rec) = (loc, owner)" by fastforce
  show ?thesis
    using rest_unchanged(2) [of st pg owner opRevoke "ss_WorkspaceID rec" "ss_NodeID rec" "ss_ID rec" reason]
    by (simp add: SendRevoke_def PGRouter o SendRevoke_local_rest split_beta)
qed

lemma SendRevoke_get:
  "\<exists>b. (b = id \<or> b = bump) \<and>
     (\<forall>w s. GetSession w s (snd (snd (SendRevoke env rec reason st))) =
        (if w = ss_WorkspaceID rec \<and> s = ss_ID rec then map_option b (GetSession w s st) else GetSession w s st))"
  using SendRevoke_sessions [of env rec reason st]
proof
  assume "ct_sessions (snd (snd (SendRevoke env rec reason st))) = ct_sessions st"
  then have "GetSession w s (snd (snd (SendRevoke env rec reason st))) = GetSession w s st" for w s
    by (rule GetSession_cong)
  then show ?thesis by (intro exI [of _ id]) (simp add: option.map_id)
next
  assume "ct_sessions (snd (snd (SendRevoke env rec reason st))) =
    ct_sessions (snd (nextEpoch env (ss_WorkspaceID rec) (ss_ID rec) st))"
  then have g: "GetSession w s (snd (snd (SendRevoke env rec reason st))) =
      GetSession w s (snd (nextEpoch env (ss_WorkspaceID rec) (ss_ID rec) st))" for w s
    by (rule GetSession_cong)
  show ?thesis
  proof (cases "en_store env BumpEpoch (ss_ID rec) = Committed")
    case True
    then show ?thesis by (intro exI [of _ bump]) (simp add: g nextEpoch_get)
  next
    case False
    then show ?thesis by (intro exI [of _ id]) (simp add: g nextEpoch_get option.map_id)
  qed
qed

definition open_state :: "SessionState \<Rightarrow> bool" where
  "open_state s \<longleftrightarrow> s = SessionActive \<or> s = SessionDetached \<or> s = SessionPending"

lemma commit_revoked_sessions:
  "ct_sessions (commit_revoked env rec reason st) =
    ct_sessions (snd (UpdateSession (en_store env MarkRevoked (ss_ID rec)) (ss_WorkspaceID rec) (ss_ID rec)
      (mark_revoked env reason) st))"
  by (simp add: commit_revoked_def split_beta split: option.splits)

lemma commit_revoked_rest: "same_rest st (commit_revoked env rec reason st)"
  by (simp add: commit_revoked_def split_beta same_rest_update same_rest_trans [OF same_rest_update rest_unchanged(5)]
      split: option.splits)

lemma cut_client_sessions [simp]: "ct_sessions (cut_client env sid rv st) = ct_sessions st"
  by (simp add: cut_client_def split: option.splits)

lemma cut_client_rest: "same_rest st (cut_client env sid rv st)"
  by (simp add: cut_client_def split: option.splits)

lemma UpdateSession_cong:
  "ct_sessions a = ct_sessions b \<Longrightarrow>
   ct_sessions (snd (UpdateSession out ws sid f a)) = ct_sessions (snd (UpdateSession out ws sid f b))"
  by (auto simp: UpdateSession_def GetSession_def set_session_def split: option.splits upd_outcome.splits)

lemma revokeSession_sessions:
  assumes "open_state (ss_State rec)"
  shows "ct_sessions (snd (revokeSession env rec reason st)) =
    ct_sessions (snd (UpdateSession (en_store env MarkRevoked (ss_ID rec)) (ss_WorkspaceID rec) (ss_ID rec)
      (mark_revoked env reason) (snd (snd (SendRevoke env rec reason st)))))"
  using assms
  by (auto simp: revokeSession_def open_state_def Let_def split_beta commit_revoked_sessions intro!: UpdateSession_cong)

lemma revokeSession_closed: "\<not> open_state (ss_State rec) \<Longrightarrow> revokeSession env rec reason st = (True, st)"
  by (simp add: revokeSession_def open_state_def)

lemma revokeSession_get:
  "\<exists>b. (b = id \<or> b = bump) \<and>
     (\<forall>w s. GetSession w s (snd (revokeSession env rec reason st)) =
        (if w = ss_WorkspaceID rec \<and> s = ss_ID rec \<and> open_state (ss_State rec)
         then map_option ((if en_store env MarkRevoked (ss_ID rec) = Committed then mark_revoked env reason else id) \<circ> b)
                (GetSession w s st)
         else GetSession w s st))"
proof (cases "open_state (ss_State rec)")
  case False
  then show ?thesis by (intro exI [of _ id]) (simp add: revokeSession_closed)
next
  case True
  from SendRevoke_get [of env rec reason st] obtain b where b: "b = id \<or> b = bump"
    "\<forall>w s. GetSession w s (snd (snd (SendRevoke env rec reason st))) =
        (if w = ss_WorkspaceID rec \<and> s = ss_ID rec then map_option b (GetSession w s st) else GetSession w s st)"
    by (elim exE conjE)
  have eq: "GetSession w s (snd (revokeSession env rec reason st)) =
     GetSession w s (snd (UpdateSession (en_store env MarkRevoked (ss_ID rec)) (ss_WorkspaceID rec) (ss_ID rec)
      (mark_revoked env reason) (snd (snd (SendRevoke env rec reason st)))))" for w s
    by (rule GetSession_cong) (rule revokeSession_sessions [OF True])
  show ?thesis
  proof (intro exI [of _ b] conjI allI b(1))
    fix w s
    show "GetSession w s (snd (revokeSession env rec reason st)) =
        (if w = ss_WorkspaceID rec \<and> s = ss_ID rec \<and> open_state (ss_State rec)
         then map_option ((if en_store env MarkRevoked (ss_ID rec) = Committed then mark_revoked env reason else id) \<circ> b)
                (GetSession w s st)
         else GetSession w s st)"
      unfolding eq UpdateSession_get b(2) [rule_format] using True by (simp add: option.map_comp)
  qed
qed

lemma revokeSession_rest: "same_rest st (snd (revokeSession env rec reason st))"
proof (cases "open_state (ss_State rec)")
  case False
  then show ?thesis by (simp add: revokeSession_closed)
next
  case True
  let ?s = "unregister_signal (ss_ID rec) (commit_revoked env rec reason
      (cut_client env (ss_ID rec) (fst (snd (SendRevoke env rec reason st))) (snd (snd (SendRevoke env rec reason st)))))"
  have "same_rest st ?s"
    by (meson SendRevoke_rest cut_client_rest commit_revoked_rest rest_unchanged(6) same_rest_trans)
  with True show ?thesis
    by (simp add: revokeSession_def open_state_def Let_def split_beta same_rest_trans [OF _ rest_unchanged(7)])
qed

lemma push_sessions [simp]: "ct_sessions (push_enforcement env rec msg st) = ct_sessions st"
  by (simp add: push_enforcement_def)

lemma push_rest: "same_rest st (push_enforcement env rec msg st)"
  unfolding push_enforcement_def by (meson rest_unchanged same_rest_trans)

lemma refreshLease_sessions:
  "ct_sessions (refreshLease env rec st) = ct_sessions (snd (nextEpoch env (ss_WorkspaceID rec) (ss_ID rec) st))"
  by (simp add: refreshLease_def split_beta split: sum.splits)

lemma pushReadOnlyDelta_sessions:
  "ct_sessions (pushReadOnlyDelta env rec st) = ct_sessions (snd (nextEpoch env (ss_WorkspaceID rec) (ss_ID rec) st))"
  by (simp add: pushReadOnlyDelta_def split_beta split: sum.splits)

lemma lease_delta_rest: "same_rest st (refreshLease env rec st)" "same_rest st (pushReadOnlyDelta env rec st)"
  by (simp_all add: refreshLease_def pushReadOnlyDelta_def split_beta nextEpoch_rest
        same_rest_trans [OF nextEpoch_rest push_rest] split: sum.splits)

lemma lease_delta_get:
  "GetSession w s (refreshLease env rec st) =
     GetSession w s (snd (nextEpoch env (ss_WorkspaceID rec) (ss_ID rec) st))"
  "GetSession w s (pushReadOnlyDelta env rec st) =
     GetSession w s (snd (nextEpoch env (ss_WorkspaceID rec) (ss_ID rec) st))"
  by (rule GetSession_cong, simp add: refreshLease_sessions pushReadOnlyDelta_sessions)+

section \<open>The sweep\<close>

definition key_of :: "SessionRecord \<Rightarrow> string \<times> string" where
  "key_of r = (ss_WorkspaceID r, ss_ID r)"

text \<open>Every session is stored once, under its own workspace and id.\<close>

definition keyed :: "ctl \<Rightarrow> bool" where
  "keyed st \<longleftrightarrow> distinct (map fst (ct_sessions st)) \<and> (\<forall>(k, r) \<in> set (ct_sessions st). k = key_of r)"

lemma keyed_list: "keyed st \<Longrightarrow> distinct (map key_of (map snd (ct_sessions st)))"
proof -
  assume k: "keyed st"
  then have "map key_of (map snd (ct_sessions st)) = map fst (ct_sessions st)"
    by (auto simp: keyed_def)
  with k show ?thesis unfolding keyed_def by (simp only:)
qed

lemma keyed_get: "keyed st \<Longrightarrow> GetSession ws sid st = Some r \<Longrightarrow> r \<in> set (map snd (ct_sessions st)) \<and> key_of r = (ws, sid)"
  by (force simp: keyed_def GetSession_def dest: map_of_SomeD)

lemma IsSuspended_cong:
  "same_rest st st' \<Longrightarrow> IsSuspended env ws provider subject st' = IsSuspended env ws provider subject st"
  by (auto simp: IsSuspended_def same_rest_def split: option.splits)

lemma reauthorize_cong:
  "same_rest st st' \<Longrightarrow> reauthorizeWith env rec look st' = reauthorizeWith env rec look st"
  unfolding reauthorizeWith_def by (simp only: IsSuspended_cong)

lemma lookup_cong: "same_rest st st' \<Longrightarrow> storeNodeLookup env st' = storeNodeLookup env st"
  by (simp add: storeNodeLookup_def GetNode_def same_rest_def fun_eq_iff)

lemma nextEpoch_other: "(w, s) \<noteq> (ws, sid) \<Longrightarrow> GetSession w s (snd (nextEpoch env ws sid st)) = GetSession w s st"
  by (auto simp: nextEpoch_get)

lemma rePush_other: "(w, s) \<noteq> key_of rec \<Longrightarrow> GetSession w s (rePushRevoke env rec st) = GetSession w s st"
  using SendRevoke_get [of env rec "ss_RevokeReason rec" st] by (auto simp: rePushRevoke_def key_of_def)

lemma revoke_other: "(w, s) \<noteq> key_of rec \<Longrightarrow> GetSession w s (snd (revokeSession env rec reason st)) = GetSession w s st"
proof -
  assume "(w, s) \<noteq> key_of rec"
  moreover obtain b where "\<forall>w s. GetSession w s (snd (revokeSession env rec reason st)) =
        (if w = ss_WorkspaceID rec \<and> s = ss_ID rec \<and> open_state (ss_State rec)
         then map_option ((if en_store env MarkRevoked (ss_ID rec) = Committed then mark_revoked env reason else id) \<circ> b)
                (GetSession w s st)
         else GetSession w s st)"
    using revokeSession_get [of env rec reason st] by (elim exE conjE)
  ultimately show ?thesis by (auto simp: key_of_def)
qed

lemma drive_other:
  "(w, s) \<noteq> key_of rec \<Longrightarrow> GetSession w s (driveLiveSessionWith env rec look st) = GetSession w s st"
  by (simp add: driveLiveSessionWith_def revoke_other lease_delta_get nextEpoch_other key_of_def split: reauth.splits)

lemma drive_rest: "same_rest st (driveLiveSessionWith env rec look st)"
  by (simp add: driveLiveSessionWith_def revokeSession_rest lease_delta_rest split: reauth.splits)

lemma rePush_rest: "same_rest st (rePushRevoke env rec st)"
  by (simp add: rePushRevoke_def SendRevoke_rest)

lemma sweep_one_rest: "same_rest st (sweep_one env idx st rec)"
  by (simp add: sweep_one_def drive_rest rePush_rest)

lemma sweep_one_other: "(w, s) \<noteq> key_of rec \<Longrightarrow> GetSession w s (sweep_one env idx st rec) = GetSession w s st"
  by (simp add: sweep_one_def drive_other rePush_other)

lemma sweep_other:
  "\<forall>rec \<in> set recs. key_of rec \<noteq> (w, s) \<Longrightarrow> GetSession w s (foldl (sweep_one env idx) st recs) = GetSession w s st"
  by (induction recs arbitrary: st) (simp_all, metis sweep_one_other)

lemma sweep_rest: "same_rest st (foldl (sweep_one env idx) st recs)"
  by (induction recs arbitrary: st) (simp_all, metis sweep_one_rest same_rest_trans)

text \<open>A live session that is driven: revoked with the reason of the denial, or kept with its next epoch.\<close>

definition driven :: "ctl_env \<Rightarrow> reauth \<Rightarrow> SessionRecord \<Rightarrow> SessionRecord \<Rightarrow> bool" where
  "driven env d r r' \<longleftrightarrow>
     (case d of
        Denied why \<Rightarrow> r' = mark_revoked env (''continuous-authz: '' @ why) r \<or>
                      r' = mark_revoked env (''continuous-authz: '' @ why) (bump r)
      | Allowed _ \<Rightarrow> r' = bump r)"

lemma drive_own:
  assumes "en_store env BumpEpoch (ss_ID r) = Committed" and "en_store env MarkRevoked (ss_ID r) = Committed"
    and "live_state (ss_State r)" and "GetSession (ss_WorkspaceID r) (ss_ID r) st = Some r"
  shows "\<exists>r'. GetSession (ss_WorkspaceID r) (ss_ID r) (driveLiveSessionWith env r look st) = Some r' \<and>
     driven env (reauthorizeWith env r look st) r r'"
proof (cases "reauthorizeWith env r look st")
  case (Denied why)
  let ?reason = "''continuous-authz: '' @ why"
  obtain b where b: "b = id \<or> b = bump" "\<forall>w s. GetSession w s (snd (revokeSession env r ?reason st)) =
        (if w = ss_WorkspaceID r \<and> s = ss_ID r \<and> open_state (ss_State r)
         then map_option ((if en_store env MarkRevoked (ss_ID r) = Committed then mark_revoked env ?reason else id) \<circ> b)
                (GetSession w s st)
         else GetSession w s st)"
    using revokeSession_get [of env r ?reason st] by (elim exE conjE)
  have "open_state (ss_State r)" using assms(3) by (auto simp: open_state_def live_state_def)
  then have "GetSession (ss_WorkspaceID r) (ss_ID r) (driveLiveSessionWith env r look st) =
      Some (mark_revoked env ?reason (b r))"
    using b(2) assms by (simp add: driveLiveSessionWith_def Denied)
  with b(1) show ?thesis by (auto simp: driven_def Denied)
next
  case (Allowed ro)
  with assms show ?thesis
    by (simp add: driveLiveSessionWith_def lease_delta_get nextEpoch_get driven_def)
qed

lemma split_at_key:
  assumes "distinct (map key_of recs)" and "r \<in> set recs"
  shows "\<exists>xs ys. recs = xs @ r # ys \<and> (\<forall>x \<in> set xs. key_of x \<noteq> (ss_WorkspaceID r, ss_ID r)) \<and>
    (\<forall>x \<in> set ys. key_of x \<noteq> (ss_WorkspaceID r, ss_ID r))"
proof -
  obtain xs ys where recs: "recs = xs @ r # ys" using assms(2) by (meson split_list)
  with assms(1) have "key_of r \<notin> key_of ` set xs" "key_of r \<notin> key_of ` set ys" by auto
  then have "(\<forall>x \<in> set xs. key_of x \<noteq> key_of r) \<and> (\<forall>x \<in> set ys. key_of x \<noteq> key_of r)" by (metis imageI)
  with recs show ?thesis unfolding key_of_def [of r] by blast
qed

lemma sweep_own:
  assumes "distinct (map key_of recs)" and "r \<in> set recs" and "live_state (ss_State r)"
    and "en_store env BumpEpoch (ss_ID r) = Committed" and "en_store env MarkRevoked (ss_ID r) = Committed"
    and "GetSession (ss_WorkspaceID r) (ss_ID r) st = Some r"
  shows "\<exists>r'. GetSession (ss_WorkspaceID r) (ss_ID r) (foldl (sweep_one env idx) st recs) = Some r' \<and>
     driven env (reauthorizeWith env r (case idx of Some look \<Rightarrow> look | None \<Rightarrow> storeNodeLookup env st) st) r r'"
proof -
  obtain xs ys where recs: "recs = xs @ r # ys"
    and xs: "\<forall>x \<in> set xs. key_of x \<noteq> (ss_WorkspaceID r, ss_ID r)"
    and ys: "\<forall>x \<in> set ys. key_of x \<noteq> (ss_WorkspaceID r, ss_ID r)"
    using split_at_key [OF assms(1,2)] by blast
  let ?st = "foldl (sweep_one env idx) st xs"
  let ?look = "case idx of Some look \<Rightarrow> look | None \<Rightarrow> storeNodeLookup env ?st"
  have get: "GetSession (ss_WorkspaceID r) (ss_ID r) ?st = Some r"
    using sweep_other [OF xs] assms(6) by simp
  have rest: "same_rest st ?st" by (rule sweep_rest)
  obtain r' where r': "GetSession (ss_WorkspaceID r) (ss_ID r) (driveLiveSessionWith env r ?look ?st) = Some r'"
    "driven env (reauthorizeWith env r ?look ?st) r r'"
    using drive_own [OF assms(4,5,3) get] by blast
  have "GetSession (ss_WorkspaceID r) (ss_ID r) (foldl (sweep_one env idx) st recs) = Some r'"
    using sweep_other [OF ys] r'(1) assms(3) by (simp add: recs sweep_one_def)
  moreover have "?look = (case idx of Some look \<Rightarrow> look | None \<Rightarrow> storeNodeLookup env st)"
    by (simp only: lookup_cong [OF rest])
  ultimately show ?thesis using r'(2) reauthorize_cong [OF rest] by auto
qed

lemma sweep_closed:
  assumes "distinct (map key_of recs)" and "r \<in> set recs" and "\<not> live_state (ss_State r)"
    and "GetSession (ss_WorkspaceID r) (ss_ID r) st = Some r"
  shows "\<exists>r'. GetSession (ss_WorkspaceID r) (ss_ID r) (foldl (sweep_one env idx) st recs) = Some r' \<and> ss_State r' = ss_State r"
proof -
  obtain xs ys where recs: "recs = xs @ r # ys"
    and xs: "\<forall>x \<in> set xs. key_of x \<noteq> (ss_WorkspaceID r, ss_ID r)"
    and ys: "\<forall>x \<in> set ys. key_of x \<noteq> (ss_WorkspaceID r, ss_ID r)"
    using split_at_key [OF assms(1,2)] by blast
  let ?st = "foldl (sweep_one env idx) st xs"
  have get: "GetSession (ss_WorkspaceID r) (ss_ID r) ?st = Some r"
    using sweep_other [OF xs] assms(4) by simp
  obtain b where b: "b = id \<or> b = bump" "\<forall>w s. GetSession w s (rePushRevoke env r ?st) =
        (if w = ss_WorkspaceID r \<and> s = ss_ID r then map_option b (GetSession w s ?st) else GetSession w s ?st)"
    using SendRevoke_get [of env r "ss_RevokeReason r" ?st] unfolding rePushRevoke_def by (elim exE conjE)
  have "ss_State (b r) = ss_State r" using b(1) by (auto simp: bump_def)
  then have "\<exists>r'. GetSession (ss_WorkspaceID r) (ss_ID r) (sweep_one env idx ?st r) = Some r' \<and> ss_State r' = ss_State r"
    using assms(3) get b(2) by (simp add: sweep_one_def)
  then show ?thesis using sweep_other [OF ys] by (simp add: recs)
qed

section \<open>Histories\<close>

text \<open>
  One event is the handling of one session by a loop or handler, with the record the caller holds,
  which may be stale.  The whole handlers are sequences of these, so
  a history interleaves any number of them, on any number of controllers sharing the store.
\<close>

datatype authz_event =
    AxSweep ctl_env "(string \<Rightarrow> string \<Rightarrow> NodeRecord option) option" SessionRecord
  | AxRedeliver ctl_env string SessionRecord
  | AxFanout ctl_env string string string SessionRecord
  | AxRevoke ctl_env SessionRecord string
  | AxLease ctl_env SessionRecord
  | AxDoorbell ctl_env pg_env string
  | AxNode ctl_env string string node_event
  | AxCreate string SessionRecord
  | AxSuspend gotime string string string string string string
  | AxLift string string string
  | AxNodeRows nodes

fun authz_step :: "ctl \<Rightarrow> authz_event \<Rightarrow> ctl" where
  "authz_step st (AxSweep env idx rec) = sweep_one env idx st rec"
| "authz_step st (AxRedeliver env nodeID rec) = redeliver_one env nodeID st rec"
| "authz_step st (AxFanout env ws provider subject rec) = fanout_one env ws provider subject st rec"
| "authz_step st (AxRevoke env rec reason) = snd (revokeSession env rec reason st)"
| "authz_step st (AxLease env rec) = refreshLease env rec st"
| "authz_step st (AxDoorbell env pg payload) = handleAgentDoorbell env pg payload st"
| "authz_step st (AxNode env ws nodeID ev) = handleSessionEvent env ws nodeID ev st"
| "authz_step st (AxCreate ws rec) = (if GetSession ws (ss_ID rec) st = None then PutSession ws rec st else st)"
| "authz_step st (AxSuspend now ws provider subject user suspendedBy reason) =
     (case SuspendPrincipal now ws provider subject user suspendedBy reason st of None \<Rightarrow> st | Some st' \<Rightarrow> st')"
| "authz_step st (AxLift ws provider subject) = LiftSuspension ws provider subject st"
| "authz_step st (AxNodeRows ns) = st\<lparr>ct_nodes := ns\<rparr>"

lemma sweep_history:
  "foldl (sweep_one env idx) st recs = foldl authz_step st (map (AxSweep env idx) recs)"
  by (induction recs arbitrary: st) simp_all

lemma redeliver_history:
  "foldl (redeliver_one env nodeID) st recs = foldl authz_step st (map (AxRedeliver env nodeID) recs)"
  by (induction recs arbitrary: st) simp_all

lemma fanout_history:
  "foldl (fanout_one env ws p s) st recs = foldl authz_step st (map (AxFanout env ws p s) recs)"
  by (induction recs arbitrary: st) simp_all

lemma revoke_where_history:
  "snd (revoke_where env sel reason recs (n, st)) =
     foldl authz_step st (map (\<lambda>rec. AxRevoke env rec reason) (filter (\<lambda>rec. sel rec \<and> live_state (ss_State rec)) recs))"
  by (induction recs arbitrary: n st) (auto split: prod.splits simp: split_beta)

lemma revoke_listed_history:
  "\<exists>evs. snd (revoke_listed env sel reason st) = foldl authz_step st evs"
proof (cases "ListAllSessions env st")
  case None
  then show ?thesis by (intro exI [of _ "[]"]) (simp add: revoke_listed_def)
next
  case (Some recs)
  then show ?thesis using revoke_where_history [of env sel reason recs 0 st] by (auto simp: revoke_listed_def)
qed

lemma redeliverPendingRevokes_history:
  "\<exists>evs. redeliverPendingRevokes env nodeID st = foldl authz_step st evs"
proof (cases "ListAllSessions env st")
  case None
  then show ?thesis by (intro exI [of _ "[]"]) (simp add: redeliverPendingRevokes_def)
next
  case (Some recs)
  then show ?thesis using redeliver_history [of env nodeID st recs] by (auto simp: redeliverPendingRevokes_def)
qed

lemma onSuspendFanout_history:
  "\<exists>evs. onSuspendFanout env ws p s st = foldl authz_step st evs"
proof (cases "s = [] \<or> ListAllSessions env st = None")
  case True
  then show ?thesis by (intro exI [of _ "[]"]) (auto simp: onSuspendFanout_def)
next
  case False
  then obtain recs where "ListAllSessions env st = Some recs" by auto
  then show ?thesis using fanout_history [of env ws p s st recs] False by (auto simp: onSuspendFanout_def)
qed

section \<open>How a stored session evolves\<close>

definition fixed_part :: "SessionRecord \<Rightarrow> (string \<times> string) \<times> string \<times> bytes \<times> string \<times> string \<times> string" where
  "fixed_part r = (key_of r, ss_NodeID r, ss_ClientNoisePub r, ss_OverlayIP r, ss_Provider r, ss_Subject r)"

definition evolves :: "SessionRecord \<Rightarrow> SessionRecord \<Rightarrow> bool" where
  "evolves r r' \<longleftrightarrow>
     (terminal_state (ss_State r) \<longrightarrow> terminal_state (ss_State r')) \<and>
     (ss_State r = SessionRevoked \<longrightarrow> ss_State r' = SessionRevoked) \<and> fixed_part r' = fixed_part r"

definition keeps :: "ctl \<Rightarrow> ctl \<Rightarrow> bool" where
  "keeps st st' \<longleftrightarrow>
     (\<forall>ws sid r. GetSession ws sid st = Some r \<longrightarrow> (\<exists>r'. GetSession ws sid st' = Some r' \<and> evolves r r'))"

lemma evolves_refl [simp]: "evolves r r"
  by (simp add: evolves_def)

lemma evolves_trans: "evolves a b \<Longrightarrow> evolves b c \<Longrightarrow> evolves a c"
  by (auto simp: evolves_def)

lemma keeps_sessions: "ct_sessions st' = ct_sessions st \<Longrightarrow> keeps st st'"
  by (simp add: keeps_def GetSession_def)

lemma keeps_trans: "keeps a b \<Longrightarrow> keeps b c \<Longrightarrow> keeps a c"
  unfolding keeps_def by (meson evolves_trans)

lemma keeps_cong: "ct_sessions st' = ct_sessions st'' \<Longrightarrow> keeps st st' \<longleftrightarrow> keeps st st''"
  by (simp add: keeps_def GetSession_def)

lemma keeps_map:
  assumes "\<forall>w s. GetSession w s st' = (if P w s then map_option f (GetSession w s st) else GetSession w s st)"
    and "\<And>r. evolves r (f r)"
  shows "keeps st st'"
  using assms by (auto simp: keeps_def)

lemma evolves_bump [simp]: "evolves r (bump r)"
  by (simp add: evolves_def bump_def fixed_part_def key_of_def)

lemma evolves_mark [simp]: "evolves r (mark_revoked env reason r)"
  by (simp add: evolves_def mark_revoked_def fixed_part_def key_of_def terminal_state_def)

lemma keeps_nextEpoch: "keeps st (snd (nextEpoch env ws sid st))"
  by (rule keeps_map [where P = "\<lambda>w s. w = ws \<and> s = sid \<and> en_store env BumpEpoch sid = Committed" and f = bump])
    (simp_all add: nextEpoch_get)

lemma keeps_epoch:
  assumes "ct_sessions st' = ct_sessions st \<or> ct_sessions st' = ct_sessions (snd (nextEpoch env ws sid st))"
  shows "keeps st st'"
  using assms
proof
  assume eq: "ct_sessions st' = ct_sessions (snd (nextEpoch env ws sid st))"
  show ?thesis unfolding keeps_cong [OF eq] by (rule keeps_nextEpoch)
qed (rule keeps_sessions)

lemma keeps_SendRevoke: "keeps st (snd (snd (SendRevoke env rec reason st)))"
  by (rule keeps_epoch) (rule SendRevoke_sessions)

lemma keeps_update: "(\<And>r. evolves r (f r)) \<Longrightarrow> keeps st (snd (UpdateSession out ws sid f st))"
  by (rule keeps_map [where P = "\<lambda>w s. w = ws \<and> s = sid \<and> out = Committed" and f = f]) (auto simp: UpdateSession_get)

lemma keeps_revokeSession: "keeps st (snd (revokeSession env rec reason st))"
proof (cases "open_state (ss_State rec)")
  case True
  show ?thesis
    unfolding keeps_cong [OF revokeSession_sessions [OF True]]
    by (rule keeps_trans [OF keeps_SendRevoke keeps_update]) simp
qed (simp add: revokeSession_closed keeps_sessions)

lemma keeps_lease_delta: "keeps st (refreshLease env rec st)" "keeps st (pushReadOnlyDelta env rec st)"
  by (simp_all only: keeps_cong [OF refreshLease_sessions] keeps_cong [OF pushReadOnlyDelta_sessions] keeps_nextEpoch)

lemma keeps_drive: "keeps st (driveLiveSessionWith env rec look st)"
  by (simp add: driveLiveSessionWith_def keeps_revokeSession keeps_lease_delta split: reauth.splits)

lemma keeps_rePush: "keeps st (rePushRevoke env rec st)"
  by (simp add: rePushRevoke_def keeps_SendRevoke)

lemma doorbell_sessions:
  "\<exists>ws sid. ct_sessions (handleAgentDoorbell env pg payload st) = ct_sessions st \<or>
     ct_sessions (handleAgentDoorbell env pg payload st) = ct_sessions (snd (nextEpoch env ws sid st))"
proof -
  obtain op ws n sid reason where d: "decDoorbell payload = (op, ws, n, sid, reason)" by (metis prod_cases5)
  show ?thesis
  proof (cases "\<not> currentEpochMatches env pg n \<or> op \<noteq> opRevoke \<or> ct_nodeWS st n = None")
    case True
    then show ?thesis by (auto simp: handleAgentDoorbell_def d signRevokeForRouter_def)
  next
    case False
    then obtain w where w: "ct_nodeWS st n = Some w" by auto
    show ?thesis
      using False
      by (intro exI [of _ w] exI [of _ sid])
        (auto simp: handleAgentDoorbell_def d signRevokeForRouter_def w split_beta split: option.splits sum.splits)
  qed
qed

lemma keeps_doorbell: "keeps st (handleAgentDoorbell env pg payload st)"
  using doorbell_sessions [of env pg payload st] by (elim exE) (rule keeps_epoch)

lemma evolves_event:
  "(\<And>r. evolves r (f r)) \<Longrightarrow> evolves r (event_update nodeID ev f r)"
proof -
  assume f: "\<And>r. evolves r (f r)"
  have "evolves r (r\<lparr>ss_HostSessionID := h\<rparr>)" for h by (simp add: evolves_def fixed_part_def key_of_def)
  then show ?thesis
    by (simp add: event_update_def f evolves_trans [OF _ f])
qed

lemma evolves_closures:
  "evolves r (to_state SessionActive r)" "evolves r (to_state SessionDetached r)"
  "evolves r (end_session env code r)" "evolves r (confirm_delivered r)"
  by (auto simp: evolves_def to_state_def end_session_def confirm_delivered_def terminal_state_def fixed_part_def
        key_of_def Let_def split: option.splits)

lemma event_ends_sessions:
  "ct_sessions (event_ends env ws nodeID ev code st) =
     ct_sessions (snd (apply_event env ws nodeID ev (end_session env code) st))"
  by (simp add: event_ends_def split_beta split: option.splits)

lemma confirm_sessions:
  "ct_sessions (confirmRevokeDelivered env ws sid nodeID st) =
     ct_sessions (snd (UpdateSession (en_store env NodeEvent sid) ws sid confirm_delivered st))"
  by (simp add: confirmRevokeDelivered_def Let_def)

lemma keeps_node: "keeps st (handleSessionEvent env ws nodeID ev st)"
proof -
  have ap: "keeps st (snd (apply_event env ws nodeID ev f st))" if "\<And>r. evolves r (f r)" for f
    unfolding apply_event_def by (rule keeps_update) (rule evolves_event [OF that])
  have en: "keeps st (event_ends env ws nodeID ev code st)" for code
    unfolding keeps_cong [OF event_ends_sessions] by (rule ap) (rule evolves_closures)
  have co: "keeps st (confirmRevokeDelivered env ws (nv_SessionId ev) nodeID st)"
    unfolding keeps_cong [OF confirm_sessions] by (rule keeps_update) (rule evolves_closures)
  have au: "keeps st (append_audit w t a n s x) \<longleftrightarrow> keeps st x" for w t a n s x
    by (rule keeps_cong) simp
  show ?thesis
    by (simp add: handleSessionEvent_def Let_def au ap en co evolves_closures keeps_sessions)
qed

lemma keeps_create: "keeps st (authz_step st (AxCreate ws rec))"
  by (auto simp: keeps_def PutSession_def GetSession_def Let_def)

lemma keeps_step: "keeps st (authz_step st ev)"
proof (cases ev)
  case (AxCreate ws rec)
  then show ?thesis by (simp only: keeps_create)
qed (simp_all add: sweep_one_def redeliver_one_def fanout_one_def driveLiveSession_def keeps_drive keeps_rePush
      keeps_revokeSession keeps_lease_delta keeps_doorbell keeps_node keeps_sessions LiftSuspension_def
      SuspendPrincipal_def)

interpretation authz: step_system authz_step "keeps st0" for st0
  by unfold_locales (rule keeps_trans [OF _ keeps_step])

section \<open>Doorbells\<close>

lemma SplitN_sep:
  "principalSep \<notin> set a \<Longrightarrow> SplitN (Suc (Suc n)) principalSep (a @ principalSep # b) = a # SplitN (Suc n) principalSep b"
  by (subst SplitN.simps) (simp add: index_byte_append)

lemma SplitN_last: "SplitN (Suc 0) c s = [s]"
  by (subst SplitN.simps) simp

section \<open>Example\<close>

definition demo_record :: SessionRecord where
  "demo_record =
     \<lparr>ss_WorkspaceID = ''w'', ss_ID = ''s1'', ss_User = ''alice'', ss_Provider = ''oidc'', ss_Subject = ''sub'',
      ss_NodeID = ''n1'', ss_NodeName = ''n1'', ss_Action = ''shell'', ss_State = SessionActive, ss_HostSessionID = [],
      ss_StartedUnix = 0, ss_EndedUnix = 0, ss_ExitCode = 0, ss_Detachable = False, ss_Roles = [], ss_Service = [], ss_ServiceKind = [], ss_ServiceLabels = Map.empty,
      ss_ClientPath = ''native'', ss_OverlayIP = ''100.64.0.128'', ss_ClientNoisePub = replicate 32 CHR ''c'',
      ss_GrantAllowPTY = True, ss_GrantForwardTargets = [], ss_EnforcementEpoch = 0, ss_RehomeEpoch = 0, ss_GrantScope = [], ss_RevokeReason = [],
      ss_RevokeDelivered = False, ss_RequirePresence = False, ss_LastPresenceUnix = 0, ss_LastPresenceCounter = 0,
      ss_PresenceChallenge = [], ss_PrevPresenceChallenge = [], ss_PrevChallengeUnix = 0\<rparr>"

definition demo_ctl :: "SessionRecord list \<Rightarrow> ctl" where
  "demo_ctl rs =
     \<lparr>ct_sessions = map (\<lambda>r. (key_of r, r)) rs, ct_nodes = [], ct_nodeWS = Map.empty, ct_suspensions = Map.empty,
      ct_quarantines = [], ct_pool = (\<lambda>_. newOverlayAllocator\<lparr>oa_used := {''100.64.0.128''}\<rparr>),
      ct_signals = newSessionSignalBroker, ct_agent_out = [], ct_offers = [], ct_rings = [], ct_repush = [], ct_audit = []\<rparr>"

text \<open>A controller that holds every stream, whose writes succeed, and that has no policy: it denies everything.\<close>

definition demo_ctl_env :: ctl_env where
  "demo_ctl_env =
     \<lparr>en_now = 0, en_online = (\<lambda>_. True), en_send = (\<lambda>_. True), en_store = (\<lambda>_ _. Committed), en_listSessions = True,
      en_listNodes = True, en_getNode = True, en_suspRead = None, en_audit = True, en_router = InprocRouter,
      en_policies = Map.empty, en_zone = (\<lambda>_. 0), en_show = (\<lambda>_. ''denied''), en_presenceTTL = 0,
      en_grantKey = (\<lambda>_. Some (replicate 64 CHR ''x'')), en_grantKeyID = ''k'',
      en_codec = \<lparr>mc_Signed = (\<lambda>e. Some (s_Payload e)), mc_Grant = (\<lambda>_. None), mc_Lease = (\<lambda>_. None), mc_Delta = (\<lambda>_. None),
                  mc_Revoke = (\<lambda>p. Some (if rp_Epoch p = 1 then ''1'' else ''2''))\<rparr>\<rparr>"

lemma demo_get: "GetSession ''w'' ''s1'' (demo_ctl (demo_record\<lparr>ss_State := s, ss_RevokeDelivered := d\<rparr> # rs)) =
    Some (demo_record\<lparr>ss_State := s, ss_RevokeDelivered := d\<rparr>)"
  by (simp add: GetSession_def demo_ctl_def demo_record_def key_of_def)

lemma demo_keyed: "keyed (demo_ctl [demo_record])"
  by (simp add: keyed_def demo_ctl_def)

section \<open>Properties\<close>

text \<open>What a live session needs to stay: the current suspension, presence, approval and policy all allow it.\<close>

definition still_authorized :: "ctl_env \<Rightarrow> ctl \<Rightarrow> SessionRecord \<Rightarrow> bool" where
  "still_authorized env st r \<longleftrightarrow>
     \<not> IsSuspended env (ss_WorkspaceID r) (ss_Provider r) (ss_Subject r) st \<and> \<not> presence_stale env r \<and>
     (case GetNode (ss_WorkspaceID r) (ss_NodeID r) st of
        None \<Rightarrow> d_Allow (policy_decision env (ss_WorkspaceID r) (policy_input env r Map.empty))
      | Some n \<Rightarrow> nr_Approved n \<and> d_Allow (policy_decision env (ss_WorkspaceID r) (policy_input env r (nr_Labels n))))"

lemma reauthorize_allowed_iff:
  "(\<exists>ro. reauthorizeWith env r (\<lambda>w n. GetNode w n st) st = Allowed ro) \<longleftrightarrow> still_authorized env st r"
  by (auto simp: reauthorizeWith_def still_authorized_def Let_def split: option.splits)

text \<open>
  C11: Continuous authorization.  When the lists can be read and the writes succeed, one sweep leaves
  live exactly the sessions that were live and that the suspension list, the presence rule, the
  node's approval and the current policy all still allow; every other live session is marked
  revoked, with the teardown owed to the agent, and sessions that were not live keep their state.
\<close>

theorem sweep_enforces_current_policy:
  assumes "keyed st" and "en_listSessions env" and "en_listNodes env"
    and "\<forall>op s. en_store env op s = Committed"
    and "GetSession ws sid st = Some r"
  shows "\<exists>r'. GetSession ws sid (reauthSweep env ids st) = Some r' \<and>
    (live_state (ss_State r') \<longleftrightarrow> live_state (ss_State r) \<and> still_authorized env st r) \<and>
    (live_state (ss_State r) \<and> \<not> still_authorized env st r \<longrightarrow>
       ss_State r' = SessionRevoked \<and> \<not> ss_RevokeDelivered r' \<and>
       (\<exists>why. ss_RevokeReason r' = ''continuous-authz: '' @ why)) \<and>
    (\<not> live_state (ss_State r) \<longrightarrow> ss_State r' = ss_State r)"
proof -
  define st1 where "st1 = st\<lparr>ct_signals := sweepExpired (en_now env) ids (ct_signals st)\<rparr>"
  let ?recs = "map snd (ct_sessions st)" and ?look = "\<lambda>w n. GetNode w n st"
  have sweep: "reauthSweep env ids st = foldl (sweep_one env (Some ?look)) st1 ?recs"
    using assms(2,3) by (simp add: reauthSweep_def GetNode_def ListAllSessions_def st1_def)
  have k: "key_of r = (ws, sid)" "r \<in> set ?recs" and d: "distinct (map key_of ?recs)"
    using keyed_get [OF assms(1,5)] keyed_list [OF assms(1)] by simp_all
  then have g: "GetSession (ss_WorkspaceID r) (ss_ID r) st1 = Some r"
    using assms(5) by (simp add: key_of_def st1_def GetSession_def)
  have eq: "reauthorizeWith env r ?look st1 = reauthorizeWith env r ?look st"
    by (rule reauthorize_cong) (simp add: same_rest_def st1_def)
  have key: "ws = ss_WorkspaceID r" "sid = ss_ID r" using k(1) by (simp_all add: key_of_def)
  show ?thesis
  proof (cases "live_state (ss_State r)")
    case False
    obtain r' where "GetSession ws sid (reauthSweep env ids st) = Some r'" "ss_State r' = ss_State r"
      using sweep_closed [OF d k(2) False g, of env "Some ?look"] unfolding sweep key by blast
    with False show ?thesis by simp
  next
    case True
    obtain r' where r': "GetSession ws sid (reauthSweep env ids st) = Some r'" "driven env (reauthorizeWith env r ?look st) r r'"
      using sweep_own [OF d k(2) True _ _ g, of env "Some ?look"] assms(4) unfolding sweep key eq option.case by blast
    show ?thesis
      using r' True reauthorize_allowed_iff [of env r st]
      by (cases "reauthorizeWith env r ?look st")
        (auto simp: driven_def mark_revoked_def live_state_def bump_def)
  qed
qed

theorem sweep_enforces_current_policy_witness:
  "ss_State (the (GetSession ''w'' ''s1'' (reauthSweep demo_ctl_env [] (demo_ctl [demo_record])))) = SessionRevoked"
proof -
  have g: "GetSession ''w'' ''s1'' (demo_ctl [demo_record]) = Some demo_record"
    by (simp add: GetSession_def demo_ctl_def demo_record_def key_of_def)
  have "\<not> still_authorized demo_ctl_env (demo_ctl [demo_record]) demo_record"
    by (simp add: still_authorized_def GetNode_def policy_decision_def demo_ctl_env_def demo_ctl_def denied_def)
  moreover have "live_state (ss_State demo_record)" by (simp add: live_state_def demo_record_def)
  ultimately show ?thesis
    using sweep_enforces_current_policy [OF demo_keyed _ _ _ g, of demo_ctl_env "[]"]
    by (auto simp: demo_ctl_env_def)
qed



text \<open>
  A teardown can be acknowledged by another node.  A \<open>revoked\<close> event is applied without comparing
  the node that sent it with the node of the session: any node of the workspace that names the
  session marks the owed revoke delivered, and from then on neither the sweep nor a reconnect of the
  right node pushes it again.
\<close>

theorem foreign_node_confirms_a_revoke:
  assumes "GetSession ws sid st = Some r" and "ss_State r = SessionRevoked" and "nodeID \<noteq> ss_NodeID r"
    and "en_store env NodeEvent sid = Committed"
    and "nv_Event ev = ''revoked''" and "nv_SessionId ev = sid"
  shows "\<exists>r'. GetSession ws sid (handleSessionEvent env ws nodeID ev st) = Some r' \<and> ss_RevokeDelivered r' \<and>
     (\<forall>env' idx st'. sweep_one env' idx st' r' = st' \<and> redeliver_one env' (ss_NodeID r) st' r' = st')"
proof -
  have "GetSession ws sid (handleSessionEvent env ws nodeID ev st) =
      GetSession ws sid (snd (UpdateSession (en_store env NodeEvent sid) ws sid confirm_delivered st))"
    by (rule GetSession_cong) (simp add: handleSessionEvent_def assms(5,6) Let_def confirm_sessions)
  also have "\<dots> = Some (confirm_delivered r)" by (simp add: UpdateSession_get assms(1,4))
  finally show ?thesis
    using assms(2) by (auto simp: confirm_delivered_def sweep_one_def redeliver_one_def live_state_def)
qed

theorem foreign_node_confirms_a_revoke_witness:
  "ss_RevokeDelivered (the (GetSession ''w'' ''s1'' (handleSessionEvent demo_ctl_env ''w'' ''evil''
     \<lparr>nv_SessionId = ''s1'', nv_Event = ''revoked'', nv_HostSessionId = [], nv_ExitCode = 0\<rparr>
     (demo_ctl [demo_record\<lparr>ss_State := SessionRevoked, ss_RevokeDelivered := False\<rparr>]))))"
proof -
  let ?ev = "\<lparr>nv_SessionId = ''s1'', nv_Event = ''revoked'', nv_HostSessionId = [], nv_ExitCode = 0\<rparr>"
  have "''evil'' \<noteq> ss_NodeID (demo_record\<lparr>ss_State := SessionRevoked, ss_RevokeDelivered := False\<rparr>)"
    "ss_State (demo_record\<lparr>ss_State := SessionRevoked, ss_RevokeDelivered := False\<rparr>) = SessionRevoked"
    by (simp_all add: demo_record_def)
  from foreign_node_confirms_a_revoke [OF demo_get [where s = SessionRevoked and d = False and rs = "[]"] this(2,1), of demo_ctl_env ?ev]
  show ?thesis by (auto simp: demo_ctl_env_def)
qed

text \<open>
  An address can be freed under a session that holds it.  A node that repeats \<open>ended\<close> for a session
  of its own that is already over (as it does when the tunnel of a revoked session closes) releases
  the overlay address of that record again, even if the address was meanwhile given to another
  session, which stays live with it while the pool may hand it out a second time.
\<close>

theorem repeated_end_frees_a_held_address:
  assumes "GetSession ws sid st = Some r" and "terminal_state (ss_State r)" and "ss_NodeID r = nodeID"
    and "ss_WorkspaceID r = ws" and "ss_OverlayIP r \<noteq> []"
    and "GetSession ws sid2 st = Some r2" and "sid2 \<noteq> sid" and "ss_OverlayIP r2 = ss_OverlayIP r"
    and "en_store env NodeEvent sid = Committed"
    and "nv_Event ev = ''ended''" and "nv_SessionId ev = sid"
  shows "GetSession ws sid2 (handleSessionEvent env ws nodeID ev st) = Some r2 \<and>
     ss_OverlayIP r2 \<notin> oa_used (ct_pool (handleSessionEvent env ws nodeID ev st) ws)"
proof -
  let ?f = "event_update nodeID ev (end_session env (Some (nv_ExitCode ev)))"
  have f: "ss_NodeID (?f r) = nodeID" "ss_OverlayIP (?f r) = ss_OverlayIP r" "ss_WorkspaceID (?f r) = ws"
    using assms(3,4) by (simp_all add: event_update_def end_session_def Let_def)
  have upd: "apply_event env ws nodeID ev (end_session env (Some (nv_ExitCode ev))) st =
      (Some (?f r), set_session ws sid (?f r) st)"
    by (simp add: apply_event_def UpdateSession_def assms)
  have ends: "event_ends env ws nodeID ev (Some (nv_ExitCode ev)) st =
      unregister_signal sid (release_ip ws (ss_OverlayIP r) (set_session ws sid (?f r) st))"
    by (simp add: event_ends_def upd f assms(11))
  have pool: "ct_pool (handleSessionEvent env ws nodeID ev st) ws = release (ss_OverlayIP r) (ct_pool st ws)"
    by (simp add: handleSessionEvent_def Let_def assms(10) ends append_audit_def unregister_signal_def release_ip_def set_session_def)
  have "GetSession ws sid2 (handleSessionEvent env ws nodeID ev st) = GetSession ws sid2 (set_session ws sid (?f r) st)"
    by (rule GetSession_cong) (simp add: handleSessionEvent_def Let_def assms(10) ends)
  also have "\<dots> = Some r2" using assms(6,7) by (simp add: GetSession_set_session)
  finally show ?thesis using assms(5,8) by (simp add: pool release_def)
qed

theorem repeated_end_frees_a_held_address_witness:
  "''100.64.0.128'' \<notin> oa_used (ct_pool (handleSessionEvent demo_ctl_env ''w'' ''n1''
     \<lparr>nv_SessionId = ''s1'', nv_Event = ''ended'', nv_HostSessionId = [], nv_ExitCode = 0\<rparr>
     (demo_ctl [demo_record\<lparr>ss_State := SessionRevoked, ss_RevokeDelivered := False\<rparr>, demo_record\<lparr>ss_ID := ''s2''\<rparr>])) ''w'')"
proof -
  let ?ev = "\<lparr>nv_SessionId = ''s1'', nv_Event = ''ended'', nv_HostSessionId = [], nv_ExitCode = 0\<rparr>"
  let ?r = "demo_record\<lparr>ss_State := SessionRevoked, ss_RevokeDelivered := False\<rparr>" and ?r2 = "demo_record\<lparr>ss_ID := ''s2''\<rparr>"
  have r: "terminal_state (ss_State ?r)" "ss_NodeID ?r = ''n1''" "ss_WorkspaceID ?r = ''w''" "ss_OverlayIP ?r \<noteq> []"
    by (simp_all add: demo_record_def terminal_state_def)
  have g2: "GetSession ''w'' ''s2'' (demo_ctl [?r, ?r2]) = Some ?r2"
    by (simp add: GetSession_def demo_ctl_def demo_record_def key_of_def)
  from repeated_end_frees_a_held_address [OF demo_get [where s = SessionRevoked and d = False and rs = "[?r2]"] r g2, of demo_ctl_env ?ev]
  show ?thesis by (simp add: demo_ctl_env_def demo_record_def)
qed

text \<open>
  Doorbells carry their fields.  Decoding an encoded doorbell gives back the operation, workspace,
  node, session and reason, whatever bytes the reason holds, as long as the other four do not
  contain the separator.
\<close>

theorem doorbell_roundtrip:
  assumes "principalSep \<notin> set op" and "principalSep \<notin> set ws" and "principalSep \<notin> set nodeID"
    and "principalSep \<notin> set sessionID"
  shows "decDoorbell (encDoorbell op ws nodeID sessionID reason) = (op, ws, nodeID, sessionID, reason)"
  using assms
  by (simp add: encDoorbell_def decDoorbell_def numeral_eq_Suc SplitN_sep SplitN_last pad_def Let_def)

theorem doorbell_roundtrip_witness:
  "decDoorbell (encDoorbell ''revoke'' ''w'' ''n1'' ''s1'' [principalSep, CHR ''x'']) =
     (''revoke'', ''w'', ''n1'', ''s1'', [principalSep, CHR ''x''])"
  by (rule doorbell_roundtrip) (simp_all add: principalSep_def)

end
