(* ===== verification/Enforcement.thy ===== *)
theory Enforcement
  imports Session_Authz
begin

text \<open>
  The controller's enforcement messages and the agent that obeys them, together: the controllers of
  \<open>Session_Authz\<close> that share one store, the messages they handed to control streams, and an agent of
  \<open>Agent_Gate\<close>.  The invariant bounds every epoch on the wire or at the agent by the stored one; from
  it follows that a revoke is never mistaken for a replay, and the one store fault that breaks it
  is shown at the end.
\<close>

section \<open>What the agent reads in a message\<close>

text \<open>
  The controller's signer and the agent's verifier fit together: the agent trusts the public half of
  the grant key, signatures made with the private half verify, and decoding inverts encoding.
\<close>

definition enforcement_link :: "ctl_env \<Rightarrow> crypto \<Rightarrow> agent_codec \<Rightarrow> keyset \<Rightarrow> bool" where
  "enforcement_link env c ac trusted \<longleftrightarrow>
     (\<exists>pub. trusted (en_grantKeyID env) = Some pub \<and> length pub = PublicKeySize \<and>
        (\<forall>input sig. en_grantKey env input = Some sig \<longrightarrow> ed25519_Verify c pub input sig)) \<and>
     (\<forall>e b. mc_Signed (en_codec env) e = Some b \<longrightarrow> ac_Signed ac b = Some e) \<and>
     (\<forall>p b. mc_Lease (en_codec env) p = Some b \<longrightarrow> ac_Lease ac b = Some p) \<and>
     (\<forall>p b. mc_Delta (en_codec env) p = Some b \<longrightarrow> ac_Delta ac b = Some p) \<and>
     (\<forall>p b. mc_Revoke (en_codec env) p = Some b \<longrightarrow> ac_Revoke ac b = Some p)"

definition msg_stamp :: "crypto \<Rightarrow> agent_codec \<Rightarrow> keyset \<Rightarrow> string \<Rightarrow> ControllerEnforcement \<Rightarrow> int option" where
  "msg_stamp c ac trusted sid m =
     (case m of
        CE_SessionLease l \<Rightarrow>
          (case verifyEnforcement c ac trusted (ac_Lease ac) (sl_Sig l) of
             Inl _ \<Rightarrow> None
           | Inr p \<Rightarrow> if sl_SessionId l = sid then Some (lp_Epoch p) else None)
      | CE_SessionPolicyDelta d \<Rightarrow>
          (case verifyEnforcement c ac trusted (ac_Delta ac) (sd_Sig d) of
             Inl _ \<Rightarrow> None
           | Inr p \<Rightarrow> if sd_SessionId d = sid then Some (dp_Epoch p) else None)
      | CE_SessionRevoke rv \<Rightarrow>
          (case verifyEnforcement c ac trusted (ac_Revoke ac) (sr_Sig rv) of
             Inl _ \<Rightarrow> None
           | Inr p \<Rightarrow> if sr_SessionId rv = sid then Some (rp_Epoch p) else None))"

lemma signEnvelope_verifies:
  assumes "enforcement_link env c ac trusted" and "signEnvelope env marshal p = Inr b"
    and "\<forall>p b. marshal p = Some b \<longrightarrow> u b = Some p"
  shows "verifyEnforcement c ac trusted u b = Inr p"
proof -
  from assms(2) obtain payload sig where
    m: "marshal p = Some payload" and sg: "en_grantKey env (signingInput ContextSessionPolicy payload) = Some sig"
    and len: "length sig = SignatureSize"
    and b: "mc_Signed (en_codec env) \<lparr>s_Payload = payload, s_Sig = sig, s_KeyID = en_grantKeyID env\<rparr> = Some b"
    by (auto simp: signEnvelope_def Sign_def bindE_eq_Inr split: option.splits if_splits)
  from assms(1) obtain pub where key: "trusted (en_grantKeyID env) = Some pub" "length pub = PublicKeySize"
    and v: "\<forall>input sig. en_grantKey env input = Some sig \<longrightarrow> ed25519_Verify c pub input sig"
    and d: "\<forall>e b. mc_Signed (en_codec env) e = Some b \<longrightarrow> ac_Signed ac b = Some e"
    unfolding enforcement_link_def by (elim exE conjE)
  show ?thesis
    using v [rule_format, OF sg] d [rule_format, OF b] assms(3) [rule_format, OF m]
    by (simp add: verifyEnforcement_def DecodeSigned_def Verify_def key len unmarshal_into_def)
qed

lemma signRevoke_reads:
  assumes "enforcement_link env c ac trusted" and "signRevoke env rec epoch reason = Inr rv"
  shows "sr_SessionId rv = ss_ID rec \<and> verifyEnforcement c ac trusted (ac_Revoke ac) (sr_Sig rv) =
     Inr \<lparr>rp_SessionID = ss_ID rec, rp_Epoch = epoch, rp_Reason = reason, rp_ClientNoisePub = ss_ClientNoisePub rec\<rparr>"
proof -
  from assms(2) obtain sig where "signEnvelope env (mc_Revoke (en_codec env))
      \<lparr>rp_SessionID = ss_ID rec, rp_Epoch = epoch, rp_Reason = reason, rp_ClientNoisePub = ss_ClientNoisePub rec\<rparr> = Inr sig"
    and rv: "rv = \<lparr>sr_SessionId = ss_ID rec, sr_Sig = sig\<rparr>"
    by (auto simp: signRevoke_def bindE_eq_Inr)
  moreover have "\<forall>p b. mc_Revoke (en_codec env) p = Some b \<longrightarrow> ac_Revoke ac b = Some p"
    using assms(1) by (simp add: enforcement_link_def)
  ultimately show ?thesis using signEnvelope_verifies [OF assms(1)] by simp
qed

lemma signRevoke_stamp:
  "enforcement_link env c ac trusted \<Longrightarrow> signRevoke env rec epoch reason = Inr rv \<Longrightarrow>
   msg_stamp c ac trusted sid (CE_SessionRevoke rv) = (if ss_ID rec = sid then Some epoch else None)"
  using signRevoke_reads by (fastforce simp: msg_stamp_def)

lemma signLease_stamp:
  assumes "enforcement_link env c ac trusted" and "signLease env sid' epoch expiry pub = Inr l"
  shows "msg_stamp c ac trusted sid (CE_SessionLease l) = (if sid' = sid then Some epoch else None)"
proof -
  from assms(2) obtain sig where s: "signEnvelope env (mc_Lease (en_codec env))
      \<lparr>lp_SessionID = sid', lp_Epoch = epoch, lp_ExpiryUnixMs = expiry, lp_ClientNoisePub = pub\<rparr> = Inr sig"
    and l: "l = \<lparr>sl_SessionId = sid', sl_Sig = sig\<rparr>"
    by (auto simp: signLease_def bindE_eq_Inr)
  have "\<forall>p b. mc_Lease (en_codec env) p = Some b \<longrightarrow> ac_Lease ac b = Some p"
    using assms(1) by (simp add: enforcement_link_def)
  from signEnvelope_verifies [OF assms(1) s this] show ?thesis by (simp add: msg_stamp_def l)
qed

lemma signDelta_stamp:
  assumes "enforcement_link env c ac trusted" and "signDelta env rec epoch op target caps expiry = Inr d"
  shows "msg_stamp c ac trusted sid (CE_SessionPolicyDelta d) = (if ss_ID rec = sid then Some epoch else None)"
proof -
  from assms(2) obtain sig where s: "signEnvelope env (mc_Delta (en_codec env))
      \<lparr>dp_SessionID = ss_ID rec, dp_Epoch = epoch, dp_Op = op, dp_Target = target, dp_Caps = capsToTypes caps,
       dp_LeaseExpiryUnixMs = expiry, dp_ClientNoisePub = ss_ClientNoisePub rec\<rparr> = Inr sig"
    and d: "d = \<lparr>sd_SessionId = ss_ID rec, sd_Caps = caps, sd_Sig = sig\<rparr>"
    by (auto simp: signDelta_def bindE_eq_Inr)
  have "\<forall>p b. mc_Delta (en_codec env) p = Some b \<longrightarrow> ac_Delta ac b = Some p"
    using assms(1) by (simp add: enforcement_link_def)
  from signEnvelope_verifies [OF assms(1) s this] show ?thesis by (simp add: msg_stamp_def d)
qed

section \<open>Epochs on the wire\<close>

definition epoch_at :: "string \<Rightarrow> string \<Rightarrow> ctl \<Rightarrow> int" where
  "epoch_at ws sid st = (case GetSession ws sid st of None \<Rightarrow> 0 | Some r \<Rightarrow> ss_EnforcementEpoch r)"

definition epoch_room :: "string \<Rightarrow> string \<Rightarrow> ctl \<Rightarrow> bool" where
  "epoch_room ws sid st \<longleftrightarrow> 0 \<le> epoch_at ws sid st \<and> epoch_at ws sid st < 2 ^ 63 - 1"

text \<open>No other workspace has a session of this id.\<close>

definition only_in :: "string \<Rightarrow> string \<Rightarrow> ctl \<Rightarrow> bool" where
  "only_in ws sid st \<longleftrightarrow> (\<forall>w. w \<noteq> ws \<longrightarrow> GetSession w sid st = None)"

text \<open>
  A step emits well for the session: its stored epoch does not fall, and whatever the step handed to
  an agent carries at most the epoch that is then stored.
\<close>

definition emits :: "crypto \<Rightarrow> agent_codec \<Rightarrow> keyset \<Rightarrow> string \<Rightarrow> string \<Rightarrow> ctl \<Rightarrow> ctl \<Rightarrow> bool" where
  "emits c ac trusted ws sid st st' \<longleftrightarrow>
     epoch_at ws sid st \<le> epoch_at ws sid st' \<and>
     (\<forall>n m e. (n, m) \<in> set (ct_agent_out st') \<and> (n, m) \<notin> set (ct_agent_out st) \<and>
        msg_stamp c ac trusted sid m = Some e \<longrightarrow> e \<le> epoch_at ws sid st')"

lemma emits_trans: "emits c ac t ws sid a b \<Longrightarrow> emits c ac t ws sid b d \<Longrightarrow> emits c ac t ws sid a d"
  unfolding emits_def by (meson order_trans)

lemma emits_quiet:
  "ct_sessions st' = ct_sessions st \<Longrightarrow> ct_agent_out st' = ct_agent_out st \<Longrightarrow> emits c ac t ws sid st st'"
  by (auto simp: emits_def epoch_at_def GetSession_def)

lemma out_unchanged [simp]:
  "ct_agent_out (snd (notifyGW pg g op ws n sid reason st)) = ct_agent_out st"
  "ct_agent_out (deliver_control env sid m st) = ct_agent_out st"
  "ct_agent_out (touch_signal env sid st) = ct_agent_out st"
  "ct_agent_out (release_ip ws ip st) = ct_agent_out st"
  "ct_agent_out (unregister_signal sid st) = ct_agent_out st"
  "ct_agent_out (append_audit ws typ actor n sid st) = ct_agent_out st"
  "ct_agent_out (snd (UpdateSession out ws sid f st)) = ct_agent_out st"
  by (simp_all add: notifyGW_def deliver_control_def touch_signal_def release_ip_def unregister_signal_def
        append_audit_def UpdateSession_def set_session_def split: option.splits upd_outcome.splits)

lemma nextEpoch_out [simp]: "ct_agent_out (snd (nextEpoch env ws sid st)) = ct_agent_out st"
  by (simp add: nextEpoch_snd)

text \<open>A closure that keeps the epoch, and the closure that raises it.\<close>

lemma emits_update:
  assumes "\<And>r. ss_EnforcementEpoch (f r) = ss_EnforcementEpoch r"
  shows "emits c ac t ws sid st (snd (UpdateSession out w s f st))"
proof -
  have "epoch_at ws sid (snd (UpdateSession out w s f st)) = epoch_at ws sid st"
    using assms by (auto simp: epoch_at_def UpdateSession_get split: option.splits)
  then show ?thesis by (auto simp: emits_def)
qed

lemma epoch_next:
  assumes "epoch_room ws sid st"
  shows "epoch_at ws sid st \<le> epoch_at ws sid (snd (nextEpoch env w s st))"
  using assms i64_Suc [of "epoch_at ws sid st"]
  by (auto simp: epoch_at_def epoch_room_def nextEpoch_get bump_def i64_range_def split: option.splits)

lemma emits_next: "epoch_room ws sid st \<Longrightarrow> emits c ac t ws sid st (snd (nextEpoch env w s st))"
  by (auto simp: emits_def epoch_next)

lemma next_stamp:
  assumes "epoch_room ws sid st" and "only_in ws sid st" and "en_store env BumpEpoch sid \<noteq> NotCommitted"
  shows "fst (nextEpoch env w sid st) \<le> epoch_at ws sid (snd (nextEpoch env w sid st))"
proof (cases "w = ws")
  case True
  then show ?thesis
    using assms i64_Suc [of "epoch_at ws sid st"]
    by (cases "en_store env BumpEpoch sid")
      (auto simp: nextEpoch_fst nextEpoch_get epoch_at_def epoch_room_def bump_def i64_range_def split: option.splits)
next
  case False
  then have "GetSession w sid st = None" using assms(2) by (simp add: only_in_def)
  then have "fst (nextEpoch env w sid st) = 0" by (simp add: nextEpoch_fst)
  then show ?thesis using epoch_next [OF assms(1), of env w sid] assms(1) by (simp add: epoch_room_def)
qed

text \<open>Sending a message stamped with the epoch just taken.\<close>

lemma emits_send:
  assumes "epoch_room ws sid st" and "only_in ws sid st" and "en_store env BumpEpoch sid \<noteq> NotCommitted"
    and "msg_stamp c ac t sid m = (if s = sid then Some (fst (nextEpoch env w s st)) else None)"
  shows "emits c ac t ws sid st (snd (registry_send env n m (snd (nextEpoch env w s st))))"
proof -
  let ?st = "snd (nextEpoch env w s st)"
  have "epoch_at ws sid (snd (registry_send env n m ?st)) = epoch_at ws sid ?st"
    by (simp add: epoch_at_def GetSession_def)
  moreover have "e \<le> epoch_at ws sid ?st" if "msg_stamp c ac t sid m = Some e" for e
    using that assms(4) next_stamp [OF assms(1-3), of w] by (simp split: if_splits)
  ultimately show ?thesis
    using epoch_next [OF assms(1)]
    by (auto simp: emits_def registry_send_def split: if_splits)
qed

lemma emits_sessions:
  "ct_sessions st' = ct_sessions st'' \<Longrightarrow> ct_agent_out st' = ct_agent_out st'' \<Longrightarrow>
   emits c ac t ws sid st st' = emits c ac t ws sid st st''"
  by (simp add: emits_def epoch_at_def GetSession_def)

text \<open>
  What a step needs: room in the counter, the session in one workspace only, each record under its own
  id, a signer that fits, and no epoch used without being stored.
\<close>

definition env_fits :: "crypto \<Rightarrow> agent_codec \<Rightarrow> keyset \<Rightarrow> string \<Rightarrow> ctl_env \<Rightarrow> bool" where
  "env_fits c ac t sid env \<longleftrightarrow> enforcement_link env c ac t \<and> en_store env BumpEpoch sid \<noteq> NotCommitted"

definition well_keyed :: "ctl \<Rightarrow> bool" where
  "well_keyed st \<longleftrightarrow> (\<forall>ws sid r. GetSession ws sid st = Some r \<longrightarrow> key_of r = (ws, sid))"

definition ready :: "crypto \<Rightarrow> agent_codec \<Rightarrow> keyset \<Rightarrow> string \<Rightarrow> string \<Rightarrow> ctl_env \<Rightarrow> ctl \<Rightarrow> bool" where
  "ready c ac t ws sid env st \<longleftrightarrow>
     epoch_room ws sid st \<and> only_in ws sid st \<and> well_keyed st \<and> env_fits c ac t sid env"

lemma ready_next: "ready c ac t ws sid env st \<Longrightarrow> emits c ac t ws sid st (snd (nextEpoch env w s st))"
  by (simp add: ready_def emits_next)

lemma ready_send:
  "ready c ac t ws sid env st \<Longrightarrow>
   msg_stamp c ac t sid m = (if s = sid then Some (fst (nextEpoch env w s st)) else None) \<Longrightarrow>
   emits c ac t ws sid st (snd (registry_send env n m (snd (nextEpoch env w s st))))"
  by (rule emits_send) (simp_all add: ready_def env_fits_def)

lemma ready_link: "ready c ac t ws sid env st \<Longrightarrow> enforcement_link env c ac t"
  by (simp add: ready_def env_fits_def)

lemma emits_SendRevoke_local:
  assumes "ready c ac t ws sid env st"
  shows "emits c ac t ws sid st (snd (snd (SendRevoke_local env rec reason st)))"
proof -
  let ?n = "nextEpoch env (ss_WorkspaceID rec) (ss_ID rec) st"
  show ?thesis
  proof (cases "signRevoke env rec (fst ?n) reason")
    case (Inl e)
    then show ?thesis using ready_next [OF assms] by (simp add: SendRevoke_local_def signRevokeRec_def split_beta)
  next
    case (Inr rv)
    then show ?thesis
      using ready_send [OF assms signRevoke_stamp [OF ready_link [OF assms] Inr]]
      by (simp add: SendRevoke_local_def signRevokeRec_def split_beta)
  qed
qed

lemma emits_SendRevoke:
  assumes "ready c ac t ws sid env st"
  shows "emits c ac t ws sid st (snd (snd (SendRevoke env rec reason st)))"
proof (cases "en_router env")
  case InprocRouter
  with assms show ?thesis by (simp add: SendRevoke_def emits_SendRevoke_local)
next
  case (PGRouter pg)
  have "emits c ac t ws sid st (snd (notifyGW pg g op w n s r st))" for g op w n s r
    by (rule emits_quiet) simp_all
  with PGRouter assms show ?thesis by (simp add: SendRevoke_def split_beta emits_SendRevoke_local emits_quiet)
qed

lemma commit_revoked_out [simp]: "ct_agent_out (commit_revoked env rec reason st) = ct_agent_out st"
  by (simp add: commit_revoked_def split_beta split: option.splits)

lemma cut_client_out [simp]: "ct_agent_out (cut_client env sid rv st) = ct_agent_out st"
  by (simp add: cut_client_def split: option.splits)

lemma revokeSession_out:
  assumes "open_state (ss_State rec)"
  shows "ct_agent_out (snd (revokeSession env rec reason st)) = ct_agent_out (snd (snd (SendRevoke env rec reason st)))"
proof -
  have "\<not> (ss_State rec \<noteq> SessionActive \<and> ss_State rec \<noteq> SessionDetached \<and> ss_State rec \<noteq> SessionPending)"
    using assms by (auto simp: open_state_def)
  then show ?thesis unfolding revokeSession_def by (auto simp: split_beta Let_def)
qed

lemma emits_revokeSession:
  assumes "ready c ac t ws sid env st"
  shows "emits c ac t ws sid st (snd (revokeSession env rec reason st))"
proof (cases "open_state (ss_State rec)")
  case False
  then show ?thesis by (simp add: revokeSession_closed emits_quiet)
next
  case True
  let ?s = "snd (snd (SendRevoke env rec reason st))"
  let ?u = "snd (UpdateSession (en_store env MarkRevoked (ss_ID rec)) (ss_WorkspaceID rec) (ss_ID rec) (mark_revoked env reason) ?s)"
  have "emits c ac t ws sid st ?u"
    by (rule emits_trans [OF emits_SendRevoke [OF assms] emits_update]) (simp add: mark_revoked_def)
  then show ?thesis
    using emits_sessions [OF revokeSession_sessions [OF True]] revokeSession_out [OF True] by simp
qed

lemma emits_push:
  assumes "ready c ac t ws sid env st"
    and "msg_stamp c ac t sid m = (if s = sid then Some (fst (nextEpoch env w s st)) else None)"
  shows "emits c ac t ws sid st (push_enforcement env rec m (snd (nextEpoch env w s st)))"
  by (rule emits_trans [OF ready_send [OF assms] emits_quiet]) (simp_all add: push_enforcement_def)

lemma emits_refreshLease:
  assumes "ready c ac t ws sid env st"
  shows "emits c ac t ws sid st (refreshLease env rec st)"
proof (cases "signLease env (ss_ID rec) (fst (nextEpoch env (ss_WorkspaceID rec) (ss_ID rec) st)) (leaseExpiryMs env) (ss_ClientNoisePub rec)")
  case (Inl e)
  then show ?thesis using ready_next [OF assms] by (simp add: refreshLease_def split_beta)
next
  case (Inr l)
  then show ?thesis
    using emits_push [OF assms signLease_stamp [OF ready_link [OF assms] Inr]] by (simp add: refreshLease_def split_beta)
qed

lemma emits_pushReadOnlyDelta:
  assumes "ready c ac t ws sid env st"
  shows "emits c ac t ws sid st (pushReadOnlyDelta env rec st)"
proof (cases "signDelta env rec (fst (nextEpoch env (ss_WorkspaceID rec) (ss_ID rec) st)) ''read_only'' []
    (Some (read_only_caps rec)) (leaseExpiryMs env)")
  case (Inl e)
  then show ?thesis using ready_next [OF assms] by (simp add: pushReadOnlyDelta_def split_beta)
next
  case (Inr d)
  then show ?thesis
    using emits_push [OF assms signDelta_stamp [OF ready_link [OF assms] Inr]] by (simp add: pushReadOnlyDelta_def split_beta)
qed

lemma emits_drive: "ready c ac t ws sid env st \<Longrightarrow> emits c ac t ws sid st (driveLiveSessionWith env rec look st)"
  by (simp add: driveLiveSessionWith_def emits_revokeSession emits_refreshLease emits_pushReadOnlyDelta split: reauth.splits)

lemma emits_rePush: "ready c ac t ws sid env st \<Longrightarrow> emits c ac t ws sid st (rePushRevoke env rec st)"
  by (simp add: rePushRevoke_def emits_SendRevoke)

lemma emits_doorbell:
  assumes "ready c ac t ws sid env st"
  shows "emits c ac t ws sid st (handleAgentDoorbell env pg payload st)"
proof -
  obtain op w n s reason where d: "decDoorbell payload = (op, w, n, s, reason)" by (metis prod_cases5)
  show ?thesis
  proof (cases "\<not> currentEpochMatches env pg n \<or> op \<noteq> opRevoke \<or> ct_nodeWS st n = None \<or>
      GetSession (the (ct_nodeWS st n)) s st = None")
    case True
    then show ?thesis by (auto simp: handleAgentDoorbell_def d signRevokeForRouter_def intro: emits_quiet split: option.splits)
  next
    case False
    then obtain w' r where w: "ct_nodeWS st n = Some w'" and r: "GetSession w' s st = Some r" by auto
    let ?n = "nextEpoch env w' s st"
    have h: "handleAgentDoorbell env pg payload st =
        (case signRevoke env r (fst ?n) reason of
           Inl _ \<Rightarrow> snd ?n
         | Inr rv \<Rightarrow> deliver_control env s (CE_SessionRevoke rv) (snd (registry_send env n (CE_SessionRevoke rv) (snd ?n))))"
      using False by (simp add: handleAgentDoorbell_def d signRevokeForRouter_def w r split_beta split: sum.splits)
    show ?thesis
    proof (cases "signRevoke env r (fst ?n) reason")
      case (Inl e)
      then show ?thesis using ready_next [OF assms] by (simp add: h)
    next
      case (Inr rv)
      have "ss_ID r = s" using assms r by (auto simp: ready_def well_keyed_def key_of_def)
      with signRevoke_stamp [OF ready_link [OF assms] Inr]
      have "emits c ac t ws sid st (snd (registry_send env n (CE_SessionRevoke rv) (snd ?n)))"
        by (intro ready_send [OF assms]) simp
      then have "emits c ac t ws sid st (deliver_control env s (CE_SessionRevoke rv) (snd (registry_send env n (CE_SessionRevoke rv) (snd ?n))))"
        by (rule emits_trans) (rule emits_quiet, simp_all)
      then show ?thesis by (simp add: h Inr)
    qed
  qed
qed

lemma event_epochs:
  "(\<And>r. ss_EnforcementEpoch (f r) = ss_EnforcementEpoch r) \<Longrightarrow>
   ss_EnforcementEpoch (event_update nodeID ev f r) = ss_EnforcementEpoch r"
  by (simp add: event_update_def)

lemma closure_epochs [simp]:
  "ss_EnforcementEpoch (to_state s r) = ss_EnforcementEpoch r"
  "ss_EnforcementEpoch (end_session env code r) = ss_EnforcementEpoch r"
  "ss_EnforcementEpoch (confirm_delivered r) = ss_EnforcementEpoch r"
  by (simp_all add: to_state_def end_session_def confirm_delivered_def Let_def split: option.splits)

lemma emits_node: "emits c ac t ws sid st (handleSessionEvent env w nodeID ev st)"
proof -
  have ap: "emits c ac t ws sid st (snd (apply_event env w nodeID ev f st))"
    if "\<And>r. ss_EnforcementEpoch (f r) = ss_EnforcementEpoch r" for f
    unfolding apply_event_def by (rule emits_update) (rule event_epochs [OF that])
  have eo: "ct_agent_out (event_ends env w nodeID ev code st) =
      ct_agent_out (snd (apply_event env w nodeID ev (end_session env code) st))" for code
    by (simp add: event_ends_def split_beta split: option.splits)
  have en: "emits c ac t ws sid st (event_ends env w nodeID ev code st)" for code
    unfolding emits_sessions [OF event_ends_sessions eo] by (rule ap) simp
  have co: "emits c ac t ws sid st (confirmRevokeDelivered env w (nv_SessionId ev) nodeID st)"
  proof -
    have "ct_agent_out (confirmRevokeDelivered env w (nv_SessionId ev) nodeID st) =
      ct_agent_out (snd (UpdateSession (en_store env NodeEvent (nv_SessionId ev)) w (nv_SessionId ev) confirm_delivered st))"
      by (simp add: confirmRevokeDelivered_def Let_def)
    from emits_sessions [OF confirm_sessions this] show ?thesis using emits_update [of confirm_delivered] by simp
  qed
  have au: "emits c ac t ws sid st (append_audit a b d n s x) \<longleftrightarrow> emits c ac t ws sid st x" for a b d n s x
    by (rule emits_sessions) simp_all
  show ?thesis by (simp add: handleSessionEvent_def Let_def au ap en co emits_quiet)
qed

section \<open>Keys of the store\<close>

definition same_keys :: "ctl \<Rightarrow> ctl \<Rightarrow> bool" where
  "same_keys st st' \<longleftrightarrow> map fst (ct_sessions st') = map fst (ct_sessions st)"

lemma same_keys_get: "same_keys st st' \<Longrightarrow> GetSession ws sid st' = None \<longleftrightarrow> GetSession ws sid st = None"
  by (simp add: same_keys_def GetSession_def map_of_eq_None_iff flip: set_map)

lemma same_keys_rest: "same_rest st st' \<Longrightarrow> same_keys st st'"
  by (simp add: same_rest_def same_keys_def)

lemma same_keys_cong: "ct_sessions st' = ct_sessions st'' \<Longrightarrow> same_keys st st' = same_keys st st''"
  by (simp add: same_keys_def)

lemma same_keys_update: "same_keys st (snd (UpdateSession out ws sid f st))"
  by (rule same_keys_rest) (rule same_rest_update)

lemma same_keys_doorbell: "same_keys st (handleAgentDoorbell env pg payload st)"
proof -
  obtain ws sid where "ct_sessions (handleAgentDoorbell env pg payload st) = ct_sessions st \<or>
     ct_sessions (handleAgentDoorbell env pg payload st) = ct_sessions (snd (nextEpoch env ws sid st))"
    using doorbell_sessions by blast
  then show ?thesis
    using nextEpoch_rest [of st env ws sid] by (auto simp: same_keys_def same_rest_def)
qed

lemma same_keys_node: "same_keys st (handleSessionEvent env ws nodeID ev st)"
proof -
  have ap: "same_keys st (snd (apply_event env ws nodeID ev f st))" for f
    unfolding apply_event_def by (rule same_keys_update)
  have en: "same_keys st (event_ends env ws nodeID ev code st)" for code
    unfolding same_keys_cong [OF event_ends_sessions] by (rule ap)
  have co: "same_keys st (confirmRevokeDelivered env ws (nv_SessionId ev) nodeID st)"
    unfolding same_keys_cong [OF confirm_sessions] by (rule same_keys_update)
  have au: "same_keys st (append_audit w t a n s x) \<longleftrightarrow> same_keys st x" for w t a n s x
    by (rule same_keys_cong) simp
  have "same_keys st st" by (simp add: same_keys_def)
  then show ?thesis by (simp add: handleSessionEvent_def Let_def au ap en co)
qed

fun creates :: "authz_event \<Rightarrow> bool" where
  "creates (AxCreate ws rec) = True"
| "creates _ = False"

lemma same_keys_refl: "same_keys st st"
  by (simp add: same_keys_def)

lemma same_keys_rows: "same_keys st (st\<lparr>ct_suspensions := x\<rparr>)" "same_keys st (st\<lparr>ct_nodes := y\<rparr>)"
  by (simp_all add: same_keys_def)

lemma same_keys_step: "\<not> creates ev \<Longrightarrow> same_keys st (authz_step st ev)"
  by (cases ev)
    (simp_all add: same_keys_rest drive_rest rePush_rest revokeSession_rest lease_delta_rest same_keys_doorbell
      same_keys_node sweep_one_def redeliver_one_def fanout_one_def driveLiveSession_def same_keys_refl same_keys_rows
      SuspendPrincipal_def LiftSuspension_def)

lemma creates_iff: "creates ev \<longleftrightarrow> (\<exists>ws rec. ev = AxCreate ws rec)"
  by (cases ev) simp_all

lemma get_put:
  "GetSession ws (ss_ID rec) st = None \<Longrightarrow>
   GetSession w s (PutSession ws rec st) =
     (if w = ws \<and> s = ss_ID rec then Some (rec\<lparr>ss_WorkspaceID := ws\<rparr>) else GetSession w s st)"
  by (auto simp: GetSession_def PutSession_def Let_def map_add_def split: option.splits)

lemma well_keyed_step: "well_keyed st \<Longrightarrow> well_keyed (authz_step st ev)"
proof (cases "creates ev")
  case True
  then obtain ws rec where ev: "ev = AxCreate ws rec" by (auto simp: creates_iff)
  assume "well_keyed st"
  then show ?thesis
    by (cases "GetSession ws (ss_ID rec) st = None") (auto simp: ev well_keyed_def get_put key_of_def)
next
  case False
  assume wk: "well_keyed st"
  show ?thesis
    unfolding well_keyed_def
  proof (intro allI impI)
    fix ws sid r'
    assume g: "GetSession ws sid (authz_step st ev) = Some r'"
    from same_keys_get [OF same_keys_step [OF False], of ws sid st] g
    obtain r where r: "GetSession ws sid st = Some r" by auto
    from keeps_step [of st ev, unfolded keeps_def, rule_format, OF r] g
    have "fixed_part r' = fixed_part r" by (auto simp: evolves_def)
    with wk r show "key_of r' = (ws, sid)" by (auto simp: well_keyed_def fixed_part_def)
  qed
qed

section \<open>Controller and agent together\<close>

text \<open>
  The controllers sharing the store, the messages they handed to control streams, and one agent.  A
  message may be delivered any number of times, in any order, or never.
\<close>

record linked =
  lk_ctl :: ctl
  lk_agent :: agent

datatype link_event = LkCtl authz_event | LkDeliver nat | LkAgent agent_event

definition agent_receive :: "crypto \<Rightarrow> agent_codec \<Rightarrow> keyset \<Rightarrow> ControllerEnforcement \<Rightarrow> agent \<Rightarrow> agent" where
  "agent_receive c ac trusted m a =
     (case m of
        CE_SessionLease l \<Rightarrow> applyLease c ac trusted l a
      | CE_SessionPolicyDelta d \<Rightarrow> applyDelta c ac trusted d a
      | CE_SessionRevoke rv \<Rightarrow> applyRevoke c ac trusted rv a)"

fun link_step :: "crypto \<Rightarrow> agent_codec \<Rightarrow> keyset \<Rightarrow> linked \<Rightarrow> link_event \<Rightarrow> linked" where
  "link_step c ac t l (LkCtl ev) = l\<lparr>lk_ctl := authz_step (lk_ctl l) ev\<rparr>"
| "link_step c ac t l (LkDeliver i) =
     (if i < length (ct_agent_out (lk_ctl l))
      then l\<lparr>lk_agent := agent_receive c ac t (snd (ct_agent_out (lk_ctl l) ! i)) (lk_agent l)\<rparr> else l)"
| "link_step c ac t l (LkAgent ev) = l\<lparr>lk_agent := agent_step c ac t (lk_agent l) ev\<rparr>"

fun event_env :: "authz_event \<Rightarrow> ctl_env option" where
  "event_env (AxSweep env idx rec) = Some env"
| "event_env (AxRedeliver env nodeID rec) = Some env"
| "event_env (AxFanout env ws provider subject rec) = Some env"
| "event_env (AxRevoke env rec reason) = Some env"
| "event_env (AxLease env rec) = Some env"
| "event_env (AxDoorbell env pg payload) = Some env"
| "event_env (AxNode env ws nodeID ev) = Some env"
| "event_env _ = None"

text \<open>
  The events of a history: every controller's signer fits the agent and stores the epochs it uses, a
  session is created with its counter at zero and its id is not used in a second workspace, and
  the agent's own events are not enforcement messages from elsewhere.
\<close>

fun link_event_ok :: "crypto \<Rightarrow> agent_codec \<Rightarrow> keyset \<Rightarrow> string \<Rightarrow> string \<Rightarrow> link_event \<Rightarrow> bool" where
  "link_event_ok c ac t ws sid (LkCtl ev) \<longleftrightarrow>
     (case event_env ev of None \<Rightarrow> True | Some env \<Rightarrow> env_fits c ac t sid env) \<and>
     (case ev of AxCreate w rec \<Rightarrow> ss_ID rec = sid \<longrightarrow> w = ws \<and> ss_EnforcementEpoch rec = 0 | _ \<Rightarrow> True)"
| "link_event_ok c ac t ws sid (LkDeliver i) \<longleftrightarrow> True"
| "link_event_ok c ac t ws sid (LkAgent ev) \<longleftrightarrow>
     (case ev of EvLease _ \<Rightarrow> False | EvDelta _ \<Rightarrow> False | EvRevoke _ \<Rightarrow> False | _ \<Rightarrow> True)"

definition epochs_bounded :: "crypto \<Rightarrow> agent_codec \<Rightarrow> keyset \<Rightarrow> string \<Rightarrow> string \<Rightarrow> linked \<Rightarrow> bool" where
  "epochs_bounded c ac t ws sid l \<longleftrightarrow>
     0 \<le> epoch_at ws sid (lk_ctl l) \<and> only_in ws sid (lk_ctl l) \<and> well_keyed (lk_ctl l) \<and>
     (\<forall>n m e. (n, m) \<in> set (ct_agent_out (lk_ctl l)) \<and> msg_stamp c ac t sid m = Some e \<longrightarrow>
        e \<le> epoch_at ws sid (lk_ctl l)) \<and>
     (\<forall>ls. ag_live (lk_agent l) sid = Some ls \<longrightarrow> ls_epoch ls \<le> epoch_at ws sid (lk_ctl l))"

lemma emits_create:
  assumes "link_event_ok c ac t ws sid (LkCtl (AxCreate w rec))"
  shows "emits c ac t ws sid st (authz_step st (AxCreate w rec))"
proof (cases "GetSession w (ss_ID rec) st")
  case None
  have "ct_agent_out (PutSession w rec st) = ct_agent_out st" by (simp add: PutSession_def Let_def)
  moreover have "epoch_at ws sid st \<le> epoch_at ws sid (PutSession w rec st)"
  proof (cases "w = ws \<and> ss_ID rec = sid")
    case True
    then show ?thesis using assms None by (simp add: epoch_at_def get_put)
  next
    case False
    then show ?thesis using None by (auto simp: epoch_at_def get_put)
  qed
  ultimately show ?thesis using None by (auto simp: emits_def)
next
  case (Some r)
  then show ?thesis by (simp add: emits_quiet)
qed

lemma emits_step:
  assumes "epoch_room ws sid st" and "only_in ws sid st" and "well_keyed st" and ok: "link_event_ok c ac t ws sid (LkCtl ev)"
  shows "emits c ac t ws sid st (authz_step st ev)"
proof -
  have r: "ready c ac t ws sid env st" if "event_env ev = Some env" for env
    using assms that by (simp add: ready_def)
  show ?thesis
  proof (cases ev)
    case (AxSweep env idx rec)
    with r [of env] show ?thesis by (simp add: sweep_one_def emits_drive emits_rePush emits_quiet)
  next
    case (AxRedeliver env n rec)
    with r [of env] show ?thesis by (simp add: redeliver_one_def driveLiveSession_def emits_drive emits_rePush emits_quiet)
  next
    case (AxFanout env w p s rec)
    with r [of env] show ?thesis by (simp add: fanout_one_def emits_revokeSession emits_rePush emits_quiet)
  next
    case (AxCreate w rec)
    with ok show ?thesis using emits_create by blast
  qed (use r in \<open>simp_all add: emits_revokeSession emits_refreshLease emits_doorbell emits_node SuspendPrincipal_def
        LiftSuspension_def emits_quiet\<close>)
qed

lemma only_in_step:
  assumes "only_in ws sid st" and "link_event_ok c ac t ws sid (LkCtl ev)"
  shows "only_in ws sid (authz_step st ev)"
proof (cases "creates ev")
  case True
  then obtain w rec where "ev = AxCreate w rec" by (auto simp: creates_iff)
  with assms show ?thesis by (auto simp: only_in_def get_put)
next
  case False
  from same_keys_get [OF same_keys_step [OF False]] assms(1) show ?thesis by (simp add: only_in_def)
qed

text \<open>A received message leaves the agent's epoch where it was or at the message's stamp.\<close>

lemma lease_epoch:
  "ag_live (applyLease c ac t l a) sid = Some ls' \<Longrightarrow>
   (\<exists>ls. ag_live a sid = Some ls \<and> (ls_epoch ls' = ls_epoch ls \<or>
      msg_stamp c ac t sid (CE_SessionLease l) = Some (ls_epoch ls')))"
  by (auto simp: applyLease_def msg_stamp_def ag_live_upd_live lease_session_def rearmLocked_def split: sum.splits if_splits)

lemma revoke_epoch: "ag_live (applyRevoke c ac t rv a) sid = Some ls' \<Longrightarrow> ag_live a sid = Some ls'"
  by (auto simp: applyRevoke_def Let_def split: sum.splits if_splits option.splits)

lemma delta_epoch:
  assumes "ag_live (applyDelta c ac t d a) sid = Some ls'"
  shows "\<exists>ls. ag_live a sid = Some ls \<and> (ls_epoch ls' = ls_epoch ls \<or>
      msg_stamp c ac t sid (CE_SessionPolicyDelta d) = Some (ls_epoch ls'))"
  using assms
  by (auto simp: applyDelta_def Let_def msg_stamp_def ag_live_upd_live delta_commit_def tearForwards_def tearWrites_def
        rearmLocked_def ag_live_setHostCaps split: sum.splits if_splits option.splits)

lemma receive_epoch:
  assumes "ag_live (agent_receive c ac t m a) sid = Some ls'"
  shows "\<exists>ls. ag_live a sid = Some ls \<and> (ls_epoch ls' = ls_epoch ls \<or> msg_stamp c ac t sid m = Some (ls_epoch ls'))"
proof (cases m)
  case (CE_SessionLease l)
  with assms show ?thesis by (simp add: agent_receive_def lease_epoch)
next
  case (CE_SessionPolicyDelta d)
  with assms show ?thesis by (simp add: agent_receive_def delta_epoch)
next
  case (CE_SessionRevoke rv)
  with assms show ?thesis by (auto simp: agent_receive_def dest: revoke_epoch)
qed

lemma agent_epoch:
  assumes "link_event_ok c ac t ws sid (LkAgent ev)" and "ag_live (agent_step c ac t a ev) sid = Some ls'"
  shows "ls_epoch ls' = 0 \<or> (\<exists>ls. ag_live a sid = Some ls \<and> ls_epoch ls' = ls_epoch ls)"
  using assms
  by (cases ev)
    (auto simp: registerLive_def armLeaseTimer_def ag_live_upd_live rearmLocked_def unregisterLive_def onLeaseExpired_def
      trackSplice_def untrackSplice_def setSftpCancel_def clearSftpCancel_def split: if_splits option.splits)

lemma epochs_bounded_step:
  assumes "epochs_bounded c ac t ws sid l" and "epoch_at ws sid (lk_ctl l) < 2 ^ 63 - 1" and "link_event_ok c ac t ws sid ev"
  shows "epochs_bounded c ac t ws sid (link_step c ac t l ev)"
proof (cases ev)
  case (LkCtl e)
  note b = assms(1) [unfolded epochs_bounded_def]
  have em: "emits c ac t ws sid (lk_ctl l) (authz_step (lk_ctl l) e)"
    using b assms(2,3) by (intro emits_step) (simp_all add: epoch_room_def LkCtl)
  have "only_in ws sid (authz_step (lk_ctl l) e)" "well_keyed (authz_step (lk_ctl l) e)"
    using b only_in_step assms(3) LkCtl well_keyed_step by blast+
  with b em show ?thesis
    unfolding epochs_bounded_def emits_def LkCtl by simp (meson order_trans)
next
  case (LkDeliver i)
  show ?thesis
  proof (cases "i < length (ct_agent_out (lk_ctl l))")
    case True
    obtain n m where nm: "ct_agent_out (lk_ctl l) ! i = (n, m)" by fastforce
    with True have "(n, m) \<in> set (ct_agent_out (lk_ctl l))" by (metis nth_mem)
    with assms(1) True nm show ?thesis
      by (auto simp: epochs_bounded_def LkDeliver dest!: receive_epoch)
  qed (use assms(1) in \<open>simp add: LkDeliver\<close>)
next
  case (LkAgent e)
  with assms(3) have ok: "link_event_ok c ac t ws sid (LkAgent e)" by (simp only:)
  show ?thesis using assms(1) agent_epoch [OF ok, of "lk_agent l"] by (fastforce simp: epochs_bounded_def LkAgent)
qed

lemma epochs_bounded_run:
  assumes "epochs_bounded c ac t ws sid l" and "\<forall>ev \<in> set evs. link_event_ok c ac t ws sid ev"
    and "\<forall>k < length evs. epoch_at ws sid (lk_ctl (foldl (link_step c ac t) l (take k evs))) < 2 ^ 63 - 1"
  shows "epochs_bounded c ac t ws sid (foldl (link_step c ac t) l evs)"
  using assms
proof (induction evs rule: rev_induct)
  case (snoc ev evs)
  then have "epochs_bounded c ac t ws sid (foldl (link_step c ac t) l evs)" by simp
  moreover have "epoch_at ws sid (lk_ctl (foldl (link_step c ac t) l evs)) < 2 ^ 63 - 1"
    using snoc.prems(3) [rule_format, of "length evs"] by simp
  ultimately show ?case using snoc.prems(2) by (simp add: epochs_bounded_step)
qed simp

section \<open>A revoke, from the record to the agent\<close>

text \<open>What a controller that holds the node's stream hands to it: the message stamped with the next epoch.\<close>

lemma SendRevoke_hands_over:
  assumes "en_router env = InprocRouter" and "en_online env (ss_NodeID rec)" and "en_send env (ss_NodeID rec)"
    and "GetSession (ss_WorkspaceID rec) (ss_ID rec) st = Some r" and "i64_range (ss_EnforcementEpoch r)"
    and "ss_EnforcementEpoch r \<noteq> 2 ^ 63 - 1" and "en_store env BumpEpoch (ss_ID rec) \<noteq> NotRead"
    and "signRevoke env rec (ss_EnforcementEpoch r + 1) reason = Inr rv"
  shows "(ss_NodeID rec, CE_SessionRevoke rv) \<in> set (ct_agent_out (snd (snd (SendRevoke env rec reason st))))"
proof -
  have "fst (nextEpoch env (ss_WorkspaceID rec) (ss_ID rec) st) = ss_EnforcementEpoch r + 1"
    using assms(4-7) i64_Suc by (simp add: nextEpoch_fst)
  then show ?thesis
    using assms by (simp add: SendRevoke_def SendRevoke_local_def signRevokeRec_def split_beta registry_send_def)
qed

lemma agent_obeys_revoke:
  assumes "enforcement_link env c ac t" and "signRevoke env rec e reason = Inr rv"
    and "ag_live a (ss_ID rec) = Some ls" and "ls_clientNoisePub ls = ss_ClientNoisePub rec"
  shows "agent_receive c ac t (CE_SessionRevoke rv) a =
     (if e \<le> ls_epoch ls then a else revokeLive (ss_ID rec) reason a)"
  using signRevoke_reads [OF assms(1,2)] assms(3,4) by (simp add: agent_receive_def applyRevoke_def)

lemma agent_obeys_lease:
  assumes "enforcement_link env c ac t" and "signLease env sid e expiry pub = Inr l"
    and "ag_live a sid = Some ls" and "ls_clientNoisePub ls = pub" and "ls_epoch ls < e"
  shows "ag_live (agent_receive c ac t (CE_SessionLease l) a) sid = Some (rearmLocked expiry (ls\<lparr>ls_epoch := e\<rparr>))"
proof -
  from assms(2) obtain sig where s: "signEnvelope env (mc_Lease (en_codec env))
      \<lparr>lp_SessionID = sid, lp_Epoch = e, lp_ExpiryUnixMs = expiry, lp_ClientNoisePub = pub\<rparr> = Inr sig"
    and l: "l = \<lparr>sl_SessionId = sid, sl_Sig = sig\<rparr>"
    by (auto simp: signLease_def bindE_eq_Inr)
  have "\<forall>p b. mc_Lease (en_codec env) p = Some b \<longrightarrow> ac_Lease ac b = Some p"
    using assms(1) by (simp add: enforcement_link_def)
  from signEnvelope_verifies [OF assms(1) s this] show ?thesis
    using assms(3-5) by (simp add: agent_receive_def applyLease_def l ag_live_upd_live lease_session_def)
qed

section \<open>Example\<close>

definition link_env :: ctl_env where
  "link_env = demo_ctl_env\<lparr>en_codec :=
     \<lparr>mc_Signed = (\<lambda>e. if s_Sig e = replicate 64 CHR ''x'' \<and> s_KeyID e = ''k'' then Some (s_Payload e) else None),
      mc_Grant = (\<lambda>_. None),
      mc_Lease = (\<lambda>p. if p = \<lparr>lp_SessionID = ''s1'', lp_Epoch = 1, lp_ExpiryUnixMs = leaseExpiryMs demo_ctl_env,
                              lp_ClientNoisePub = replicate 32 CHR ''c''\<rparr> then Some ''l'' else None),
      mc_Delta = (\<lambda>_. None),
      mc_Revoke = (\<lambda>p. if rp_SessionID p = ''s1'' \<and> rp_ClientNoisePub p = replicate 32 CHR ''c'' \<and> rp_Reason p = ''bye'' \<and>
                          (rp_Epoch p = 1 \<or> rp_Epoch p = 2)
                       then Some (if rp_Epoch p = 1 then ''1'' else ''2'') else None)\<rparr>\<rparr>"

definition link_codec :: agent_codec where
  "link_codec = gate_codec
     \<lparr>ac_Lease := (\<lambda>_. Some \<lparr>lp_SessionID = ''s1'', lp_Epoch = 1, lp_ExpiryUnixMs = leaseExpiryMs demo_ctl_env,
                              lp_ClientNoisePub = replicate 32 CHR ''c''\<rparr>),
      ac_Revoke := (\<lambda>b. Some \<lparr>rp_SessionID = ''s1'', rp_Epoch = (if b = ''1'' then 1 else 2), rp_Reason = ''bye'',
                               rp_ClientNoisePub = replicate 32 CHR ''c''\<rparr>)\<rparr>"

definition link_start :: linked where
  "link_start = \<lparr>lk_ctl = demo_ctl [demo_record],
     lk_agent = demo_agent\<lparr>ag_live := [''s1'' \<mapsto> demo_session\<lparr>ls_epoch := 0\<rparr>]\<rparr>\<rparr>"

lemma link_demo: "enforcement_link link_env gate_crypto link_codec gate_keys"
  by (simp add: enforcement_link_def link_env_def demo_ctl_env_def gate_keys_def gate_crypto_def link_codec_def
      gate_codec_def)

lemma link_fits: "env_fits gate_crypto link_codec gate_keys sid link_env"
  by (simp add: env_fits_def link_demo) (simp add: link_env_def demo_ctl_env_def)

lemma demo_GetSession:
  "GetSession w s (demo_ctl [demo_record]) = (if w = ''w'' \<and> s = ''s1'' then Some demo_record else None)"
  by (simp add: GetSession_def demo_ctl_def demo_record_def key_of_def)

lemma link_start_bounded: "epochs_bounded gate_crypto link_codec gate_keys ''w'' ''s1'' link_start"
  by (simp add: epochs_bounded_def link_start_def epoch_at_def only_in_def well_keyed_def demo_GetSession)
    (simp add: demo_ctl_def demo_record_def key_of_def)

lemma demo_signs:
  "e = 1 \<or> e = 2 \<Longrightarrow> signRevoke link_env (demo_record\<lparr>ss_EnforcementEpoch := x\<rparr>) e ''bye'' =
     Inr \<lparr>sr_SessionId = ''s1'', sr_Sig = (if e = 1 then ''1'' else ''2'')\<rparr>"
  by (simp add: signRevoke_def signEnvelope_def Sign_def link_env_def demo_ctl_env_def demo_record_def bindE_def)

section \<open>Properties\<close>


lemma link_lease_state:
  "GetSession ''w'' ''s1'' (refreshLease link_env demo_record (demo_ctl [demo_record])) =
     Some (demo_record\<lparr>ss_EnforcementEpoch := 1\<rparr>)"
  by (simp add: lease_delta_get nextEpoch_get demo_GetSession)
    (simp add: bump_def i64_def demo_record_def link_env_def demo_ctl_env_def)


text \<open>
  An epoch handed out but not stored makes the next revoke a replay.  \<open>nextEpoch\<close> drops the error of
  the store and uses the epoch its closure computed.  If that write failed to commit, a lease
  carries the epoch to the agent, the next revoke is stamped with the same number, and the agent
  ignores it although the controller records the session as revoked.
\<close>

theorem uncommitted_epoch_loses_a_revoke:
  assumes "GetSession ws sid st = Some r" and "key_of r = (ws, sid)" and "i64_range (ss_EnforcementEpoch r)"
    and "ss_EnforcementEpoch r \<noteq> 2 ^ 63 - 1"
    and "en_store env1 BumpEpoch sid = NotCommitted" and "en_store env2 BumpEpoch sid = Committed"
    and "enforcement_link env1 c ac t" and "enforcement_link env2 c ac t"
    and "signLease env1 sid (fst (nextEpoch env1 ws sid st)) (leaseExpiryMs env1) (ss_ClientNoisePub r) = Inr lease"
    and "fst (signRevokeRec env2 r reason (refreshLease env1 r st)) = Inr rv"
    and "ag_live a sid = Some ls" and "ls_clientNoisePub ls = ss_ClientNoisePub r" and "ls_epoch ls \<le> ss_EnforcementEpoch r"
    and a1: "a1 = agent_receive c ac t (CE_SessionLease lease) a"
  shows "agent_receive c ac t (CE_SessionRevoke rv) a1 = a1 \<and> ag_live a1 sid \<noteq> None"
proof -
  have key: "ss_WorkspaceID r = ws" "ss_ID r = sid" using assms(2) by (simp_all add: key_of_def)
  have e1: "fst (nextEpoch env1 ws sid st) = ss_EnforcementEpoch r + 1"
    using assms(1,3-5) i64_Suc by (simp add: nextEpoch_fst)
  have "GetSession ws sid (refreshLease env1 r st) = Some r"
    using assms(1,5) by (simp add: lease_delta_get nextEpoch_get key)
  then have rv: "signRevoke env2 r (ss_EnforcementEpoch r + 1) reason = Inr rv"
    using assms(3,4,6,10) i64_Suc nextEpoch_fst [of env2 ws sid "refreshLease env1 r st"]
    by (simp add: signRevokeRec_def split_beta key)
  have "ls_epoch ls < ss_EnforcementEpoch r + 1" using assms(13) by simp
  from agent_obeys_lease [OF assms(7) assms(9) [unfolded e1] assms(11,12) this]
  show ?thesis
    using agent_obeys_revoke [OF assms(8) rv, of a1] unfolding a1 key by (simp add: rearmLocked_def assms(12))
qed

theorem uncommitted_epoch_loses_a_revoke_witness:
  "ag_live (agent_receive gate_crypto link_codec gate_keys (CE_SessionRevoke \<lparr>sr_SessionId = ''s1'', sr_Sig = ''1''\<rparr>)
     (agent_receive gate_crypto link_codec gate_keys (CE_SessionLease \<lparr>sl_SessionId = ''s1'', sl_Sig = ''l''\<rparr>)
        (lk_agent link_start))) ''s1'' \<noteq> None"
proof -
  let ?env = "link_env\<lparr>en_store := (\<lambda>_ _. NotCommitted)\<rparr>" and ?st = "demo_ctl [demo_record]"
  have link: "enforcement_link ?env gate_crypto link_codec gate_keys"
    using link_demo by (simp add: enforcement_link_def)
  have e: "fst (nextEpoch ?env ''w'' ''s1'' ?st) = 1"
    by (simp add: nextEpoch_fst demo_GetSession) (simp add: demo_record_def i64_def)
  have lease: "signLease ?env ''s1'' 1 (leaseExpiryMs ?env) (ss_ClientNoisePub demo_record) =
      Inr \<lparr>sl_SessionId = ''s1'', sl_Sig = ''l''\<rparr>"
    by (simp add: signLease_def signEnvelope_def Sign_def link_env_def demo_ctl_env_def demo_record_def
        bindE_def leaseExpiryMs_def)
  have g: "GetSession ''w'' ''s1'' ?st = Some demo_record" by (simp add: demo_GetSession)
  have "GetSession ''w'' ''s1'' (refreshLease ?env demo_record ?st) = Some demo_record"
    by (simp add: lease_delta_get nextEpoch_get demo_GetSession)
  moreover have rec: "key_of demo_record = (''w'', ''s1'')" "ss_EnforcementEpoch demo_record = 0" "ss_ID demo_record = ''s1''"
    "ss_WorkspaceID demo_record = ''w''" by (simp_all add: demo_record_def key_of_def)
  moreover have env2: "en_store link_env BumpEpoch ''s1'' = Committed" by (simp add: link_env_def demo_ctl_env_def)
  ultimately have rv: "fst (signRevokeRec link_env demo_record ''bye'' (refreshLease ?env demo_record ?st)) =
      Inr \<lparr>sr_SessionId = ''s1'', sr_Sig = ''1''\<rparr>"
    using demo_signs [of 1 0] by (simp add: signRevokeRec_def split_beta nextEpoch_fst i64_def) (simp add: demo_record_def)
  from uncommitted_epoch_loses_a_revoke [OF g rec(1) _ _ _ env2 link link_demo _ rv _ _ _ refl,
      of "\<lparr>sl_SessionId = ''s1'', sl_Sig = ''l''\<rparr>" "lk_agent link_start" "demo_session\<lparr>ls_epoch := 0\<rparr>"]
  show ?thesis using lease e
    by (simp add: rec i64_range_def) (simp add: link_start_def demo_session_def demo_record_def)
qed

end
