(* ===== verification/Session_Broker.thy ===== *)
theory Session_Broker
  imports Enforcement
begin

text \<open>
  The broker: \<open>internal/controller/broker.go\<close>, the step that turns a request of an authenticated user
  into a signed grant and an offer to an agent, and \<open>internal/types/service.go\<close>.

  The state is the controller state of \<open>Session_Authz\<close>.  The environment \<open>broker_env\<close> of a call holds
  the broker's configuration, what the agent directory and the random source return, and the outcome
  of the offer.  While the broker waits for the agent's answer other handlers run; \<open>bk_others\<close> is what
  they do to the state.  An error is the gRPC status code the caller gets; a denial is audited first.
  TURN credentials and the text of the messages are left out.
\<close>

section \<open>Services\<close>

record Service =
  sv_Name :: string
  sv_Kind :: string
  sv_Addr :: string
  sv_NodeID :: string
  sv_Labels :: "string \<rightharpoonup> string"

definition KindShell :: string where "KindShell = ''shell''"
definition KindExec :: string where "KindExec = ''exec''"
definition KindSFTP :: string where "KindSFTP = ''sftp''"
definition KindSubnet :: string where "KindSubnet = ''subnet-route''"
definition KindExitNode :: string where "KindExitNode = ''exit-node''"

lemmas kind_defs = KindShell_def KindExec_def KindSFTP_def KindSubnet_def KindExitNode_def

definition Service_Action :: "Service \<Rightarrow> string" where
  "Service_Action s =
     (if sv_Kind s = KindShell then ActionShell
      else if sv_Kind s = KindExec then ActionExec
      else if sv_Kind s = KindSFTP then ActionSFTP
      else if sv_Kind s = KindSubnet \<or> sv_Kind s = KindExitNode then ActionVPN
      else ActionForward)"

definition host_service :: "string \<Rightarrow> string \<Rightarrow> string \<Rightarrow> Service" where
  "host_service name kind nodeID =
     \<lparr>sv_Name = name, sv_Kind = kind, sv_Addr = [], sv_NodeID = nodeID, sv_Labels = Map.empty\<rparr>"

definition implicitServices :: "string \<Rightarrow> Service list" where
  "implicitServices nodeID =
     [host_service ''shell'' KindShell nodeID, host_service ''exec'' KindExec nodeID,
      host_service ''sftp'' KindSFTP nodeID]"

section \<open>Requests, answers, environment\<close>

record CreateSessionRequest =
  rq_Node :: string
  rq_Action :: string
  rq_Command :: string
  rq_WantPty :: bool
  rq_WantDetachable :: bool
  rq_AttachSessionId :: string
  rq_ForwardTarget :: string
  rq_ClientNoisePub :: bytes
  rq_Service :: string
  rq_HomeRegion :: string

record CreateSessionResponse =
  re_SignedGrant :: bytes
  re_RelayAddr :: string
  re_RelayFloor :: "string list"
  re_RelayToken :: string
  re_AgentNoisePub :: bytes
  re_SessionId :: string
  re_RelayCandidates :: "RelayCandidate list"
  re_PresentRequired :: bool
  re_HeartbeatIntervalMillis :: int
  re_PresenceChallenge :: bytes

datatype answer = Redirected string "string list" | Granted CreateSessionResponse

datatype code = CNotFound | CInternal | CInvalidArgument | CPermissionDenied | CFailedPrecondition
  | CUnavailable | CResourceExhausted | Panicked

datatype offer_outcome = OfferNotSent | OfferRefused | OfferAccepted

record p2p_hook =
  hk_SessionP2P :: bool
  hk_candidates :: "string \<Rightarrow> string \<Rightarrow> string \<Rightarrow> RelayCandidate list" \<comment> \<open>session, client region, agent region\<close>

record broker_env =
  bk_nodeRead :: bool \<comment> \<open>node reads succeed\<close>
  bk_sessionRead :: bool \<comment> \<open>session reads succeed\<close>
  bk_services :: "string \<Rightarrow> Service list option" \<comment> \<open>of the agents connected here\<close>
  bk_advertised :: "string \<Rightarrow> string \<Rightarrow> Service list" \<comment> \<open>the durable directory\<close>
  bk_relayAddrs :: "string list"
  bk_relayFloor :: "string list option"
  bk_grantTTL :: duration
  bk_defaultMaxTTL :: duration
  bk_hook :: "p2p_hook option"
  bk_presenceHeartbeat :: duration
  bk_controllerID :: string
  bk_clusterControllers :: "ControllerEndpoint list option"
  bk_affinity :: "string \<rightharpoonup> string \<times> int"
  bk_sessionID :: "string option"
  bk_relayToken :: "string option"
  bk_challenge :: bytes
  bk_validCIDR :: "string \<Rightarrow> bool"
  bk_offer :: offer_outcome
  bk_others :: "ctl \<Rightarrow> ctl"

type_synonym 'a outcome = "(code + 'a) \<times> ctl"

section \<open>Resolution\<close>

datatype find_error = ErrNotFound | ErrOther

definition FindNode :: "bool \<Rightarrow> string \<Rightarrow> string \<Rightarrow> ctl \<Rightarrow> find_error + NodeRecord" where
  "FindNode readable ws idOrName st =
     (if \<not> readable then Inl ErrOther
      else case GetNode ws idOrName st of
          Some n \<Rightarrow> Inr n
        | None \<Rightarrow>
            (case filter (\<lambda>n. nr_Name n = idOrName) (map snd (filter (\<lambda>e. fst (fst e) = ws) (ct_nodes st))) of
               [] \<Rightarrow> Inl ErrNotFound
             | [n] \<Rightarrow> Inr n
             | _ \<Rightarrow> Inl ErrOther))"

definition find_code :: "find_error \<Rightarrow> code" where
  "find_code e = (case e of ErrNotFound \<Rightarrow> CNotFound | ErrOther \<Rightarrow> CInternal)"

definition resolveService :: "broker_env \<Rightarrow> string \<Rightarrow> string \<Rightarrow> ctl \<Rightarrow> Service option" where
  "resolveService bk nodeID name st =
     (case find (\<lambda>s. sv_Name s = name) (implicitServices nodeID) of
        Some s \<Rightarrow> Some s
      | None \<Rightarrow>
          let adv = (case bk_services bk nodeID of
                       Some a \<Rightarrow> a
                     | None \<Rightarrow> (case ct_nodeWS st nodeID of None \<Rightarrow> [] | Some ws \<Rightarrow> bk_advertised bk ws nodeID))
          in find (\<lambda>s. sv_Name s = name) adv)"

definition floorAddrs :: "broker_env \<Rightarrow> string list" where
  "floorAddrs bk =
     (case bk_relayFloor bk of
        Some live \<Rightarrow> if live \<noteq> [] then live else bk_relayAddrs bk
      | None \<Rightarrow> bk_relayAddrs bk)"

definition redirectFor :: "broker_env \<Rightarrow> string \<Rightarrow> answer option" where
  "redirectFor bk nodeID =
     (case bk_clusterControllers bk of
        None \<Rightarrow> None
      | Some gws \<Rightarrow>
          if gws = [] then None
          else case bk_affinity bk nodeID of
              None \<Rightarrow> None
            | Some (owner, _) \<Rightarrow>
                if owner = [] \<or> owner = bk_controllerID bk then None
                else map_option (\<lambda>gw. Redirected owner (ce_Addrs gw))
                       (find (\<lambda>gw. ce_ControllerID gw = owner \<and> ce_Addrs gw \<noteq> []) gws))"

text \<open>\<open>strconv.Atoi\<close>: an optional sign and decimal digits, within the range of \<open>int\<close>.\<close>

definition all_digits :: "string \<Rightarrow> bool" where
  "all_digits s \<longleftrightarrow> s \<noteq> [] \<and> (\<forall>c \<in> set s. 48 \<le> (of_char c :: nat) \<and> (of_char c :: nat) < 58)"

definition Atoi :: "string \<Rightarrow> int option" where
  "Atoi s =
     (let digits = (if s \<noteq> [] \<and> (hd s = CHR ''+'' \<or> hd s = CHR ''-'') then tl s else s);
          v = (if s \<noteq> [] \<and> hd s = CHR ''-'' then - int (decimal_value digits) else int (decimal_value digits))
      in if all_digits digits \<and> i64_range v then Some v else None)"

definition validForwardTarget :: "string \<Rightarrow> bool" where
  "validForwardTarget t =
     (case SplitHostPort t of
        None \<Rightarrow> False
      | Some (host, port) \<Rightarrow>
          if host = [] then False
          else case Atoi port of None \<Rightarrow> False | Some p \<Rightarrow> \<not> (p < 1 \<or> p > 65535))"

text \<open>The locals of \<open>createSession\<close> once the service of the request is resolved.\<close>

record target =
  tg_node :: "NodeRecord option"
  tg_action :: string
  tg_forwardTarget :: string
  tg_svcName :: string
  tg_svcKind :: string
  tg_svcLabels :: "string \<rightharpoonup> string"
  tg_routes :: "string list"

definition service_target :: "string \<Rightarrow> NodeRecord \<Rightarrow> Service \<Rightarrow> target" where
  "service_target forwardTarget node svc =
     \<lparr>tg_node = Some node, tg_action = Service_Action svc,
      tg_forwardTarget =
        (if sv_Kind svc \<in> {KindSubnet, KindExitNode, KindShell, KindExec, KindSFTP} then forwardTarget else sv_Addr svc),
      tg_svcName = sv_Name svc, tg_svcKind = sv_Kind svc, tg_svcLabels = sv_Labels svc,
      tg_routes =
        (if sv_Kind svc = KindSubnet then [sv_Addr svc]
         else if sv_Kind svc = KindExitNode then [''0.0.0.0/0''] else [])\<rparr>"

definition resolve_target :: "broker_env \<Rightarrow> Identity \<Rightarrow> CreateSessionRequest \<Rightarrow> ctl \<Rightarrow> code + target" where
  "resolve_target bk ident req st =
     (if rq_Service req \<noteq> [] \<or> rq_Action req = ''connect'' \<or> rq_Action req = ActionVPN then
        bindE (mapE find_code (FindNode (bk_nodeRead bk) (id_Workspace ident) (rq_Node req) st)) (\<lambda>node.
        (case resolveService bk (nr_ID node) (rq_Service req) st of
           None \<Rightarrow> Inl CNotFound
         | Some svc \<Rightarrow> Inr (service_target (rq_ForwardTarget req) node svc)))
      else Inr \<lparr>tg_node = None, tg_action = rq_Action req, tg_forwardTarget = rq_ForwardTarget req, tg_svcName = [],
                tg_svcKind = [], tg_svcLabels = Map.empty, tg_routes = []\<rparr>)"

definition check_shape :: "CreateSessionRequest \<Rightarrow> target \<Rightarrow> code + unit" where
  "check_shape req t =
     (if tg_action t \<notin> {ActionShell, ActionExec, ActionSFTP, ActionForward, ActionAttach, ActionVPN} then Inl CInvalidArgument
      else if tg_action t = ActionExec \<and> rq_Command req = [] then Inl CInvalidArgument
      else if tg_action t = ActionForward \<and> \<not> validForwardTarget (tg_forwardTarget t) then Inl CInvalidArgument
      else if tg_action t = ActionVPN \<and> tg_routes t = [] then Inl CInvalidArgument
      else if tg_action t = ActionAttach \<and> rq_AttachSessionId req = [] then Inl CInvalidArgument
      else if length (rq_ClientNoisePub req) \<noteq> 32 then Inl CInvalidArgument
      else Inr ())"

definition resolveAttach ::
    "broker_env \<Rightarrow> string \<Rightarrow> string \<Rightarrow> CreateSessionRequest \<Rightarrow> ctl \<Rightarrow> (SessionRecord \<times> NodeRecord) option" where
  "resolveAttach bk ws user req st =
     (case (if bk_sessionRead bk then GetSession ws (rq_AttachSessionId req) st else None) of
        None \<Rightarrow> None
      | Some rec \<Rightarrow>
          if ss_User rec \<noteq> user then None
          else if ss_HostSessionID rec = [] then None
          else if ss_State rec \<noteq> SessionActive \<and> ss_State rec \<noteq> SessionDetached then None
          else case (if bk_nodeRead bk then GetNode ws (ss_NodeID rec) st else None) of
              None \<Rightarrow> None
            | Some node \<Rightarrow>
                if rq_Node req \<noteq> [] then
                  (case FindNode (bk_nodeRead bk) ws (rq_Node req) st of
                     Inl _ \<Rightarrow> None
                   | Inr named \<Rightarrow> if nr_ID named \<noteq> nr_ID node then None else Some (rec, node))
                else Some (rec, node))"

definition deny :: "ctl_env \<Rightarrow> string \<Rightarrow> string \<Rightarrow> code \<Rightarrow> ctl \<Rightarrow> 'a outcome" where
  "deny env user nodeID denyErr st =
     (if en_audit env then (Inl denyErr, append_audit [] ''session_request'' user nodeID [] st) else (Inl CInternal, st))"

section \<open>Minting\<close>

definition broker_input :: "ctl_env \<Rightarrow> Identity \<Rightarrow> NodeRecord \<Rightarrow> target \<Rightarrow> string \<Rightarrow> Input" where
  "broker_input env ident node t clientPath =
     \<lparr>in_User = id_Name ident, in_Groups = [], in_Roles = id_Roles ident, in_NodeID = nr_ID node, in_NodeName = nr_Name node,
      in_NodeLabels = nr_Labels node, in_Action = tg_action t, in_ClientPath = clientPath, in_Service = tg_svcName t,
      in_ServiceKind = tg_svcKind t, in_ServiceLabels = tg_svcLabels t, in_Now = en_now env\<rparr>"

definition session_ttl :: "broker_env \<Rightarrow> Decision \<Rightarrow> duration" where
  "session_ttl bk d =
     (if d_MaxSessionTTL d > 0 \<and> d_MaxSessionTTL d < bk_defaultMaxTTL bk then d_MaxSessionTTL d else bk_defaultMaxTTL bk)"

definition p2p_path :: "broker_env \<Rightarrow> string \<Rightarrow> bool" where
  "p2p_path bk clientPath \<longleftrightarrow> bk_hook bk \<noteq> None \<and> PathSupportsICE clientPath"

definition selectRelayCandidates :: "p2p_hook \<Rightarrow> string \<Rightarrow> string \<Rightarrow> string \<Rightarrow> RelayCandidate list" where
  "selectRelayCandidates h sid clientRegion agentRegion =
     (if \<not> hk_SessionP2P h then [] else hk_candidates h sid clientRegion agentRegion)"

definition candidates :: "broker_env \<Rightarrow> string \<Rightarrow> string \<Rightarrow> string \<Rightarrow> string \<Rightarrow> RelayCandidate list" where
  "candidates bk clientPath sid clientRegion agentRegion =
     (case bk_hook bk of
        Some h \<Rightarrow> if PathSupportsICE clientPath then selectRelayCandidates h sid clientRegion agentRegion else []
      | None \<Rightarrow> [])"

definition make_grant ::
    "ctl_env \<Rightarrow> broker_env \<Rightarrow> Identity \<Rightarrow> CreateSessionRequest \<Rightarrow> string \<Rightarrow> target \<Rightarrow> NodeRecord \<Rightarrow> SessionRecord option \<Rightarrow>
     Decision \<Rightarrow> string \<Rightarrow> string \<Rightarrow> string \<Rightarrow> SessionGrant" where
  "make_grant env bk ident req clientPath t node attach d sid token overlayIP =
     \<lparr>g_V = 1, g_ID = sid, g_User = id_Name ident, g_Roles = id_Roles ident, g_WorkspaceID = id_Workspace ident,
      g_NetworkVNI = unat (vniForWorkspace (id_Workspace ident)), g_NodeID = nr_ID node, g_Action = tg_action t,
      g_Command = rq_Command req, g_AttachID = (case attach of None \<Rightarrow> [] | Some rec \<Rightarrow> ss_HostSessionID rec),
      g_AllowPTY = rq_WantPty req, g_AllowDetach = (rq_WantDetachable req \<and> d_AllowDetach d),
      g_ForwardTarget = tg_forwardTarget t, g_ClientNoisePub = rq_ClientNoisePub req, g_AgentNoisePub = nr_NoisePub node,
      g_RelayAddr = hd (floorAddrs bk), g_RelayFloor = floorAddrs bk, g_RelayToken = token,
      g_RelayCandidates = candidates bk clientPath sid (rq_HomeRegion req) (nr_Region node), g_ClientPath = clientPath,
      g_IssuedAt = en_now env, g_ExpiresAt = en_now env + bk_grantTTL bk, g_MaxSessionTTL = session_ttl bk d,
      g_Record = (d_Record d \<and> tg_action t \<noteq> ActionVPN), g_Service = tg_svcName t, g_ServiceKind = tg_svcKind t,
      g_Routes = tg_routes t, g_OverlayIP = overlayIP\<rparr>"

definition signGrant :: "ctl_env \<Rightarrow> SessionGrant \<Rightarrow> env_error + bytes" where
  "signGrant env g =
     bindE (Sign (en_grantKey env) (en_grantKeyID env) ContextGrant (mc_Grant (en_codec env)) g) (\<lambda>e.
     (case mc_Signed (en_codec env) e of None \<Rightarrow> Inl ErrMarshal | Some b \<Rightarrow> Inr b))"

definition session_record ::
    "ctl_env \<Rightarrow> broker_env \<Rightarrow> Identity \<Rightarrow> target \<Rightarrow> NodeRecord \<Rightarrow> Decision \<Rightarrow> SessionGrant \<Rightarrow> bytes \<Rightarrow> SessionRecord" where
  "session_record env bk ident t node d g signedBytes =
     \<lparr>ss_WorkspaceID = [], ss_ID = g_ID g, ss_User = id_Name ident, ss_Provider = id_Provider ident,
      ss_Subject = id_Subject ident, ss_NodeID = nr_ID node, ss_NodeName = nr_Name node, ss_Action = tg_action t,
      ss_State = SessionPending, ss_HostSessionID = g_AttachID g, ss_StartedUnix = Time_Unix (en_now env),
      ss_EndedUnix = 0, ss_ExitCode = 0, ss_Detachable = g_AllowDetach g, ss_Roles = id_Roles ident,
      ss_Service = g_Service g, ss_ServiceKind = g_ServiceKind g, ss_ServiceLabels = tg_svcLabels t,
      ss_ClientPath = g_ClientPath g, ss_OverlayIP = g_OverlayIP g, ss_ClientNoisePub = g_ClientNoisePub g,
      ss_GrantAllowPTY = g_AllowPTY g,
      ss_GrantForwardTargets = (if g_ForwardTarget g \<noteq> [] then [g_ForwardTarget g] else []),
      ss_EnforcementEpoch = 0, ss_RehomeEpoch = 0, ss_GrantScope = signedBytes, ss_RevokeReason = [],
      ss_RevokeDelivered = False, ss_RequirePresence = d_RequirePresence d,
      ss_LastPresenceUnix = (if d_RequirePresence d then Time_Unix (en_now env) else 0), ss_LastPresenceCounter = 0,
      ss_PresenceChallenge = (if d_RequirePresence d then bk_challenge bk else []), ss_PrevPresenceChallenge = [],
      ss_PrevChallengeUnix = 0\<rparr>"

text \<open>The deferred hand-back of the overlay address.\<close>

definition hand_back :: "string \<Rightarrow> string \<Rightarrow> ctl \<Rightarrow> ctl" where
  "hand_back ws ip st = (if ip \<noteq> [] then release_ip ws ip st else st)"

definition take_address :: "string \<Rightarrow> string \<Rightarrow> ctl \<Rightarrow> string option \<times> ctl" where
  "take_address action ws st =
     (if action \<noteq> ActionVPN then (Some [], st)
      else case alloc (ct_pool st ws) of (ip, pool) \<Rightarrow> (ip, st\<lparr>ct_pool := (ct_pool st)(ws := pool)\<rparr>))"

definition setupSession :: "ctl_env \<Rightarrow> broker_env \<Rightarrow> Identity \<Rightarrow> string \<Rightarrow> SessionGrant \<Rightarrow> ctl \<Rightarrow> ctl" where
  "setupSession env bk ident clientPath g st =
     (case bk_hook bk of
        Some h \<Rightarrow>
          if PathSupportsICE clientPath \<and> hk_SessionP2P h then
            st\<lparr>ct_signals := register (en_now env) (g_ID g) (id_Workspace ident) (g_NodeID g) True (id_Name ident)
                 (id_Subject ident) (id_Provider ident) (ct_signals st)\<rparr>
          else st
      | None \<Rightarrow> st)"

definition send_offer :: "broker_env \<Rightarrow> string \<Rightarrow> string \<Rightarrow> bytes \<Rightarrow> ctl \<Rightarrow> ctl" where
  "send_offer bk nodeID sid signedBytes st =
     bk_others bk (if bk_offer bk = OfferNotSent then st
                   else st\<lparr>ct_offers := ct_offers st @ [(nodeID, sid, signedBytes)]\<rparr>)"

definition mark_rejected :: "ctl_env \<Rightarrow> SessionRecord \<Rightarrow> SessionRecord" where
  "mark_rejected env r = r\<lparr>ss_State := SessionEnded, ss_EndedUnix := Time_Unix (en_now env)\<rparr>"

definition reject_session :: "ctl_env \<Rightarrow> broker_env \<Rightarrow> string \<Rightarrow> string \<Rightarrow> ctl \<Rightarrow> ctl" where
  "reject_session env bk ws sid st =
     snd (UpdateSession (en_store env EndRejected sid) ws sid (mark_rejected env)
            (if bk_hook bk \<noteq> None then unregister_signal sid st else st))"

definition response :: "broker_env \<Rightarrow> Decision \<Rightarrow> SessionGrant \<Rightarrow> bytes \<Rightarrow> CreateSessionResponse" where
  "response bk d g signedBytes =
     \<lparr>re_SignedGrant = signedBytes, re_RelayAddr = g_RelayAddr g, re_RelayFloor = g_RelayFloor g,
      re_RelayToken = g_RelayToken g, re_AgentNoisePub = g_AgentNoisePub g, re_SessionId = g_ID g,
      re_RelayCandidates = g_RelayCandidates g, re_PresentRequired = d_RequirePresence d,
      re_HeartbeatIntervalMillis = (if d_RequirePresence d then bk_presenceHeartbeat bk div millisecond else 0),
      re_PresenceChallenge = (if d_RequirePresence d then bk_challenge bk else [])\<rparr>"

text \<open>From the stored record on: offer, wait, and either the rejection path or the audit and the first lease.\<close>

definition offer_session ::
    "ctl_env \<Rightarrow> broker_env \<Rightarrow> Identity \<Rightarrow> string \<Rightarrow> target \<Rightarrow> NodeRecord \<Rightarrow> Decision \<Rightarrow> SessionGrant \<Rightarrow> bytes \<Rightarrow> ctl \<Rightarrow>
     answer outcome" where
  "offer_session env bk ident clientPath t node d g signedBytes st =
     (let ws = id_Workspace ident;
          rec = (session_record env bk ident t node d g signedBytes)\<lparr>ss_WorkspaceID := ws\<rparr>;
          st1 = setupSession env bk ident clientPath g (PutSession ws rec st);
          st2 = send_offer bk (nr_ID node) (g_ID g) signedBytes st1
      in if bk_offer bk \<noteq> OfferAccepted then
           (case deny env (id_Name ident) (nr_ID node) CUnavailable (reject_session env bk ws (g_ID g) st2) of
              (res, st3) \<Rightarrow> (res, hand_back ws (g_OverlayIP g) st3))
         else if \<not> en_audit env then (Inl CInternal, st2)
         else
           let st3 = append_audit ws ''session_request'' (id_Name ident) (nr_ID node) (g_ID g) st2
           in (Inr (Granted (response bk d g signedBytes)), if bk_hook bk \<noteq> None then refreshLease env rec st3 else st3))"

definition mint_session ::
    "ctl_env \<Rightarrow> broker_env \<Rightarrow> Identity \<Rightarrow> CreateSessionRequest \<Rightarrow> string \<Rightarrow> target \<Rightarrow> NodeRecord \<Rightarrow> SessionRecord option \<Rightarrow>
     Decision \<Rightarrow> ctl \<Rightarrow> answer outcome" where
  "mint_session env bk ident req clientPath t node attach d st =
     (case (bk_sessionID bk, bk_relayToken bk) of
        (None, _) \<Rightarrow> (Inl CInternal, st)
      | (_, None) \<Rightarrow> (Inl CInternal, st)
      | (Some sid, Some token) \<Rightarrow>
          let ws = id_Workspace ident in
          if tg_action t = ActionVPN \<and> (\<exists>c \<in> set (tg_routes t). \<not> bk_validCIDR bk c) then (Inl CInvalidArgument, st)
          else
            (case take_address (tg_action t) ws st of
               (None, st1) \<Rightarrow> (Inl CResourceExhausted, st1)
             | (Some ip, st1) \<Rightarrow>
                 if floorAddrs bk = [] then (Inl Panicked, hand_back ws ip st1)
                 else
                   let g = make_grant env bk ident req clientPath t node attach d sid token ip in
                   (case signGrant env g of
                      Inl _ \<Rightarrow> (Inl CInternal, hand_back ws ip st1)
                    | Inr signedBytes \<Rightarrow>
                        if en_store env PutRecord sid \<noteq> Committed then (Inl CInternal, hand_back ws ip st1)
                        else offer_session env bk ident clientPath t node d g signedBytes st1)))"

definition admit ::
    "ctl_env \<Rightarrow> broker_env \<Rightarrow> Identity \<Rightarrow> CreateSessionRequest \<Rightarrow> string \<Rightarrow> target \<Rightarrow> NodeRecord \<Rightarrow> SessionRecord option \<Rightarrow>
     ctl \<Rightarrow> answer outcome" where
  "admit env bk ident req clientPath t node attach st =
     (if \<not> nr_Approved node then deny env (id_Name ident) (nr_ID node) CFailedPrecondition st
      else if IsSuspended env (id_Workspace ident) (id_Provider ident) (id_Subject ident) st
      then deny env (id_Name ident) (nr_ID node) CPermissionDenied st
      else if \<not> en_online env (nr_ID node) then
        (case redirectFor bk (nr_ID node) of Some red \<Rightarrow> (Inr red, st) | None \<Rightarrow> (Inl CUnavailable, st))
      else
        let d = policy_decision env (id_Workspace ident) (broker_input env ident node t clientPath) in
        if \<not> d_Allow d then deny env (id_Name ident) (nr_ID node) CPermissionDenied st
        else if rq_WantDetachable req \<and> \<not> d_AllowDetach d then deny env (id_Name ident) (nr_ID node) CPermissionDenied st
        else if clientPath = PathWeb \<and> d_RequirePresence d then deny env (id_Name ident) (nr_ID node) CPermissionDenied st
        else mint_session env bk ident req clientPath t node attach d st)"

definition createSession ::
    "ctl_env \<Rightarrow> broker_env \<Rightarrow> Identity \<Rightarrow> CreateSessionRequest \<Rightarrow> string \<Rightarrow> ctl \<Rightarrow> answer outcome" where
  "createSession env bk ident req clientPath st =
     (case resolve_target bk ident req st of
        Inl c \<Rightarrow> (Inl c, st)
      | Inr t \<Rightarrow>
          (case check_shape req t of
             Inl c \<Rightarrow> (Inl c, st)
           | Inr _ \<Rightarrow>
               if tg_action t = ActionAttach then
                 (case resolveAttach bk (id_Workspace ident) (id_Name ident) req st of
                    None \<Rightarrow> deny env (id_Name ident) [] CPermissionDenied st
                  | Some (rec, node) \<Rightarrow> admit env bk ident req clientPath t node (Some rec) st)
               else
                 (case tg_node t of
                    Some node \<Rightarrow> admit env bk ident req clientPath t node None st
                  | None \<Rightarrow>
                      (case FindNode (bk_nodeRead bk) (id_Workspace ident) (rq_Node req) st of
                         Inl e \<Rightarrow> (Inl (find_code e), st)
                       | Inr node \<Rightarrow> admit env bk ident req clientPath t node None st))))"

definition CreateSession :: "ctl_env \<Rightarrow> broker_env \<Rightarrow> Identity \<Rightarrow> CreateSessionRequest \<Rightarrow> ctl \<Rightarrow> answer outcome" where
  "CreateSession env bk ident req st = createSession env bk ident req PathNative st"

definition CreateSessionWeb :: "ctl_env \<Rightarrow> broker_env \<Rightarrow> Identity \<Rightarrow> CreateSessionRequest \<Rightarrow> ctl \<Rightarrow> answer outcome" where
  "CreateSessionWeb env bk ident req st = createSession env bk ident req PathWeb st"

section \<open>Re-issue\<close>

definition excludeRelayAddr :: "string list \<Rightarrow> string \<Rightarrow> string list" where
  "excludeRelayAddr floor dead =
     (if dead = [] then floor
      else let out = filter (\<lambda>a. a \<noteq> dead) floor in if out = [] then floor else out)"

definition excludeRelayCandidate :: "RelayCandidate list \<Rightarrow> string \<Rightarrow> RelayCandidate list" where
  "excludeRelayCandidate cands deadID = (if deadID = [] then cands else filter (\<lambda>c. rc_RelayID c \<noteq> deadID) cands)"

record ReissuedGrant =
  rg_Epoch :: int
  rg_SignedGrant :: bytes
  rg_Grant :: SessionGrant

definition rehome_bump :: "int \<Rightarrow> SessionRecord \<Rightarrow> SessionRecord" where
  "rehome_bump appliedEpoch r =
     (if appliedEpoch < ss_RehomeEpoch r then r else r\<lparr>ss_RehomeEpoch := i64 (ss_RehomeEpoch r + 1)\<rparr>)"

definition rehomed_grant ::
    "ctl_env \<Rightarrow> broker_env \<Rightarrow> SessionRecord \<Rightarrow> NodeRecord \<Rightarrow> string list \<Rightarrow> string \<Rightarrow> string \<Rightarrow> SessionGrant \<Rightarrow> SessionGrant" where
  "rehomed_grant env bk rec node floor token deadRelayID orig =
     (let g = orig\<lparr>g_AgentNoisePub := nr_NoisePub node, g_RelayAddr := hd floor, g_RelayFloor := floor,
                   g_RelayToken := token, g_IssuedAt := en_now env, g_ExpiresAt := en_now env + bk_grantTTL bk,
                   g_RelayCandidates :=
                     (case bk_hook bk of
                        Some h \<Rightarrow>
                          if PathSupportsICE (ss_ClientPath rec)
                          then excludeRelayCandidate (selectRelayCandidates h (ss_ID rec) [] (nr_Region node)) deadRelayID
                          else []
                      | None \<Rightarrow> [])\<rparr>
      in if ss_Detachable rec \<and> ss_HostSessionID rec \<noteq> [] \<and> g_Action orig = ActionShell
         then g\<lparr>g_Action := ActionAttach, g_AttachID := ss_HostSessionID rec\<rparr> else g)"

definition ReissueGrant ::
    "ctl_env \<Rightarrow> broker_env \<Rightarrow> agent_codec \<Rightarrow> string \<Rightarrow> string \<Rightarrow> string \<Rightarrow> string \<Rightarrow> int \<Rightarrow> ctl \<Rightarrow> ReissuedGrant option \<times> ctl" where
  "ReissueGrant env bk ac ws sessionID deadRelayID deadRelayAddr appliedEpoch st =
     (case (if bk_sessionRead bk then GetSession ws sessionID st else None) of
        None \<Rightarrow> (None, st)
      | Some rec \<Rightarrow>
          if ss_State rec \<noteq> SessionActive \<and> ss_State rec \<noteq> SessionDetached then (None, st)
          else if ss_GrantScope rec = [] then (None, st)
          else
            (case map_option s_Payload (ac_Signed ac (ss_GrantScope rec)) of
               None \<Rightarrow> (None, st)
             | Some payload \<Rightarrow>
                 (case ac_Grant ac payload of
                    None \<Rightarrow> (None, st)
                  | Some orig \<Rightarrow>
                      (case (if bk_nodeRead bk then GetNode ws (ss_NodeID rec) st else None) of
                         None \<Rightarrow> (None, st)
                       | Some node \<Rightarrow>
                           if length (nr_NoisePub node) \<noteq> 32 then (None, st)
                           else if en_store env BumpRehome sessionID \<noteq> Committed then (None, st)
                           else
                             (case UpdateSession Committed ws sessionID (rehome_bump appliedEpoch) st of
                                (None, st1) \<Rightarrow> (None, st1)
                              | (Some r, st1) \<Rightarrow>
                                  (case bk_relayToken bk of
                                     None \<Rightarrow> (None, st1)
                                   | Some token \<Rightarrow>
                                       let floor = excludeRelayAddr (floorAddrs bk) deadRelayAddr in
                                       if floor = [] then (None, st1)
                                       else
                                         let g = rehomed_grant env bk rec node floor token deadRelayID orig in
                                         (case signGrant env g of
                                            Inl _ \<Rightarrow> (None, st1)
                                          | Inr signedBytes \<Rightarrow>
                                              (Some \<lparr>rg_Epoch = ss_RehomeEpoch r, rg_SignedGrant = signedBytes, rg_Grant = g\<rparr>, st1))))))))"

section \<open>Address hand-back\<close>

lemma alloc_loop_used:
  "alloc_loop n a = (r, a') \<Longrightarrow>
   (case r of None \<Rightarrow> oa_used a' = oa_used a
    | Some ip \<Rightarrow> ip \<noteq> [] \<and> ip \<notin> oa_used a \<and> oa_used a' = insert ip (oa_used a))"
proof (induction n arbitrary: a)
  case (Suc n)
  let ?a1 = "a\<lparr>oa_next := if oa_next a + 1 > overlayClientLast then overlayClientFirst else oa_next a + 1\<rparr>"
  show ?case
  proof (cases "overlay_addr (oa_next a) \<in> oa_used a")
    case True
    then have "alloc_loop n ?a1 = (r, a')" using Suc.prems by (simp add: Let_def)
    from Suc.IH [OF this] show ?thesis by (cases r) simp_all
  next
    case False
    then have "r = Some (overlay_addr (oa_next a))" "a' = ?a1\<lparr>oa_used := insert (overlay_addr (oa_next a)) (oa_used a)\<rparr>"
      using Suc.prems by (simp_all add: Let_def)
    then show ?thesis using False by (simp add: overlay_addr_def)
  qed
qed simp

lemma alloc_used:
  "alloc a = (None, a') \<Longrightarrow> oa_used a' = oa_used a"
  "alloc a = (Some ip, a') \<Longrightarrow> ip \<noteq> [] \<and> ip \<notin> oa_used a \<and> oa_used a' = insert ip (oa_used a)"
  unfolding alloc_def by (drule alloc_loop_used, simp)+

text \<open>What a failed request leaves alone: sessions, offers, signalling, messages, and the addresses in use.\<close>

definition untouched :: "ctl \<Rightarrow> ctl \<Rightarrow> bool" where
  "untouched st st' \<longleftrightarrow>
     ct_sessions st' = ct_sessions st \<and> ct_offers st' = ct_offers st \<and> ct_signals st' = ct_signals st \<and>
     ct_agent_out st' = ct_agent_out st \<and> (\<forall>w. oa_used (ct_pool st' w) = oa_used (ct_pool st w))"

lemma untouched_refl [simp]: "untouched st st"
  by (simp add: untouched_def)

lemma untouched_deny: "untouched st (snd (deny env user n c st))"
  by (simp add: deny_def append_audit_def untouched_def)

lemma deny_Inl: "fst (deny env user n c st) \<noteq> Inr x"
  by (simp add: deny_def)

lemma take_address_None:
  assumes "take_address a ws st = (None, st1)"
  shows "untouched st st1"
proof -
  obtain r p where p: "alloc (ct_pool st ws) = (r, p)" by fastforce
  with assms have "r = None" "st1 = st\<lparr>ct_pool := (ct_pool st)(ws := p)\<rparr>"
    by (simp_all add: take_address_def split: if_splits)
  with p alloc_used(1) [of "ct_pool st ws" p] show ?thesis by (simp add: untouched_def)
qed

lemma take_address_Some:
  assumes "take_address a ws st = (Some ip, st1)"
  shows "\<exists>p. st1 = st\<lparr>ct_pool := p\<rparr>" and "untouched st (hand_back ws ip st1)"
    and "a \<noteq> ActionVPN \<longleftrightarrow> ip = []"
proof -
  obtain r p where p: "alloc (ct_pool st ws) = (r, p)" by fastforce
  have "(\<exists>p. st1 = st\<lparr>ct_pool := p\<rparr>) \<and> untouched st (hand_back ws ip st1) \<and> (a \<noteq> ActionVPN \<longleftrightarrow> ip = [])"
  proof (cases "a = ActionVPN")
    case True
    with assms p have "r = Some ip" and st1: "st1 = st\<lparr>ct_pool := (ct_pool st)(ws := p)\<rparr>"
      by (simp_all add: take_address_def)
    with p alloc_used(2) have u: "ip \<noteq> []" "ip \<notin> oa_used (ct_pool st ws)" "oa_used p = insert ip (oa_used (ct_pool st ws))"
      by blast+
    then have "untouched st (hand_back ws ip st1)"
      by (simp add: st1 hand_back_def release_ip_def release_def untouched_def)
    with True st1 u(1) show ?thesis by blast
  next
    case False
    with assms have "ip = []" "st1 = st" by (simp_all add: take_address_def)
    moreover have "st = st\<lparr>ct_pool := ct_pool st\<rparr>" by simp
    ultimately show ?thesis using False unfolding hand_back_def by (metis untouched_refl)
  qed
  then show "\<exists>p. st1 = st\<lparr>ct_pool := p\<rparr>" and "untouched st (hand_back ws ip st1)" and "a \<noteq> ActionVPN \<longleftrightarrow> ip = []"
    by blast+
qed

section \<open>When something is minted\<close>

definition node_of :: "string \<Rightarrow> NodeRecord \<Rightarrow> ctl \<Rightarrow> bool" where
  "node_of ws node st \<longleftrightarrow> (\<exists>k. ((ws, k), node) \<in> set (ct_nodes st))"

lemma GetNode_node_of: "GetNode ws n st = Some node \<Longrightarrow> node_of ws node st"
  by (auto simp: GetNode_def node_of_def dest: map_of_SomeD)

lemma FindNode_node_of:
  assumes "FindNode r ws x st = Inr node"
  shows "node_of ws node st"
proof (cases "GetNode ws x st")
  case None
  let ?l = "filter (\<lambda>n. nr_Name n = x) (map snd (filter (\<lambda>e. fst (fst e) = ws) (ct_nodes st)))"
  have "?l = [node]" using assms None by (auto simp: FindNode_def split: if_splits list.splits)
  then have "node \<in> set ?l" by simp
  then show ?thesis by (auto simp: node_of_def)
next
  case (Some n)
  with assms show ?thesis by (auto simp: FindNode_def split: if_splits dest: GetNode_node_of)
qed

lemma resolve_target_node:
  assumes "resolve_target bk ident req st = Inr t" and "tg_node t = Some node"
  shows "node_of (id_Workspace ident) node st"
proof (cases "rq_Service req \<noteq> [] \<or> rq_Action req = ''connect'' \<or> rq_Action req = ActionVPN")
  case True
  with assms(1) obtain n svc where "FindNode (bk_nodeRead bk) (id_Workspace ident) (rq_Node req) st = Inr n"
    "t = service_target (rq_ForwardTarget req) n svc"
    by (auto simp: resolve_target_def bindE_eq_Inr mapE_eq_Inr split: option.splits)
  with assms(2) show ?thesis by (auto simp: service_target_def dest: FindNode_node_of)
next
  case False
  with assms show ?thesis by (auto simp: resolve_target_def)
qed

definition attach_ok :: "Identity \<Rightarrow> CreateSessionRequest \<Rightarrow> ctl \<Rightarrow> SessionRecord option \<Rightarrow> NodeRecord \<Rightarrow> bool" where
  "attach_ok ident req st attach node \<longleftrightarrow>
     (\<exists>rec. attach = Some rec \<and> GetSession (id_Workspace ident) (rq_AttachSessionId req) st = Some rec \<and>
        ss_User rec = id_Name ident \<and> ss_HostSessionID rec \<noteq> [] \<and> live_state (ss_State rec) \<and>
        GetNode (id_Workspace ident) (ss_NodeID rec) st = Some node)"

lemma resolveAttach_ok:
  assumes "resolveAttach bk (id_Workspace ident) (id_Name ident) req st = Some (rec, node)"
  shows "attach_ok ident req st (Some rec) node"
proof -
  from assms obtain r where r: "GetSession (id_Workspace ident) (rq_AttachSessionId req) st = Some r" "bk_sessionRead bk"
    by (cases "bk_sessionRead bk"; cases "GetSession (id_Workspace ident) (rq_AttachSessionId req) st")
      (simp_all add: resolveAttach_def)
  with assms have g: "ss_User r = id_Name ident" "ss_HostSessionID r \<noteq> []" "live_state (ss_State r)"
    by (simp_all add: resolveAttach_def live_state_def split: if_splits)
  from assms r obtain n where n: "GetNode (id_Workspace ident) (ss_NodeID r) st = Some n" "bk_nodeRead bk"
    by (cases "bk_nodeRead bk"; cases "GetNode (id_Workspace ident) (ss_NodeID r) st")
      (simp_all add: resolveAttach_def split: if_splits)
  with assms r have "r = rec" "n = node"
    by (simp_all add: resolveAttach_def split: if_splits sum.splits)
  with r g n show ?thesis by (simp add: attach_ok_def)
qed

definition gates ::
    "ctl_env \<Rightarrow> Identity \<Rightarrow> CreateSessionRequest \<Rightarrow> string \<Rightarrow> target \<Rightarrow> NodeRecord \<Rightarrow> Decision \<Rightarrow> ctl \<Rightarrow> bool" where
  "gates env ident req clientPath t node d st \<longleftrightarrow>
     nr_Approved node \<and> \<not> IsSuspended env (id_Workspace ident) (id_Provider ident) (id_Subject ident) st \<and>
     en_online env (nr_ID node) \<and>
     d = policy_decision env (id_Workspace ident) (broker_input env ident node t clientPath) \<and> d_Allow d \<and>
     (rq_WantDetachable req \<longrightarrow> d_AllowDetach d) \<and> (clientPath = PathWeb \<longrightarrow> \<not> d_RequirePresence d)"

text \<open>Everything that holds once \<open>createSession\<close> reaches the offer.\<close>

definition admitted ::
    "ctl_env \<Rightarrow> broker_env \<Rightarrow> Identity \<Rightarrow> CreateSessionRequest \<Rightarrow> string \<Rightarrow> ctl \<Rightarrow> target \<Rightarrow> NodeRecord \<Rightarrow>
     SessionRecord option \<Rightarrow> Decision \<Rightarrow> bool" where
  "admitted env bk ident req clientPath st t node attach d \<longleftrightarrow>
     resolve_target bk ident req st = Inr t \<and> check_shape req t = Inr () \<and> node_of (id_Workspace ident) node st \<and>
     (if tg_action t = ActionAttach then attach_ok ident req st attach node else attach = None) \<and>
     (tg_action t = ActionAttach \<or> tg_node t = None \<or> tg_node t = Some node) \<and>
     gates env ident req clientPath t node d st"

definition reaches_offer ::
    "ctl_env \<Rightarrow> broker_env \<Rightarrow> Identity \<Rightarrow> CreateSessionRequest \<Rightarrow> string \<Rightarrow> target \<Rightarrow> NodeRecord \<Rightarrow> SessionRecord option \<Rightarrow>
     Decision \<Rightarrow> ctl \<Rightarrow> SessionGrant \<Rightarrow> bytes \<Rightarrow> ctl \<Rightarrow> bool" where
  "reaches_offer env bk ident req clientPath t node attach d st g signedBytes st1 \<longleftrightarrow>
     (\<exists>sid token ip. bk_sessionID bk = Some sid \<and> bk_relayToken bk = Some token \<and>
        (tg_action t = ActionVPN \<longrightarrow> (\<forall>c \<in> set (tg_routes t). bk_validCIDR bk c)) \<and>
        take_address (tg_action t) (id_Workspace ident) st = (Some ip, st1) \<and> floorAddrs bk \<noteq> [] \<and>
        g = make_grant env bk ident req clientPath t node attach d sid token ip \<and> signGrant env g = Inr signedBytes \<and>
        en_store env PutRecord sid = Committed)"

lemma mint_session_cases:
  obtains (offer) g signedBytes st1 where "reaches_offer env bk ident req clientPath t node attach d st g signedBytes st1"
    "mint_session env bk ident req clientPath t node attach d st =
       offer_session env bk ident clientPath t node d g signedBytes st1"
  | (failed) "\<exists>c. fst (mint_session env bk ident req clientPath t node attach d st) = Inl c"
    "untouched st (snd (mint_session env bk ident req clientPath t node attach d st))"
proof (cases "bk_sessionID bk")
  case None
  then show ?thesis by (intro failed) (simp_all add: mint_session_def)
next
  case sid: (Some sid)
  show ?thesis
  proof (cases "bk_relayToken bk")
    case None
    then show ?thesis by (intro failed) (simp_all add: mint_session_def sid)
  next
    case token: (Some token)
    obtain r st1 where a: "take_address (tg_action t) (id_Workspace ident) st = (r, st1)" by fastforce
    note mint = mint_session_def sid token a Let_def
    show ?thesis
    proof (cases "tg_action t = ActionVPN \<and> (\<exists>c \<in> set (tg_routes t). \<not> bk_validCIDR bk c)")
      case True
      then show ?thesis by (intro failed) (simp_all add: mint)
    next
      case routes: False
      show ?thesis
      proof (cases r)
        case None
        then have "mint_session env bk ident req clientPath t node attach d st = (Inl CResourceExhausted, st1)"
          using routes by (auto simp: mint)
        moreover have "untouched st st1" using take_address_None a None by blast
        ultimately show ?thesis by (intro failed) simp_all
      next
        case (Some ip)
        then have handed: "untouched st (hand_back (id_Workspace ident) ip st1)" using take_address_Some(2) a by blast
        define g where "g = make_grant env bk ident req clientPath t node attach d sid token ip"
        show ?thesis
        proof (cases "floorAddrs bk = [] \<or> en_store env PutRecord sid \<noteq> Committed \<or> (\<exists>e. signGrant env g = Inl e)")
          case True
          then show ?thesis
            using routes handed by (intro failed) (auto simp: mint Some g_def split: sum.splits)
        next
          case False
          then obtain b where b: "signGrant env g = Inr b" by (cases "signGrant env g") auto
          show ?thesis
          proof (rule offer)
            show "reaches_offer env bk ident req clientPath t node attach d st g b st1"
              unfolding reaches_offer_def using False routes b a sid token Some g_def by blast
            show "mint_session env bk ident req clientPath t node attach d st =
                offer_session env bk ident clientPath t node d g b st1"
              using False routes b [unfolded g_def] by (auto simp: mint Some g_def)
          qed
        qed
      qed
    qed
  qed
qed

lemma redirect_not_granted: "redirectFor bk n \<noteq> Some (Granted r)"
  by (auto simp: redirectFor_def split: option.splits if_splits)

lemma admit_closed:
  assumes "\<not> (\<exists>d. gates env ident req clientPath t node d st)"
  shows "(\<forall>r. fst (admit env bk ident req clientPath t node attach st) \<noteq> Inr (Granted r)) \<and>
     untouched st (snd (admit env bk ident req clientPath t node attach st))"
proof (cases "nr_Approved node \<and> \<not> IsSuspended env (id_Workspace ident) (id_Provider ident) (id_Subject ident) st")
  case gate: True
  show ?thesis
  proof (cases "en_online env (nr_ID node)")
    case True
    let ?d = "policy_decision env (id_Workspace ident) (broker_input env ident node t clientPath)"
    from True gate assms show ?thesis
      by (cases "d_Allow ?d"; cases "rq_WantDetachable req \<and> \<not> d_AllowDetach ?d")
        (auto simp: gates_def admit_def Let_def deny_Inl untouched_deny)
  next
    case False
    with gate redirect_not_granted [of bk "nr_ID node"] show ?thesis
      by (cases "redirectFor bk (nr_ID node)") (auto simp: admit_def)
  qed
next
  case False
  then show ?thesis by (auto simp: admit_def deny_Inl untouched_deny)
qed

text \<open>The node of a request: the session's node for a reattachment, else the node of the service or the one named.\<close>

lemma createSession_node:
  obtains (admit) t node attach where "resolve_target bk ident req st = Inr t" "check_shape req t = Inr ()"
    "node_of (id_Workspace ident) node st"
    "if tg_action t = ActionAttach then attach_ok ident req st attach node else attach = None"
    "tg_action t = ActionAttach \<or> tg_node t = None \<or> tg_node t = Some node"
    "createSession env bk ident req clientPath st = admit env bk ident req clientPath t node attach st"
  | (other) "\<forall>r. fst (createSession env bk ident req clientPath st) \<noteq> Inr (Granted r)"
    "untouched st (snd (createSession env bk ident req clientPath st))"
proof (cases "resolve_target bk ident req st")
  case (Inl c)
  then show ?thesis by (intro other) (simp_all add: createSession_def)
next
  case t: (Inr t)
  show ?thesis
  proof (cases "check_shape req t")
    case (Inl c)
    then show ?thesis by (intro other) (simp_all add: createSession_def t)
  next
    case shape: (Inr u)
    note create = createSession_def t shape
    show ?thesis
    proof (cases "tg_action t = ActionAttach")
      case True
      show ?thesis
      proof (cases "resolveAttach bk (id_Workspace ident) (id_Name ident) req st")
        case None
        with True show ?thesis by (intro other) (simp_all add: create deny_Inl untouched_deny)
      next
        case (Some rn)
        obtain rec node where rn: "rn = (rec, node)" by fastforce
        then have "attach_ok ident req st (Some rec) node" using Some by (simp add: resolveAttach_ok)
        moreover from this have "node_of (id_Workspace ident) node st" by (auto simp: attach_ok_def dest: GetNode_node_of)
        ultimately show ?thesis
          using True shape Some rn t by (intro admit [of t node "Some rec"]) (simp_all add: createSession_def)
      qed
    next
      case False
      define found where "found = (case tg_node t of Some node \<Rightarrow> Inr node
        | None \<Rightarrow> mapE find_code (FindNode (bk_nodeRead bk) (id_Workspace ident) (rq_Node req) st))"
      have eq: "createSession env bk ident req clientPath st =
          (case found of Inl c \<Rightarrow> (Inl c, st) | Inr node \<Rightarrow> admit env bk ident req clientPath t node None st)"
        using False by (simp add: create found_def split: option.split sum.split)
      show ?thesis
      proof (cases found)
        case (Inl c)
        with eq show ?thesis by (intro other) simp_all
      next
        case (Inr node)
        then have "node_of (id_Workspace ident) node st \<and> (tg_node t = None \<or> tg_node t = Some node)"
          using resolve_target_node [OF t, of node] by (auto simp: found_def mapE_eq_Inr dest: FindNode_node_of split: option.splits)
        with False eq Inr t shape show ?thesis by (intro admit [of t node None]) simp_all
      qed
    qed
  qed
qed

lemma createSession_cases:
  obtains (offer) t node attach d g signedBytes st1 where "admitted env bk ident req clientPath st t node attach d"
    "reaches_offer env bk ident req clientPath t node attach d st g signedBytes st1"
    "createSession env bk ident req clientPath st = offer_session env bk ident clientPath t node d g signedBytes st1"
  | (other) "\<forall>r. fst (createSession env bk ident req clientPath st) \<noteq> Inr (Granted r)"
    "untouched st (snd (createSession env bk ident req clientPath st))"
proof (rule createSession_node [of bk ident req st env clientPath])
  fix t node attach
  assume t: "resolve_target bk ident req st = Inr t" "check_shape req t = Inr ()" "node_of (id_Workspace ident) node st"
    "if tg_action t = ActionAttach then attach_ok ident req st attach node else attach = None"
    "tg_action t = ActionAttach \<or> tg_node t = None \<or> tg_node t = Some node"
    and eq: "createSession env bk ident req clientPath st = admit env bk ident req clientPath t node attach st"
  show thesis
  proof (cases "\<exists>d. gates env ident req clientPath t node d st")
    case True
    then obtain d where d: "gates env ident req clientPath t node d st" ..
    then have mint: "createSession env bk ident req clientPath st = mint_session env bk ident req clientPath t node attach d st"
      unfolding eq by (auto simp: gates_def admit_def Let_def)
    have ok: "admitted env bk ident req clientPath st t node attach d"
      using t d by (simp add: admitted_def)
    show thesis
    proof (rule mint_session_cases [of env bk ident req clientPath t node attach d st])
      fix g b st1
      assume "reaches_offer env bk ident req clientPath t node attach d st g b st1"
        "mint_session env bk ident req clientPath t node attach d st = offer_session env bk ident clientPath t node d g b st1"
      with ok mint show thesis by (intro offer [of t node attach d g b st1]) simp_all
    next
      assume "\<exists>c. fst (mint_session env bk ident req clientPath t node attach d st) = Inl c"
        "untouched st (snd (mint_session env bk ident req clientPath t node attach d st))"
      with mint show thesis by (intro other) auto
    qed
  next
    case False
    from admit_closed [OF this, of bk attach] eq show thesis by (intro other) simp_all
  qed
next
  assume "\<forall>r. fst (createSession env bk ident req clientPath st) \<noteq> Inr (Granted r)"
    "untouched st (snd (createSession env bk ident req clientPath st))"
  then show thesis by (rule other)
qed

section \<open>The offer\<close>

lemma offers_unchanged [simp]:
  "ct_offers (append_audit ws typ actor n s st) = ct_offers st"
  "ct_offers (hand_back ws ip st) = ct_offers st"
  "ct_offers (PutSession ws rec st) = ct_offers st"
  "ct_offers (setupSession env bk ident p g st) = ct_offers st"
  "ct_offers (unregister_signal sid st) = ct_offers st"
  "ct_offers (snd (UpdateSession out ws sid f st)) = ct_offers st"
  by (simp_all add: append_audit_def hand_back_def release_ip_def PutSession_def Let_def setupSession_def
      unregister_signal_def UpdateSession_def set_session_def split: option.splits upd_outcome.splits)

lemma lease_offers [simp]: "ct_offers (refreshLease env rec st) = ct_offers st"
  by (simp add: refreshLease_def split_beta nextEpoch_snd push_enforcement_def deliver_control_def touch_signal_def
      registry_send_def split: sum.splits)

lemma deny_offers [simp]: "ct_offers (snd (deny env user n c st)) = ct_offers st"
  by (simp add: deny_def)

lemma reject_offers [simp]: "ct_offers (reject_session env bk ws sid st) = ct_offers st"
  by (simp add: reject_session_def)

lemma offer_session_offers:
  assumes "\<forall>s. ct_offers (bk_others bk s) = ct_offers s"
  shows "ct_offers (snd (offer_session env bk ident p t node d g b st)) =
     ct_offers st @ (if bk_offer bk = OfferNotSent then [] else [(nr_ID node, g_ID g, b)])"
  using assms by (simp add: offer_session_def Let_def split_beta send_offer_def)

lemma reaches_offer_state:
  "reaches_offer env bk ident req p t node attach d st g b st1 \<Longrightarrow> ct_offers st1 = ct_offers st"
  "reaches_offer env bk ident req p t node attach d st g b st1 \<Longrightarrow> ct_sessions st1 = ct_sessions st"
  by (auto simp: reaches_offer_def dest!: take_address_Some(1))

section \<open>What a grant must be\<close>

text \<open>The service a request names, as the grant carries it.\<close>

definition names_service :: "broker_env \<Rightarrow> CreateSessionRequest \<Rightarrow> ctl \<Rightarrow> SessionGrant \<Rightarrow> (string \<rightharpoonup> string) \<Rightarrow> bool" where
  "names_service bk req st g labels \<longleftrightarrow>
     (\<exists>svc. resolveService bk (g_NodeID g) (rq_Service req) st = Some svc \<and> labels = sv_Labels svc \<and>
        g_Service g = sv_Name svc \<and> g_ServiceKind g = sv_Kind svc \<and> g_Action g = Service_Action svc \<and>
        (g_Action g = ActionForward \<longrightarrow> g_ForwardTarget g = sv_Addr svc))"

definition grant_authorized ::
    "ctl_env \<Rightarrow> broker_env \<Rightarrow> Identity \<Rightarrow> CreateSessionRequest \<Rightarrow> string \<Rightarrow> ctl \<Rightarrow> string \<Rightarrow> SessionGrant \<Rightarrow> bool" where
  "grant_authorized env bk ident req clientPath st n g \<longleftrightarrow>
     (\<exists>node labels d.
        node_of (id_Workspace ident) node st \<and> nr_ID node = n \<and> nr_Approved node \<and>
        \<not> IsSuspended env (id_Workspace ident) (id_Provider ident) (id_Subject ident) st \<and>
        d = policy_decision env (id_Workspace ident)
              \<lparr>in_User = g_User g, in_Groups = [], in_Roles = g_Roles g, in_NodeID = g_NodeID g, in_NodeName = nr_Name node,
               in_NodeLabels = nr_Labels node, in_Action = g_Action g, in_ClientPath = g_ClientPath g,
               in_Service = g_Service g, in_ServiceKind = g_ServiceKind g, in_ServiceLabels = labels,
               in_Now = en_now env\<rparr> \<and>
        d_Allow d \<and>
        (g_AllowDetach g \<longrightarrow> d_AllowDetach d) \<and> (d_Record d \<and> g_Action g \<noteq> ActionVPN \<longrightarrow> g_Record g) \<and>
        (clientPath = PathWeb \<longrightarrow> \<not> d_RequirePresence d) \<and>
        g_MaxSessionTTL g \<le> bk_defaultMaxTTL bk \<and> (0 < d_MaxSessionTTL d \<longrightarrow> g_MaxSessionTTL g \<le> d_MaxSessionTTL d) \<and>
        g_User g = id_Name ident \<and> g_Roles g = id_Roles ident \<and> g_WorkspaceID g = id_Workspace ident \<and> g_NodeID g = n \<and>
        g_ClientPath g = clientPath \<and> g_ClientNoisePub g = rq_ClientNoisePub req \<and> g_AgentNoisePub g = nr_NoisePub node \<and>
        g_IssuedAt g = en_now env \<and> g_ExpiresAt g = en_now env + bk_grantTTL bk \<and>
        (rq_Service req \<noteq> [] \<longrightarrow> names_service bk req st g labels) \<and>
        (g_Action g = ActionAttach \<longrightarrow>
           (\<exists>rec. GetSession (id_Workspace ident) (rq_AttachSessionId req) st = Some rec \<and> ss_User rec = id_Name ident \<and>
              live_state (ss_State rec) \<and> g_AttachID g = ss_HostSessionID rec \<and>
              GetNode (id_Workspace ident) (ss_NodeID rec) st = Some node)))"

lemma Service_Action_not_attach [simp]: "Service_Action svc \<noteq> ActionAttach"
  by (simp add: Service_Action_def action_defs)

lemma service_forward:
  "Service_Action svc = ActionForward \<longleftrightarrow> sv_Kind svc \<notin> {KindSubnet, KindExitNode, KindShell, KindExec, KindSFTP}"
  by (auto simp: Service_Action_def action_defs)

lemma resolved_service:
  assumes "resolve_target bk ident req st = Inr t" and "rq_Service req \<noteq> []"
  obtains node svc where "tg_node t = Some node" "resolveService bk (nr_ID node) (rq_Service req) st = Some svc"
    "t = service_target (rq_ForwardTarget req) node svc"
  using assms by (auto simp: resolve_target_def bindE_eq_Inr mapE_eq_Inr service_target_def split: option.splits)

lemma minted_is_authorized:
  assumes a: "admitted env bk ident req clientPath st t node attach d"
  shows "grant_authorized env bk ident req clientPath st (nr_ID node)
    (make_grant env bk ident req clientPath t node attach d sid token ip)" (is "grant_authorized _ _ _ _ _ _ _ ?g")
proof -
  have gs: "gates env ident req clientPath t node d st" "node_of (id_Workspace ident) node st"
    "if tg_action t = ActionAttach then attach_ok ident req st attach node else attach = None"
    "resolve_target bk ident req st = Inr t"
    and t: "tg_action t = ActionAttach \<or> tg_node t = None \<or> tg_node t = Some node"
    using a by (simp_all add: admitted_def)
  have d: "d = policy_decision env (id_Workspace ident) (broker_input env ident node t clientPath)"
    using gs(1) by (simp add: gates_def)
  have srv: "names_service bk req st ?g (tg_svcLabels t)" if s: "rq_Service req \<noteq> []"
  proof -
    from resolved_service [OF gs(4) s] obtain n svc where
      n: "tg_node t = Some n" "resolveService bk (nr_ID n) (rq_Service req) st = Some svc"
      "t = service_target (rq_ForwardTarget req) n svc" .
    then have "n = node" using t by (auto simp: service_target_def)
    with n show ?thesis
      by (auto simp: names_service_def make_grant_def service_target_def service_forward)
  qed
  have att: "\<exists>rec. GetSession (id_Workspace ident) (rq_AttachSessionId req) st = Some rec \<and> ss_User rec = id_Name ident \<and>
      live_state (ss_State rec) \<and> g_AttachID ?g = ss_HostSessionID rec \<and>
      GetNode (id_Workspace ident) (ss_NodeID rec) st = Some node" if "g_Action ?g = ActionAttach"
    using that gs(3) by (auto simp: attach_ok_def make_grant_def)
  show ?thesis
    unfolding grant_authorized_def
    by (rule exI [of _ node], rule exI [of _ "tg_svcLabels t"], rule exI [of _ d])
      (use gs(1,2) srv att d in \<open>auto simp: gates_def make_grant_def broker_input_def session_ttl_def\<close>)
qed

section \<open>Example\<close>

definition broker_node :: NodeRecord where
  "broker_node =
     \<lparr>nr_WorkspaceID = ''w'', nr_ID = ''n1'', nr_Name = ''web'', nr_Labels = Map.empty, nr_NoisePub = replicate 32 CHR ''a'',
      nr_HostUUID = [], nr_Approved = True, nr_ApprovedBy = ''admin'', nr_ApprovedAtUnix = 0, nr_OverlayIP = [],
      nr_Region = [], nr_ApprovedBinaryHash = [], nr_ApprovedBinaryCreatedUnix = 0, nr_LastBinaryHash = [],
      nr_LastMeasuredUnix = 0\<rparr>"

definition broker_ctl :: ctl where
  "broker_ctl = (demo_ctl [])\<lparr>ct_nodes := [((''w'', ''n1''), broker_node)]\<rparr>"

definition broker_user :: Identity where
  "broker_user = \<lparr>id_Workspace = ''w'', id_Name = ''alice'', id_Roles = [''dev''], id_Subject = ''sub'', id_Provider = ''oidc''\<rparr>"

definition broker_req :: CreateSessionRequest where
  "broker_req =
     \<lparr>rq_Node = ''web'', rq_Action = ''shell'', rq_Command = [], rq_WantPty = True, rq_WantDetachable = False,
      rq_AttachSessionId = [], rq_ForwardTarget = [], rq_ClientNoisePub = replicate 32 CHR ''c'', rq_Service = [],
      rq_HomeRegion = []\<rparr>"

definition broker_bk :: "offer_outcome \<Rightarrow> broker_env" where
  "broker_bk out =
     \<lparr>bk_nodeRead = True, bk_sessionRead = True, bk_services = (\<lambda>_. None), bk_advertised = (\<lambda>_ _. []),
      bk_relayAddrs = [''relay:443''], bk_relayFloor = None, bk_grantTTL = 60 * second, bk_defaultMaxTTL = 8 * hour,
      bk_hook = None, bk_presenceHeartbeat = 0, bk_controllerID = ''c1'', bk_clusterControllers = None,
      bk_affinity = Map.empty, bk_sessionID = Some ''s-1'', bk_relayToken = Some ''tok'', bk_challenge = [],
      bk_validCIDR = (\<lambda>_. True), bk_offer = out, bk_others = id\<rparr>"

definition broker_grant :: SessionGrant where
  "broker_grant =
     \<lparr>g_V = 1, g_ID = ''s-1'', g_User = ''alice'', g_Roles = [''dev''], g_WorkspaceID = ''w'',
      g_NetworkVNI = unat (vniForWorkspace ''w''), g_NodeID = ''n1'', g_Action = ''shell'', g_Command = [], g_AttachID = [],
      g_AllowPTY = True, g_AllowDetach = False, g_ForwardTarget = [], g_ClientNoisePub = replicate 32 CHR ''c'',
      g_AgentNoisePub = replicate 32 CHR ''a'', g_RelayAddr = ''relay:443'', g_RelayFloor = [''relay:443''],
      g_RelayToken = ''tok'', g_RelayCandidates = [], g_ClientPath = ''native'', g_IssuedAt = 1,
      g_ExpiresAt = 1 + 60 * second, g_MaxSessionTTL = 8 * hour, g_Record = True, g_Service = [], g_ServiceKind = [],
      g_Routes = [], g_OverlayIP = []\<rparr>"

definition broker_ctl_env :: ctl_env where
  "broker_ctl_env = demo_ctl_env\<lparr>en_now := 1, en_policies := [''w'' \<mapsto> demo_doc],
     en_codec := (en_codec link_env)\<lparr>mc_Grant := (\<lambda>g. if g = broker_grant then Some ''g'' else None)\<rparr>\<rparr>"

lemma broker_decision:
  "policy_decision broker_ctl_env ''w''
     \<lparr>in_User = ''alice'', in_Groups = [], in_Roles = [''dev''], in_NodeID = ''n1'', in_NodeName = ''web'',
      in_NodeLabels = Map.empty, in_Action = ''shell'', in_ClientPath = ''native'', in_Service = [], in_ServiceKind = [],
      in_ServiceLabels = Map.empty, in_Now = 1\<rparr> =
   \<lparr>d_Allow = True, d_Reason = RoleAllows ''dev'' ''shell'' ''web'', d_MatchedRole = ''dev'',
    d_MaxSessionTTL = 0, d_AllowDetach = True, d_Record = True, d_ReadOnly = False, d_RequirePresence = False\<rparr>"
  by (simp add: policy_decision_def broker_ctl_env_def demo_ctl_env_def policy_demo_defs Evaluate_def resolved_roles_def
      rule_matches_def merge_decision_def rule_decision_def denied_def)

lemma broker_demo:
  "createSession broker_ctl_env (broker_bk out) broker_user broker_req PathNative broker_ctl =
     offer_session broker_ctl_env (broker_bk out) broker_user PathNative
       \<lparr>tg_node = None, tg_action = ''shell'', tg_forwardTarget = [], tg_svcName = [], tg_svcKind = [],
        tg_svcLabels = Map.empty, tg_routes = []\<rparr> broker_node
       \<lparr>d_Allow = True, d_Reason = RoleAllows ''dev'' ''shell'' ''web'', d_MatchedRole = ''dev'', d_MaxSessionTTL = 0,
        d_AllowDetach = True, d_Record = True, d_ReadOnly = False, d_RequirePresence = False\<rparr>
       broker_grant ''g'' broker_ctl" (is "_ = offer_session _ _ _ _ ?t _ ?d _ _ _")
proof -
  have t: "resolve_target (broker_bk out) broker_user broker_req broker_ctl = Inr ?t"
    by (simp add: resolve_target_def broker_req_def action_defs)
  have s: "check_shape broker_req ?t = Inr ()"
    by (simp add: check_shape_def broker_req_def action_defs)
  have n: "FindNode (bk_nodeRead (broker_bk out)) (id_Workspace broker_user) (rq_Node broker_req) broker_ctl = Inr broker_node"
    by (simp add: FindNode_def GetNode_def broker_bk_def broker_user_def broker_req_def broker_ctl_def broker_node_def)
  have d: "policy_decision broker_ctl_env (id_Workspace broker_user) (broker_input broker_ctl_env broker_user broker_node ?t PathNative) = ?d"
    using broker_decision by (simp add: broker_input_def broker_user_def broker_node_def PathNative_def broker_ctl_env_def)
  have g: "make_grant broker_ctl_env (broker_bk out) broker_user broker_req PathNative ?t broker_node None ?d ''s-1'' ''tok'' [] = broker_grant"
    by (simp add: make_grant_def broker_grant_def broker_user_def broker_node_def broker_req_def broker_bk_def floorAddrs_def
        candidates_def session_ttl_def PathNative_def broker_ctl_env_def action_defs)
  have sg: "signGrant broker_ctl_env broker_grant = Inr ''g''"
    by (simp add: signGrant_def Sign_def broker_ctl_env_def demo_ctl_env_def link_env_def bindE_def)
  have susp: "\<not> IsSuspended broker_ctl_env (id_Workspace broker_user) (id_Provider broker_user) (id_Subject broker_user) broker_ctl"
    by (simp add: IsSuspended_def broker_ctl_env_def demo_ctl_env_def broker_ctl_def demo_ctl_def)
  have bk: "bk_sessionID (broker_bk out) = Some ''s-1''" "bk_relayToken (broker_bk out) = Some ''tok''" "floorAddrs (broker_bk out) \<noteq> []"
    by (simp_all add: broker_bk_def floorAddrs_def)
  have env: "en_store broker_ctl_env PutRecord ''s-1'' = Committed" "en_online broker_ctl_env n" for n
    by (simp_all add: broker_ctl_env_def demo_ctl_env_def)
  have mint: "mint_session broker_ctl_env (broker_bk out) broker_user broker_req PathNative ?t broker_node None ?d broker_ctl =
      offer_session broker_ctl_env (broker_bk out) broker_user PathNative ?t broker_node ?d broker_grant ''g'' broker_ctl"
    unfolding mint_session_def bk using bk(3) by (simp add: take_address_def ActionVPN_def g sg env)
  have node: "nr_Approved broker_node" "\<not> rq_WantDetachable broker_req" "PathNative \<noteq> PathWeb"
    by (simp_all add: broker_node_def broker_req_def PathNative_def PathWeb_def)
  show ?thesis
    unfolding createSession_def t sum.case s by (simp add: n admit_def susp d mint env node ActionAttach_def)
qed

section \<open>What the agent makes of it\<close>

text \<open>The broker's signer and the agent's verifier fit: as for enforcement messages, now for grants.\<close>

definition grant_link :: "ctl_env \<Rightarrow> crypto \<Rightarrow> agent_codec \<Rightarrow> keyset \<Rightarrow> bool" where
  "grant_link env c ac trusted \<longleftrightarrow>
     (\<exists>pub. trusted (en_grantKeyID env) = Some pub \<and> length pub = PublicKeySize \<and>
        (\<forall>input sig. en_grantKey env input = Some sig \<longrightarrow> ed25519_Verify c pub input sig)) \<and>
     (\<forall>e b. mc_Signed (en_codec env) e = Some b \<longrightarrow> ac_Signed ac b = Some e) \<and>
     (\<forall>g b. mc_Grant (en_codec env) g = Some b \<longrightarrow> ac_Grant ac b = Some g)"

lemma signGrant_verifies:
  assumes "grant_link env c ac trusted" and "signGrant env g = Inr b"
  obtains e where "ac_Signed ac b = Some e" "ac_Grant ac (s_Payload e) = Some g" "s_KeyID e = en_grantKeyID env"
    "sig_valid c trusted (signingInput ContextGrant (s_Payload e)) (s_KeyID e) (s_Sig e)"
proof -
  from assms(2) obtain payload sig where m: "mc_Grant (en_codec env) g = Some payload"
    and sg: "en_grantKey env (signingInput ContextGrant payload) = Some sig" and len: "length sig = SignatureSize"
    and b: "mc_Signed (en_codec env) \<lparr>s_Payload = payload, s_Sig = sig, s_KeyID = en_grantKeyID env\<rparr> = Some b"
    by (auto simp: signGrant_def Sign_def bindE_eq_Inr split: option.splits if_splits)
  from assms(1) obtain pub where key: "trusted (en_grantKeyID env) = Some pub" "length pub = PublicKeySize"
    and v: "\<forall>input sig. en_grantKey env input = Some sig \<longrightarrow> ed25519_Verify c pub input sig"
    and d: "\<forall>e b. mc_Signed (en_codec env) e = Some b \<longrightarrow> ac_Signed ac b = Some e"
    and p: "\<forall>g b. mc_Grant (en_codec env) g = Some b \<longrightarrow> ac_Grant ac b = Some g"
    unfolding grant_link_def by (elim exE conjE)
  show thesis
    by (rule that [of "\<lparr>s_Payload = payload, s_Sig = sig, s_KeyID = en_grantKeyID env\<rparr>"])
      (use d [rule_format, OF b] p [rule_format, OF m] v [rule_format, OF sg] key len in \<open>simp_all add: sig_valid_def\<close>)
qed

lemma validForwardTarget_nonempty: "\<not> validForwardTarget []"
  by (simp add: validForwardTarget_def SplitHostPort_def last_index_byte_def)

lemma minted_validates:
  assumes "admitted env bk ident req clientPath st t node attach d"
    and "en_now env - 2 * minute \<le> now" and "now \<le> en_now env + bk_grantTTL bk"
  shows "Validate (make_grant env bk ident req clientPath t node attach d sid token ip) (nr_ID node) (nr_NoisePub node) now = Inr ()"
proof -
  have s: "check_shape req t = Inr ()" and a: "tg_action t = ActionAttach \<Longrightarrow> attach_ok ident req st attach node"
    using assms(1) by (simp_all add: admitted_def)
  from s have "length (rq_ClientNoisePub req) = 32" by (simp add: check_shape_def split: if_splits)
  moreover have "tg_action t = ActionShell \<or> tg_action t = ActionSFTP \<or> tg_action t = ActionExec \<and> rq_Command req \<noteq> [] \<or>
      tg_action t = ActionAttach \<or> tg_action t = ActionForward \<and> tg_forwardTarget t \<noteq> [] \<or>
      tg_action t = ActionVPN \<and> tg_routes t \<noteq> []"
    using s validForwardTarget_nonempty by (auto simp: check_shape_def split: if_splits)
  moreover have "(case attach of None \<Rightarrow> [] | Some rec \<Rightarrow> ss_HostSessionID rec) \<noteq> []" if "tg_action t = ActionAttach"
    using a [OF that] by (auto simp: attach_ok_def)
  ultimately show ?thesis using assms(2,3) by (auto simp: Validate_accepts_iff make_grant_def)
qed

section \<open>Properties\<close>



text \<open>
  C7: The agent takes what the broker signs.  Every grant the broker returns passes the agent's offer
  gate at the node it was made for: if the agent trusts the grant key for the workspace, its clock is
  within two minutes before and the grant's lifetime after the broker's, and it does not forbid a
  detachable session the grant asks for, then the offer is accepted, with the session lifetime
  clamped to the agent's own limit.
\<close>

theorem agent_accepts_what_the_broker_signs:
  assumes "fst (createSession env bk ident req clientPath st) = Inr (Granted resp)"
    and link: "grant_link env c ac trusted"
    and "en_now env - 2 * minute \<le> now" and "now \<le> en_now env + bk_grantTTL bk"
    and "ws = [] \<or> ws = id_Workspace ident"
    and "\<forall>scope. scopes (en_grantKeyID env) = Some scope \<longrightarrow> scope = [] \<or> id_Workspace ident \<in> set scope"
    and "rq_WantDetachable req \<longrightarrow> \<not> ap_ForbidDetach pol"
  shows "\<exists>node g. node_of (id_Workspace ident) node st \<and> re_AgentNoisePub resp = nr_NoisePub node \<and>
     EvaluateOffer c ac (re_SignedGrant resp) trusted scopes ws (nr_ID node) (nr_NoisePub node) pol now = Inr g \<and>
     g_ID g = re_SessionId resp \<and> g_User g = id_Name ident \<and> g_ClientNoisePub g = rq_ClientNoisePub req \<and>
     0 < g_MaxSessionTTL g \<and> g_MaxSessionTTL g \<le> maxAgentSessionTTL"
proof (rule createSession_cases [of env bk ident req clientPath st])
  fix t node attach d g b st1
  assume a: "admitted env bk ident req clientPath st t node attach d"
    and r: "reaches_offer env bk ident req clientPath t node attach d st g b st1"
    and c: "createSession env bk ident req clientPath st = offer_session env bk ident clientPath t node d g b st1"
  have resp: "resp = response bk d g b"
    using assms(1) by (auto simp: c offer_session_def Let_def split_beta deny_Inl split: if_splits)
  from r obtain sid token ip where g: "g = make_grant env bk ident req clientPath t node attach d sid token ip"
    and s: "signGrant env g = Inr b" by (auto simp: reaches_offer_def)
  have v: "Validate g (nr_ID node) (nr_NoisePub node) now = Inr ()"
    unfolding g by (rule minted_validates [OF a assms(3,4)])
  have gf: "g_WorkspaceID g = id_Workspace ident" "g_AllowDetach g \<longrightarrow> rq_WantDetachable req"
    "g_User g = id_Name ident" "g_ClientNoisePub g = rq_ClientNoisePub req" "g_AgentNoisePub g = nr_NoisePub node"
    by (simp_all add: g make_grant_def)
  from signGrant_verifies [OF link s] obtain e where e: "ac_Signed ac b = Some e" "ac_Grant ac (s_Payload e) = Some g"
    "s_KeyID e = en_grantKeyID env" "sig_valid c trusted (signingInput ContextGrant (s_Payload e)) (s_KeyID e) (s_Sig e)" .
  define g' where "g' = g\<lparr>g_MaxSessionTTL := (if 0 < g_MaxSessionTTL g \<and> g_MaxSessionTTL g \<le> maxAgentSessionTTL
      then g_MaxSessionTTL g else maxAgentSessionTTL)\<rparr>"
  have "EvaluateOffer c ac b trusted scopes ws (nr_ID node) (nr_NoisePub node) pol now = Inr g'"
    unfolding EvaluateOffer_accepts_iff by (rule exI [of _ e], rule exI [of _ g]) (use e v gf assms(5-7) in \<open>auto simp: g'_def\<close>)
  moreover have "node_of (id_Workspace ident) node st" using a by (simp add: admitted_def)
  ultimately show ?thesis
    using gf by (intro exI [of _ node] exI [of _ g']) (simp add: resp response_def g'_def maxAgentSessionTTL_def hour_pos)
next
  assume "\<forall>r. fst (createSession env bk ident req clientPath st) \<noteq> Inr (Granted r)"
  with assms(1) show ?thesis by simp
qed

theorem agent_accepts_what_the_broker_signs_witness:
  "\<exists>node g. node_of ''w'' node broker_ctl \<and>
     EvaluateOffer gate_crypto (gate_codec\<lparr>ac_Grant := (\<lambda>_. Some broker_grant)\<rparr>) ''g'' gate_keys Map.empty ''w'' (nr_ID node)
       (nr_NoisePub node) \<lparr>ap_ForbidDetach = True, ap_MaxSessions = 0, ap_MaxDetached = 0, ap_RingBufferBytes = 0,
         ap_DetachedTTLSec = 0, ap_IdleReapSec = 0\<rparr> 1 = Inr g \<and> g_ID g = ''s-1''"
proof -
  let ?ac = "gate_codec\<lparr>ac_Grant := (\<lambda>_. Some broker_grant)\<rparr>"
  let ?pol = "\<lparr>ap_ForbidDetach = True, ap_MaxSessions = 0, ap_MaxDetached = 0, ap_RingBufferBytes = 0,
         ap_DetachedTTLSec = 0, ap_IdleReapSec = 0\<rparr>"
  let ?d = "\<lparr>d_Allow = True, d_Reason = RoleAllows ''dev'' ''shell'' ''web'', d_MatchedRole = ''dev'', d_MaxSessionTTL = 0,
        d_AllowDetach = True, d_Record = True, d_ReadOnly = False, d_RequirePresence = False\<rparr>"
  have ok: "en_audit broker_ctl_env" by (simp add: broker_ctl_env_def demo_ctl_env_def)
  have out: "bk_offer (broker_bk OfferAccepted) = OfferAccepted" by (simp add: broker_bk_def)
  have r: "fst (createSession broker_ctl_env (broker_bk OfferAccepted) broker_user broker_req PathNative broker_ctl) =
      Inr (Granted (response (broker_bk OfferAccepted) ?d broker_grant ''g''))"
    unfolding broker_demo offer_session_def Let_def by (simp add: ok out)
  have link: "grant_link broker_ctl_env gate_crypto ?ac gate_keys"
    by (simp add: grant_link_def broker_ctl_env_def demo_ctl_env_def link_env_def gate_keys_def gate_crypto_def gate_codec_def)
  have t: "en_now broker_ctl_env - 2 * minute \<le> 1" "1 \<le> en_now broker_ctl_env + bk_grantTTL (broker_bk OfferAccepted)"
    by (simp_all add: broker_ctl_env_def broker_bk_def minute_def second_def)
  from agent_accepts_what_the_broker_signs [OF r link t, where ws = "''w''" and scopes = Map.empty and pol = ?pol]
  show ?thesis by (auto simp: broker_user_def broker_req_def response_def broker_grant_def)
qed

section \<open>Failed requests\<close>

lemma reject_pool:
  "ct_pool (reject_session env bk ws sid st) = ct_pool st"
  "ct_pool (send_offer bk n sid b st) = ct_pool (bk_others bk st)" if "bk_others bk = id"
  by (simp_all add: reject_session_def unregister_signal_def UpdateSession_def set_session_def send_offer_def that
      split: option.splits upd_outcome.splits)

lemma setup_pool:
  "ct_pool (setupSession env bk ident p g st) = ct_pool st" "ct_pool (PutSession ws rec st) = ct_pool st"
  "ct_sessions (setupSession env bk ident p g st) = ct_sessions st"
  by (simp_all add: setupSession_def PutSession_def Let_def split: option.splits)

lemma hand_back_pool: "ct_pool (hand_back ws ip st) = (ct_pool st)(ws := release ip (ct_pool st ws))"
  by (auto simp: hand_back_def release_ip_def release_def fun_eq_iff)

lemma reject_get:
  "GetSession w s (reject_session env bk ws sid st) =
     (if w = ws \<and> s = sid \<and> en_store env EndRejected sid = Committed
      then map_option (mark_rejected env) (GetSession ws sid st) else GetSession w s st)"
  by (simp add: reject_session_def UpdateSession_get) (simp add: GetSession_def unregister_signal_def)

text \<open>The state a refused offer leaves, if nothing else ran meanwhile.\<close>

lemma refused_offer:
  fixes p t node d b
  assumes "bk_others bk = id" and "bk_offer bk \<noteq> OfferAccepted" and "GetSession (id_Workspace ident) (g_ID g) st = None"
    and "en_store env EndRejected (g_ID g) = Committed"
  defines "st' \<equiv> snd (offer_session env bk ident p t node d g b st)"
  shows "ct_pool st' = ct_pool (hand_back (id_Workspace ident) (g_OverlayIP g) st)"
    and "GetSession w s st' =
      (if w = id_Workspace ident \<and> s = g_ID g
       then Some (mark_rejected env ((session_record env bk ident t node d g b)\<lparr>ss_WorkspaceID := id_Workspace ident\<rparr>))
       else GetSession w s st)"
proof -
  let ?ws = "id_Workspace ident"
  let ?rec = "(session_record env bk ident t node d g b)\<lparr>ss_WorkspaceID := ?ws\<rparr>"
  let ?st2 = "send_offer bk (nr_ID node) (g_ID g) b (setupSession env bk ident p g (PutSession ?ws ?rec st))"
  let ?st3 = "reject_session env bk ?ws (g_ID g) ?st2"
  have rec: "ss_ID ?rec = g_ID g" "ss_WorkspaceID ?rec = ?ws" by (simp_all add: session_record_def)
  have st': "st' = hand_back ?ws (g_OverlayIP g) (snd (deny env (id_Name ident) (nr_ID node) CUnavailable ?st3 :: answer outcome))"
    using assms(2) by (simp add: st'_def offer_session_def Let_def split_beta)
  have p: "ct_pool (snd (deny env (id_Name ident) (nr_ID node) CUnavailable ?st3 :: answer outcome)) = ct_pool st"
    by (simp add: deny_def append_audit_def reject_pool [OF assms(1)] setup_pool assms(1))
  show "ct_pool st' = ct_pool (hand_back ?ws (g_OverlayIP g) st)"
    unfolding st' hand_back_pool p ..
  have "ct_sessions st' = ct_sessions ?st3"
    by (simp add: st' hand_back_def release_ip_def deny_def append_audit_def)
  then have "GetSession w s st' = GetSession w s ?st3" by (simp add: GetSession_def)
  also have "\<dots> = (if w = ?ws \<and> s = g_ID g then map_option (mark_rejected env) (GetSession ?ws (g_ID g) ?st2) else GetSession w s ?st2)"
    by (simp add: reject_get assms(4))
  finally have get: "GetSession w s st' = (if w = ?ws \<and> s = g_ID g
      then map_option (mark_rejected env) (GetSession ?ws (g_ID g) ?st2) else GetSession w s ?st2)" .
  have st2: "GetSession x y ?st2 = (if x = ?ws \<and> y = g_ID g then Some ?rec else GetSession x y st)" for x y
  proof -
    have "GetSession x y ?st2 = GetSession x y (PutSession ?ws ?rec st)"
      by (simp add: GetSession_def send_offer_def assms(1) setup_pool)
    then show ?thesis using get_put [of ?ws ?rec st x y] assms(3) rec by simp
  qed
  show "GetSession w s st' = (if w = ?ws \<and> s = g_ID g then Some (mark_rejected env ?rec) else GetSession w s st)"
    unfolding get st2 by simp
qed



text \<open>
  A refused offer erases a revocation.  If the session was revoked while the broker waited for the
  agent's answer, and the answer is a refusal or a timeout, the broker overwrites the revoked record
  with an ended one: the teardown that is still owed is no longer visible to the sweep or to a
  reconnect, so an agent that started the session after the timeout is never told.
\<close>

theorem refused_offer_erases_a_revocation:
  assumes "GetSession ws sid st = Some r" and "ss_State r = SessionRevoked" and "\<not> ss_RevokeDelivered r"
    and "en_store env EndRejected sid = Committed"
  shows "\<exists>r'. GetSession ws sid (reject_session env bk ws sid st) = Some r' \<and> ss_State r' = SessionEnded \<and>
     \<not> ss_RevokeDelivered r' \<and> (\<forall>env' idx n st'. sweep_one env' idx st' r' = st' \<and> redeliver_one env' n st' r' = st')"
  using assms
  by (auto simp: reject_get mark_rejected_def sweep_one_def redeliver_one_def live_state_def)

theorem refused_offer_erases_a_revocation_witness:
  "ss_State (the (GetSession ''w'' ''s1'' (reject_session broker_ctl_env (broker_bk OfferRefused) ''w'' ''s1''
     (demo_ctl [demo_record\<lparr>ss_State := SessionRevoked, ss_RevokeDelivered := False\<rparr>])))) = SessionEnded"
  using refused_offer_erases_a_revocation [OF demo_get [where s = SessionRevoked and d = False and rs = "[]"],
      of broker_ctl_env "broker_bk OfferRefused"]
  by (auto simp: broker_ctl_env_def demo_ctl_env_def)

section \<open>Re-homing\<close>

text \<open>The fields of a grant that re-homing may not change.\<close>

definition same_scope :: "SessionGrant \<Rightarrow> SessionGrant \<Rightarrow> bool" where
  "same_scope g g' \<longleftrightarrow>
     g_V g' = g_V g \<and> g_ID g' = g_ID g \<and> g_User g' = g_User g \<and> g_Roles g' = g_Roles g \<and>
     g_WorkspaceID g' = g_WorkspaceID g \<and> g_NetworkVNI g' = g_NetworkVNI g \<and> g_NodeID g' = g_NodeID g \<and>
     g_Command g' = g_Command g \<and> g_AllowPTY g' = g_AllowPTY g \<and> g_AllowDetach g' = g_AllowDetach g \<and>
     g_ForwardTarget g' = g_ForwardTarget g \<and> g_ClientNoisePub g' = g_ClientNoisePub g \<and>
     g_ClientPath g' = g_ClientPath g \<and> g_MaxSessionTTL g' = g_MaxSessionTTL g \<and> g_Record g' = g_Record g \<and>
     g_Service g' = g_Service g \<and> g_ServiceKind g' = g_ServiceKind g \<and> g_Routes g' = g_Routes g \<and>
     g_OverlayIP g' = g_OverlayIP g"

lemma rehomed_scope: "same_scope orig (rehomed_grant env bk rec node floor token dead orig)"
  by (simp add: rehomed_grant_def same_scope_def Let_def)

lemma ReissueGrant_Some:
  assumes "ReissueGrant env bk ac ws sid deadID dead applied st = (Some rg, st')"
  obtains rec e orig node token where "GetSession ws sid st = Some rec" "live_state (ss_State rec)"
    "ac_Signed ac (ss_GrantScope rec) = Some e" "ac_Grant ac (s_Payload e) = Some orig"
    "GetNode ws (ss_NodeID rec) st = Some node" "bk_relayToken bk = Some token"
    "excludeRelayAddr (floorAddrs bk) dead \<noteq> []"
    "rg_Grant rg = rehomed_grant env bk rec node (excludeRelayAddr (floorAddrs bk) dead) token deadID orig"
    "signGrant env (rg_Grant rg) = Inr (rg_SignedGrant rg)" "rg_Epoch rg = ss_RehomeEpoch (rehome_bump applied rec)"
    "st' = set_session ws sid (rehome_bump applied rec) st"
proof -
  from assms obtain rec where rec: "GetSession ws sid st = Some rec" "bk_sessionRead bk"
    by (cases "bk_sessionRead bk"; cases "GetSession ws sid st") (simp_all add: ReissueGrant_def)
  with assms have live: "live_state (ss_State rec)" and sc: "ss_GrantScope rec \<noteq> []"
    by (auto simp: ReissueGrant_def live_state_def split: if_splits)
  from assms rec live sc obtain e where e: "ac_Signed ac (ss_GrantScope rec) = Some e"
    by (cases "ac_Signed ac (ss_GrantScope rec)") (simp_all add: ReissueGrant_def live_state_def split: if_splits)
  from assms rec live sc e obtain orig where o: "ac_Grant ac (s_Payload e) = Some orig"
    by (cases "ac_Grant ac (s_Payload e)") (simp_all add: ReissueGrant_def live_state_def split: if_splits)
  from assms rec live sc e o obtain node where n: "GetNode ws (ss_NodeID rec) st = Some node" "bk_nodeRead bk"
    by (cases "bk_nodeRead bk"; cases "GetNode ws (ss_NodeID rec) st") (simp_all add: ReissueGrant_def live_state_def split: if_splits)
  note known = rec live sc e o n
  from assms known obtain token where t: "bk_relayToken bk = Some token"
    by (cases "bk_relayToken bk") (simp_all add: ReissueGrant_def live_state_def UpdateSession_def split: if_splits)
  define g where "g = rehomed_grant env bk rec node (excludeRelayAddr (floorAddrs bk) dead) token deadID orig"
  from assms known t have f: "excludeRelayAddr (floorAddrs bk) dead \<noteq> []"
    by (auto simp: ReissueGrant_def live_state_def UpdateSession_def Let_def split: if_splits)
  from assms known t f obtain b where b: "signGrant env g = Inr b"
    by (cases "signGrant env g") (simp_all add: ReissueGrant_def live_state_def UpdateSession_def g_def [symmetric] Let_def split: if_splits)
  from assms known t f b have
    "rg = \<lparr>rg_Epoch = ss_RehomeEpoch (rehome_bump applied rec), rg_SignedGrant = b, rg_Grant = g\<rparr>"
    "st' = set_session ws sid (rehome_bump applied rec) st"
    by (simp_all add: ReissueGrant_def live_state_def UpdateSession_def g_def [symmetric] Let_def split: if_splits)
  with known t f b show thesis by (intro that) (simp_all add: g_def)
qed

lemma exclude_dead: "a \<in> set floor \<Longrightarrow> a \<noteq> dead \<Longrightarrow> dead \<noteq> [] \<Longrightarrow> dead \<notin> set (excludeRelayAddr floor dead)"
  by (auto simp: excludeRelayAddr_def Let_def filter_empty_conv)

lemma rehome_bump_simps [simp]:
  "ss_State (rehome_bump e r) = ss_State r" "ss_GrantScope (rehome_bump e r) = ss_GrantScope r"
  "ss_NodeID (rehome_bump e r) = ss_NodeID r" "(rehome_bump e r)\<lparr>ss_RehomeEpoch := x\<rparr> = r\<lparr>ss_RehomeEpoch := x\<rparr>"
  by (simp_all add: rehome_bump_def)


section \<open>Example\<close>

definition rehome_ctl :: ctl where
  "rehome_ctl = (demo_ctl [demo_record\<lparr>ss_GrantScope := ''g''\<rparr>])\<lparr>ct_nodes := [((''w'', ''n1''), broker_node)]\<rparr>"

definition rehome_env :: ctl_env where
  "rehome_env = broker_ctl_env\<lparr>en_codec := (en_codec broker_ctl_env)\<lparr>mc_Grant := (\<lambda>g. Some (g_RelayToken g))\<rparr>\<rparr>"

definition rehome_codec :: agent_codec where
  "rehome_codec = gate_codec\<lparr>ac_Grant := (\<lambda>_. Some broker_grant)\<rparr>"

lemma rehome_step:
  "ReissueGrant rehome_env ((broker_bk OfferAccepted)\<lparr>bk_relayToken := Some tok\<rparr>) rehome_codec ''w'' ''s1'' [] [] 0
     (set_session ''w'' ''s1'' (demo_record\<lparr>ss_GrantScope := ''g'', ss_RehomeEpoch := n\<rparr>) rehome_ctl) =
   (Some \<lparr>rg_Epoch = (if 0 < n then n else i64 (n + 1)), rg_SignedGrant = tok,
          rg_Grant = broker_grant\<lparr>g_RelayToken := tok\<rparr>\<rparr>,
    set_session ''w'' ''s1'' (demo_record\<lparr>ss_GrantScope := ''g'', ss_RehomeEpoch := (if 0 < n then n else i64 (n + 1))\<rparr>) rehome_ctl)"
proof -
  let ?r = "demo_record\<lparr>ss_GrantScope := ''g'', ss_RehomeEpoch := n\<rparr>"
  let ?bk = "(broker_bk OfferAccepted)\<lparr>bk_relayToken := Some tok\<rparr>"
  let ?st = "set_session ''w'' ''s1'' ?r rehome_ctl"
  have g: "GetSession ''w'' ''s1'' ?st = Some ?r" "GetNode ''w'' ''n1'' ?st = Some broker_node"
    by (simp_all add: GetSession_def GetNode_def set_session_def rehome_ctl_def demo_ctl_def key_of_def demo_record_def)
  have f: "rehomed_grant rehome_env ?bk ?r broker_node [''relay:443''] tok [] broker_grant = broker_grant\<lparr>g_RelayToken := tok\<rparr>"
    by (simp add: rehomed_grant_def demo_record_def broker_bk_def broker_grant_def broker_node_def rehome_env_def broker_ctl_env_def)
  have s: "signGrant rehome_env (broker_grant\<lparr>g_RelayToken := tok\<rparr>) = Inr tok"
    by (simp add: signGrant_def Sign_def rehome_env_def broker_ctl_env_def demo_ctl_env_def link_env_def bindE_def broker_grant_def)
  have r: "ss_State ?r = SessionActive" "ss_GrantScope ?r = ''g''" "ss_NodeID ?r = ''n1''" by (simp_all add: demo_record_def)
  have bk: "bk_sessionRead ?bk" "bk_nodeRead ?bk" "excludeRelayAddr (floorAddrs ?bk) [] = [''relay:443'']"
    "en_store rehome_env BumpRehome ''s1'' = Committed" "length (nr_NoisePub broker_node) = 32"
    by (simp_all add: broker_bk_def floorAddrs_def excludeRelayAddr_def rehome_env_def broker_ctl_env_def demo_ctl_env_def broker_node_def)
  have twice: "set_session ''w'' ''s1'' x ?st = set_session ''w'' ''s1'' x rehome_ctl" for x
  proof -
    have "(\<lambda>(k, v). if k = (''w'', ''s1'') then (k, x) else (k, v)) \<circ> (\<lambda>(k, v). if k = (''w'', ''s1'') then (k, ?r) else (k, v)) =
        (\<lambda>(k, v). if k = (''w'', ''s1'') then (k, x) else (k, v))"
      by (auto simp: fun_eq_iff)
    then show ?thesis by (simp add: set_session_def)
  qed
  show ?thesis
    unfolding ReissueGrant_def
    by (simp add: bk g r f s twice UpdateSession_def rehome_bump_def rehome_codec_def gate_codec_def
        r(1) [unfolded demo_record_def])
qed


text \<open>
  Concurrent re-home requests do not converge.  If both ends ask to re-home at the same generation,
  the second request is meant to mint nothing; it does not raise the generation, but it mints a second
  grant with a token of its own under the same generation, so an end that keeps the first grant it
  sees for a generation can be left waiting at the relay with a token the other end does not have.
\<close>

theorem concurrent_rehome_mints_two_grants:
  assumes "ReissueGrant env bk ac ws sid d1 a1 applied st = (Some rg1, st1)"
    and "ReissueGrant env bk' ac ws sid d2 a2 applied st1 = (Some rg2, st2)"
    and "GetSession ws sid st = Some rec" and "ss_RehomeEpoch rec = applied" and "i64_range applied" and "applied \<noteq> 2 ^ 63 - 1"
    and "bk_relayToken bk \<noteq> bk_relayToken bk'"
  shows "rg_Epoch rg1 = applied + 1 \<and> rg_Epoch rg2 = applied + 1 \<and>
     g_RelayToken (rg_Grant rg1) \<noteq> g_RelayToken (rg_Grant rg2)"
proof -
  have tok: "g_RelayToken (rehomed_grant e b r n f t i orig) = t" for e b r n f t i orig
    by (simp add: rehomed_grant_def Let_def)
  from ReissueGrant_Some [OF assms(1)] obtain t1 where one: "bk_relayToken bk = Some t1" "g_RelayToken (rg_Grant rg1) = t1"
    "rg_Epoch rg1 = ss_RehomeEpoch (rehome_bump applied rec)" "st1 = set_session ws sid (rehome_bump applied rec) st"
    using assms(3) tok by (metis option.inject)
  have "GetSession ws sid st1 = Some (rehome_bump applied rec)"
    using assms(3) by (simp add: one(4) GetSession_set_session)
  with ReissueGrant_Some [OF assms(2)] obtain t2 where two: "bk_relayToken bk' = Some t2" "g_RelayToken (rg_Grant rg2) = t2"
    "rg_Epoch rg2 = ss_RehomeEpoch (rehome_bump applied (rehome_bump applied rec))"
    using tok by (metis option.inject)
  have "ss_RehomeEpoch (rehome_bump applied rec) = applied + 1"
    using assms(4-6) i64_Suc by (simp add: rehome_bump_def)
  with one two assms(7) show ?thesis by (simp add: rehome_bump_def)
qed

theorem concurrent_rehome_mints_two_grants_witness:
  "\<exists>st rg1 st1 rg2 st2.
     ReissueGrant rehome_env ((broker_bk OfferAccepted)\<lparr>bk_relayToken := Some ''t1''\<rparr>) rehome_codec ''w'' ''s1'' [] [] 0 st = (Some rg1, st1) \<and>
     ReissueGrant rehome_env ((broker_bk OfferAccepted)\<lparr>bk_relayToken := Some ''t2''\<rparr>) rehome_codec ''w'' ''s1'' [] [] 0 st1 = (Some rg2, st2) \<and>
     rg_Epoch rg1 = rg_Epoch rg2 \<and> g_RelayToken (rg_Grant rg1) \<noteq> g_RelayToken (rg_Grant rg2)"
proof -
  have one: "ReissueGrant rehome_env ((broker_bk OfferAccepted)\<lparr>bk_relayToken := Some ''t1''\<rparr>) rehome_codec ''w'' ''s1'' [] [] 0
      (set_session ''w'' ''s1'' (demo_record\<lparr>ss_GrantScope := ''g'', ss_RehomeEpoch := 0\<rparr>) rehome_ctl) =
    (Some \<lparr>rg_Epoch = 1, rg_SignedGrant = ''t1'', rg_Grant = broker_grant\<lparr>g_RelayToken := ''t1''\<rparr>\<rparr>,
     set_session ''w'' ''s1'' (demo_record\<lparr>ss_GrantScope := ''g'', ss_RehomeEpoch := 1\<rparr>) rehome_ctl)"
    using rehome_step [of "''t1''" 0] by (simp add: i64_def)
  have two: "ReissueGrant rehome_env ((broker_bk OfferAccepted)\<lparr>bk_relayToken := Some ''t2''\<rparr>) rehome_codec ''w'' ''s1'' [] [] 0
      (set_session ''w'' ''s1'' (demo_record\<lparr>ss_GrantScope := ''g'', ss_RehomeEpoch := 1\<rparr>) rehome_ctl) =
    (Some \<lparr>rg_Epoch = 1, rg_SignedGrant = ''t2'', rg_Grant = broker_grant\<lparr>g_RelayToken := ''t2''\<rparr>\<rparr>,
     set_session ''w'' ''s1'' (demo_record\<lparr>ss_GrantScope := ''g'', ss_RehomeEpoch := 1\<rparr>) rehome_ctl)"
    using rehome_step [of "''t2''" 1] by simp
  have get: "GetSession ''w'' ''s1'' (set_session ''w'' ''s1'' (demo_record\<lparr>ss_GrantScope := ''g'', ss_RehomeEpoch := 0\<rparr>) rehome_ctl) =
      Some (demo_record\<lparr>ss_GrantScope := ''g'', ss_RehomeEpoch := 0\<rparr>)"
    by (simp add: GetSession_def set_session_def rehome_ctl_def demo_ctl_def key_of_def demo_record_def)
  from concurrent_rehome_mints_two_grants [OF one two get] have
    "g_RelayToken (broker_grant\<lparr>g_RelayToken := ''t1''\<rparr>) \<noteq> g_RelayToken (broker_grant\<lparr>g_RelayToken := ''t2''\<rparr>)"
    by (simp add: i64_range_def)
  with one two show ?thesis by fastforce
qed

end
