(* ===== verification/Node_Admission.thy ===== *)
theory Node_Admission
  imports Session_Broker "HOL-Library.AList"
begin

text \<open>
  Node admission: the part of \<open>internal/controller/continuousauthz.go\<close> that quarantines, re-approves
  and re-baselines nodes and judges their self-measured binaries, the store transactions it uses
  (\<open>store.go\<close>, \<open>authzstate.go\<close>), the admission of an enrolling host (\<open>enroll.go\<close>) and the refresh of a
  node's region when its control stream opens (\<open>nodecontrol.go\<close>).

  A store operation is one transaction; \<open>ae_commit\<close> says which succeed.  \<open>ae_others\<close> is what other
  handlers do between the transaction a handler decides on and the one that acts on the decision: the
  quarantine lookup and the approval, the measurement and its verdict, the re-read of the node and the
  quarantine, the lookup and the new baseline, the read and the write of the region.  A handler reads
  the clock once.  Details of audit rows are left out; a push of the networks is recorded, not expanded.
\<close>

section \<open>Store\<close>

datatype adm_op = ReadNode | ReadQuarantine | WriteQuarantine | WriteApproval | WriteMeasurement | WriteRepin | WriteNode

record adm_env =
  ae_ctl :: ctl_env
  ae_commit :: "adm_op \<Rightarrow> bool"
  ae_artifacts :: "string + bytes list" \<comment> \<open>the published rows in the order of the store, or the error of the read\<close>
  ae_Signed :: "bytes \<Rightarrow> Signed option" \<comment> \<open>\<open>json.Unmarshal\<close> at the two types\<close>
  ae_Manifest :: "bytes \<Rightarrow> Manifest option"
  ae_others :: "ctl \<Rightarrow> ctl"

definition sha256Len :: nat where "sha256Len = 32"

definition quarantineKey :: "string \<Rightarrow> string \<Rightarrow> string" where
  "quarantineKey ws nodeID = ws @ ''|'' @ nodeID"

fun key_less :: "string \<Rightarrow> string \<Rightarrow> bool" where
  "key_less xs [] = False"
| "key_less [] (y # ys) = True"
| "key_less (x # xs) (y # ys) = (of_char x < (of_char y :: nat) \<or> x = y \<and> key_less xs ys)"

text \<open>A bucket keeps its rows in the order of the keys.\<close>

fun bucket_put :: "string \<Rightarrow> 'v \<Rightarrow> (string \<times> 'v) list \<Rightarrow> (string \<times> 'v) list" where
  "bucket_put k v [] = [(k, v)]"
| "bucket_put k v ((k', v') # rows) =
     (if k = k' then (k, v) # rows
      else if key_less k k' then (k, v) # (k', v') # rows
      else (k', v') # bucket_put k v rows)"

definition PutNode :: "string \<Rightarrow> NodeRecord \<Rightarrow> ctl \<Rightarrow> ctl" where
  "PutNode ws n st =
     st\<lparr>ct_nodes := AList.update (ws, nr_ID n) (n\<lparr>nr_WorkspaceID := ws\<rparr>) (ct_nodes st),
        ct_nodeWS := (ct_nodeWS st)(nr_ID n \<mapsto> ws)\<rparr>"

definition update_node :: "bool \<Rightarrow> string \<Rightarrow> string \<Rightarrow> (NodeRecord \<Rightarrow> NodeRecord) \<Rightarrow> ctl \<Rightarrow> (NodeRecord \<times> ctl) option" where
  "update_node commits ws nodeID f st =
     (case GetNode ws nodeID st of
        None \<Rightarrow> None
      | Some n \<Rightarrow>
          if commits then Some (f n, st\<lparr>ct_nodes := AList.update (ws, nodeID) (f n) (ct_nodes st)\<rparr>) else None)"

definition deny_node :: "NodeRecord \<Rightarrow> NodeRecord" where
  "deny_node n = n\<lparr>nr_Approved := False, nr_ApprovedBy := [], nr_ApprovedAtUnix := 0\<rparr>"

definition QuarantineNode ::
    "adm_env \<Rightarrow> string \<Rightarrow> string \<Rightarrow> string \<Rightarrow> string \<Rightarrow> (string \<times> string) list \<Rightarrow> ctl \<Rightarrow> ctl option" where
  "QuarantineNode env ws nodeID reason actor detail st =
     (case update_node (ae_commit env WriteQuarantine) ws nodeID deny_node st of
        None \<Rightarrow> None
      | Some (n, st1) \<Rightarrow>
          Some (st1\<lparr>ct_quarantines := bucket_put (quarantineKey ws nodeID)
             \<lparr>qr_Workspace = ws, qr_NodeID = nodeID, qr_Reason = reason, qr_Detail = detail, qr_QuarantinedBy = actor,
              qr_QuarantinedUnix = Time_Unix (en_now (ae_ctl env)), qr_HostUUID = nr_HostUUID n\<rparr> (ct_quarantines st1)\<rparr>))"

definition GetQuarantine :: "string \<Rightarrow> string \<Rightarrow> ctl \<Rightarrow> QuarantineRecord option" where
  "GetQuarantine ws nodeID st = map_of (ct_quarantines st) (quarantineKey ws nodeID)"

definition SetNodeApproval :: "adm_env \<Rightarrow> string \<Rightarrow> string \<Rightarrow> bool \<Rightarrow> string \<Rightarrow> ctl \<Rightarrow> ctl option" where
  "SetNodeApproval env ws nodeID approve actor st =
     (case update_node (ae_commit env WriteApproval) ws nodeID
             (if approve then (\<lambda>n. n\<lparr>nr_Approved := True, nr_ApprovedBy := actor,
                                    nr_ApprovedAtUnix := Time_Unix (en_now (ae_ctl env))\<rparr>)
              else deny_node) st of
        None \<Rightarrow> None
      | Some (n, st1) \<Rightarrow>
          Some (if approve then st1\<lparr>ct_quarantines := AList.delete (quarantineKey ws nodeID) (ct_quarantines st1)\<rparr> else st1))"

definition measured :: "bytes \<Rightarrow> int \<Rightarrow> NodeRecord \<Rightarrow> NodeRecord" where
  "measured binHash atUnix n =
     (let n1 = n\<lparr>nr_LastBinaryHash := binHash, nr_LastMeasuredUnix := atUnix\<rparr>
      in if nr_Approved n \<and> nr_ApprovedBinaryHash n = [] then n1\<lparr>nr_ApprovedBinaryHash := binHash\<rparr> else n1)"

text \<open>The result: drift, pinned, and the record as written.\<close>

definition RecordNodeMeasurement ::
    "adm_env \<Rightarrow> string \<Rightarrow> string \<Rightarrow> bytes \<Rightarrow> int \<Rightarrow> ctl \<Rightarrow> (bool \<times> bool \<times> NodeRecord) option \<times> ctl" where
  "RecordNodeMeasurement env ws nodeID binHash atUnix st =
     (if length binHash \<noteq> sha256Len then (None, st)
      else case GetNode ws nodeID st of
          None \<Rightarrow> (None, st)
        | Some n \<Rightarrow>
            (case update_node (ae_commit env WriteMeasurement) ws nodeID (measured binHash atUnix) st of
               None \<Rightarrow> (None, st)
             | Some (n', st1) \<Rightarrow>
                 (Some (nr_Approved n \<and> nr_ApprovedBinaryHash n \<noteq> [] \<and> nr_ApprovedBinaryHash n \<noteq> binHash,
                        nr_Approved n \<and> nr_ApprovedBinaryHash n = [], n'), st1)))"

definition repinned :: "bytes \<Rightarrow> int \<Rightarrow> NodeRecord \<Rightarrow> NodeRecord" where
  "repinned binHash createdUnix n =
     n\<lparr>nr_ApprovedBinaryHash := binHash, nr_ApprovedBinaryCreatedUnix := createdUnix, nr_LastBinaryHash := binHash\<rparr>"

definition RepinBaseline :: "adm_env \<Rightarrow> string \<Rightarrow> string \<Rightarrow> bytes \<Rightarrow> int \<Rightarrow> ctl \<Rightarrow> ctl option" where
  "RepinBaseline env ws nodeID binHash createdUnix st =
     map_option snd (update_node (ae_commit env WriteRepin) ws nodeID (repinned binHash createdUnix) st)"

definition publishedManifestMatch :: "adm_env \<Rightarrow> bytes \<Rightarrow> string \<Rightarrow> string \<Rightarrow> Manifest option" where
  "publishedManifestMatch env signedManifest product sha256hex =
     (case DecodeSigned (ae_Signed env) signedManifest of
        Inl _ \<Rightarrow> None
      | Inr sg \<Rightarrow>
          (case ae_Manifest env (s_Payload sg) of
             None \<Rightarrow> None
           | Some m \<Rightarrow> if mf_Product m = product \<and> EqualFold (mf_SHA256 m) sha256hex then Some m else None))"

datatype hash_lookup = Published Manifest | NotPublished | LookupFailed string

fun first_match :: "adm_env \<Rightarrow> string \<Rightarrow> string \<Rightarrow> bytes list \<Rightarrow> Manifest option" where
  "first_match env product sha256hex [] = None"
| "first_match env product sha256hex (row # rows) =
     (case publishedManifestMatch env row product sha256hex of
        Some m \<Rightarrow> Some m
      | None \<Rightarrow> first_match env product sha256hex rows)"

definition PublishedManifestForHash :: "adm_env \<Rightarrow> string \<Rightarrow> string \<Rightarrow> hash_lookup" where
  "PublishedManifestForHash env product sha256hex =
     (if sha256hex = [] then NotPublished
      else case ae_artifacts env of
          Inl e \<Rightarrow> LookupFailed e
        | Inr rows \<Rightarrow> (case first_match env product sha256hex rows of None \<Rightarrow> NotPublished | Some m \<Rightarrow> Published m))"

definition FindQuarantineByHostUUID :: "string \<Rightarrow> string \<Rightarrow> ctl \<Rightarrow> QuarantineRecord option" where
  "FindQuarantineByHostUUID ws uuid st =
     (if uuid = [] then None
      else case filter (\<lambda>q. qr_Workspace q = ws \<and> qr_HostUUID q = uuid) (map snd (ct_quarantines st)) of
          [] \<Rightarrow> None
        | qs \<Rightarrow> Some (last qs))"

section \<open>Quarantine and approval\<close>

definition adm_audit :: "adm_env \<Rightarrow> string \<Rightarrow> string \<Rightarrow> string \<Rightarrow> string \<Rightarrow> ctl \<Rightarrow> ctl" where
  "adm_audit env ws typ actor nodeID st = (if en_audit (ae_ctl env) then append_audit ws typ actor nodeID [] st else st)"

definition repushAllNetworks :: "string \<Rightarrow> ctl \<Rightarrow> ctl" where
  "repushAllNetworks ws st = st\<lparr>ct_repush := ct_repush st @ [ws]\<rparr>"

definition quarantineNode ::
    "adm_env \<Rightarrow> string \<Rightarrow> string \<Rightarrow> string \<Rightarrow> string \<Rightarrow> (string \<times> string) list \<Rightarrow> ctl \<Rightarrow> bool \<times> ctl" where
  "quarantineNode env ws nodeID reason actor detail st =
     (case QuarantineNode env ws nodeID reason actor detail st of
        None \<Rightarrow> (False, st)
      | Some st1 \<Rightarrow>
          (True, adm_audit env ws ''node_quarantined'' actor nodeID
             (repushAllNetworks ws (snd (revokeByNodeID (ae_ctl env) ws nodeID (''quarantined: '' @ reason) st1)))))"

datatype adm_error = ErrReasonRequired | ErrCheckQuarantine | ErrSetApproval | ErrQuarantine | ErrFind find_error | ErrNoMeasurement
  | ErrMeasurementChanged | ErrRepin | ErrAudit | ErrStoreNode

definition approveNodeWithReason ::
    "adm_env \<Rightarrow> string \<Rightarrow> NodeRecord \<Rightarrow> bool \<Rightarrow> string \<Rightarrow> string \<Rightarrow> ctl \<Rightarrow> adm_error option \<times> ctl" where
  "approveNodeWithReason env ws node approve reason0 actor st =
     (let reason = TrimSpace reason0 in
      if \<not> approve then
        (case quarantineNode env ws (nr_ID node) (if reason = [] then ''manual'' else reason) actor [(''name'', nr_Name node)] st of
           (ok, st1) \<Rightarrow> (if ok then None else Some ErrQuarantine, st1))
      else if \<not> ae_commit env ReadQuarantine then (Some ErrCheckQuarantine, st)
      else if GetQuarantine ws (nr_ID node) st \<noteq> None \<and> reason = [] then (Some ErrReasonRequired, st)
      else
        let st0 = ae_others env st in
        case SetNodeApproval env ws (nr_ID node) True actor st0 of
          None \<Rightarrow> (Some ErrSetApproval, st0)
        | Some st1 \<Rightarrow>
            (None, repushAllNetworks ws (adm_audit env (nr_WorkspaceID node) ''node_approval'' actor (nr_ID node) st1)))"

section \<open>Measured binaries\<close>

definition driftQuarantine ::
    "adm_env \<Rightarrow> string \<Rightarrow> string \<Rightarrow> string \<Rightarrow> int \<Rightarrow> (string \<times> string) list \<Rightarrow> ctl \<Rightarrow> ctl" where
  "driftQuarantine env ws nodeID reason measuredUnix detail st =
     (if (case (if ae_commit env ReadNode then GetNode ws nodeID st else None) of
            None \<Rightarrow> False
          | Some fresh \<Rightarrow> nr_Approved fresh \<and> nr_ApprovedAtUnix fresh > measuredUnix) then st
      else
        case quarantineNode env ws nodeID reason ''system'' detail (ae_others env st) of
          (True, st1) \<Rightarrow> st1
        | (False, st1) \<Rightarrow>
            (case SetNodeApproval env ws nodeID False ''system'' st1 of None \<Rightarrow> st1 | Some st2 \<Rightarrow> st2))"

definition evaluateBinaryDrift :: "adm_env \<Rightarrow> string \<Rightarrow> string \<Rightarrow> bytes \<Rightarrow> ctl \<Rightarrow> ctl" where
  "evaluateBinaryDrift env ws nodeID binHash st =
     (if binHash = [] then st
      else
        let measuredUnix = Time_Unix (en_now (ae_ctl env)); h = hex_EncodeToString binHash in
        case RecordNodeMeasurement env ws nodeID binHash measuredUnix st of
          (None, st1) \<Rightarrow> st1
        | (Some (drift, pinned, node), st0) \<Rightarrow>
            let st1 = ae_others env st0 in
            if pinned then
              (case PublishedManifestForHash env ''geneza-agent'' h of
                 Published m \<Rightarrow>
                   (case RepinBaseline env ws nodeID binHash (Time_Unix (mf_CreatedAt m)) st1 of None \<Rightarrow> st1 | Some st2 \<Rightarrow> st2)
               | _ \<Rightarrow> st1)
            else if \<not> drift then st1
            else
              (case PublishedManifestForHash env ''geneza-agent'' h of
                 Published m \<Rightarrow>
                   if nr_ApprovedBinaryCreatedUnix node > 0 \<and> Time_Unix (mf_CreatedAt m) < nr_ApprovedBinaryCreatedUnix node
                   then driftQuarantine env ws nodeID ''binary_downgrade'' measuredUnix
                          [(''measured_hash'', h), (''to_version'', mf_Version m)] st1
                   else
                     (case RepinBaseline env ws nodeID binHash (Time_Unix (mf_CreatedAt m)) st1 of
                        None \<Rightarrow> st1
                      | Some st2 \<Rightarrow> adm_audit env ws ''node_binary_updated'' ''system'' nodeID st2)
               | NotPublished \<Rightarrow>
                   driftQuarantine env ws nodeID ''binary_tamper'' measuredUnix
                     [(''measured_hash'', h), (''expected_hash'', hex_EncodeToString (nr_ApprovedBinaryHash node))] st1
               | LookupFailed e \<Rightarrow>
                   driftQuarantine env ws nodeID ''binary_tamper'' measuredUnix
                     [(''measured_hash'', h), (''lookup_error'', e)] st1))"

definition rebaselineNode ::
    "adm_env \<Rightarrow> string \<Rightarrow> string \<Rightarrow> string \<Rightarrow> string \<Rightarrow> string \<Rightarrow> ctl \<Rightarrow> (string \<times> bool \<times> adm_error option) \<times> ctl" where
  "rebaselineNode env ws nodeRef reason0 expectHash actor st =
     (let reason = TrimSpace reason0 in
      if reason = [] then (([], False, Some ErrReasonRequired), st)
      else case FindNode (ae_commit env ReadNode) ws nodeRef st of
          Inl e \<Rightarrow> (([], False, Some (ErrFind e)), st)
        | Inr node \<Rightarrow>
            if nr_LastBinaryHash node = [] then (([], False, Some ErrNoMeasurement), st)
            else
              let h = hex_EncodeToString (nr_LastBinaryHash node); want = TrimSpace expectHash in
              if want \<noteq> [] \<and> \<not> EqualFold want h then (([], False, Some ErrMeasurementChanged), st)
              else
                let st0 = ae_others env st in
                case RepinBaseline env ws (nr_ID node) (nr_LastBinaryHash node) 0 st0 of
                  None \<Rightarrow> (([], False, Some ErrRepin), st0)
                | Some st1 \<Rightarrow>
                    if \<not> en_audit (ae_ctl env) then (([], False, Some ErrAudit), st1)
                    else
                      let st2 = append_audit ws ''node_rebaselined'' actor (nr_ID node) [] st1 in
                      if nr_Approved node then ((h, True, None), st2)
                      else
                        (case approveNodeWithReason env ws node True (''rebaseline: '' @ reason) actor st2 of
                           (Some e, st3) \<Rightarrow> ((h, False, Some e), st3)
                         | (None, st3) \<Rightarrow> ((h, True, None), st3)))"

section \<open>Enrolment and hello\<close>

text \<open>The gate of \<open>Enroll\<close> that keeps a quarantined host out of automatic approval, and the record it writes.\<close>

definition enroll_approval :: "adm_env \<Rightarrow> string \<Rightarrow> string \<Rightarrow> bool \<Rightarrow> ctl \<Rightarrow> bool" where
  "enroll_approval env ws uuid autoApprove st =
     (if uuid \<noteq> [] \<and> autoApprove
      then ae_commit env ReadQuarantine \<and> FindQuarantineByHostUUID ws uuid st = None
      else autoApprove)"

definition enroll_record :: "adm_env \<Rightarrow> string \<Rightarrow> string \<Rightarrow> (string \<rightharpoonup> string) \<Rightarrow> bytes \<Rightarrow> string \<Rightarrow> string \<Rightarrow> bool \<Rightarrow> NodeRecord" where
  "enroll_record env nodeID name labels noisePub uuid provider ok =
     \<lparr>nr_WorkspaceID = [], nr_ID = nodeID, nr_Name = name, nr_Labels = labels, nr_NoisePub = noisePub, nr_HostUUID = uuid,
      nr_Approved = ok, nr_ApprovedBy = (if ok then ''auto:'' @ provider else []),
      nr_ApprovedAtUnix = (if ok then Time_Unix (en_now (ae_ctl env)) else 0), nr_OverlayIP = [], nr_Region = [],
      nr_ApprovedBinaryHash = [], nr_ApprovedBinaryCreatedUnix = 0, nr_LastBinaryHash = [], nr_LastMeasuredUnix = 0\<rparr>"

definition enroll_admit ::
    "adm_env \<Rightarrow> string \<Rightarrow> string \<Rightarrow> string \<Rightarrow> (string \<rightharpoonup> string) \<Rightarrow> bytes \<Rightarrow> string \<Rightarrow> string \<Rightarrow> bool \<Rightarrow> ctl \<Rightarrow>
     adm_error option \<times> ctl" where
  "enroll_admit env ws nodeID name labels noisePub uuid provider autoApprove st =
     (let ok = enroll_approval env ws uuid autoApprove st;
          st1 = (if autoApprove \<and> \<not> ok \<and> ae_commit env ReadQuarantine
                 then adm_audit env [] ''enroll_quarantined_identity'' provider nodeID st else st)
      in if \<not> ae_commit env WriteNode then (Some ErrStoreNode, st1)
         else
           let st2 = PutNode ws (enroll_record env nodeID name labels noisePub uuid provider ok) st1 in
           if \<not> en_audit (ae_ctl env) then (Some ErrAudit, st2)
           else
             let st3 = append_audit [] ''enroll'' provider nodeID [] st2 in
             (None, if ok then repushAllNetworks ws st3 else st3))"

text \<open>The refresh of the region in \<open>Stream\<close>: a read and a write of the whole record, in two transactions.\<close>

definition canonicalRegion :: "string \<Rightarrow> string" where
  "canonicalRegion region = (if region = [] then ''default'' else region)"

definition refresh_region :: "adm_env \<Rightarrow> string \<Rightarrow> string \<Rightarrow> string \<Rightarrow> ctl \<Rightarrow> ctl" where
  "refresh_region env ws nodeID homeRegion st =
     (let hr = canonicalRegion homeRegion in
      if hr = [] then st
      else case (if ae_commit env ReadNode then GetNode ws nodeID st else None) of
          None \<Rightarrow> st
        | Some n \<Rightarrow>
            if nr_Region n = hr then st
            else let st1 = ae_others env st in
                 if ae_commit env WriteNode then PutNode ws (n\<lparr>nr_Region := hr\<rparr>) st1 else st1)"

text \<open>Clone detection: the address and the last beat of the stream this one displaced.\<close>

definition cloneConflictWindow :: duration where "cloneConflictWindow = 30 * second"

definition detect_clone :: "adm_env \<Rightarrow> string \<Rightarrow> string \<Rightarrow> string \<Rightarrow> (string \<times> gotime) option \<Rightarrow> ctl \<Rightarrow> ctl" where
  "detect_clone env ws nodeID host displaced st =
     (case displaced of
        None \<Rightarrow> st
      | Some (pip, lastSeen) \<Rightarrow>
          if pip \<noteq> [] \<and> pip \<noteq> host \<and> en_now (ae_ctl env) - lastSeen < cloneConflictWindow
          then snd (quarantineNode env ws nodeID ''identity_clone'' ''system'' [(''observed_ip'', host), (''conflict_ip'', pip)] st)
          else st)"

section \<open>Frames\<close>

lemma map_of_bucket_put [simp]: "map_of (bucket_put k v rows) = (map_of rows)(k \<mapsto> v)"
  by (induction k v rows rule: bucket_put.induct) (auto simp: fun_eq_iff)

lemma set_bucket_put: "set (bucket_put k v rows) \<subseteq> insert (k, v) (set rows)"
  by (induction k v rows rule: bucket_put.induct) auto

lemma bucket_put_mem: "(k, v) \<in> set (bucket_put k v rows)"
  by (induction k v rows rule: bucket_put.induct) auto

lemma GetNode_update [simp]:
  "GetNode w m (st\<lparr>ct_nodes := AList.update (ws, n) r (ct_nodes st)\<rparr>) = (if w = ws \<and> m = n then Some r else GetNode w m st)"
  by (simp add: GetNode_def update_conv')

lemma update_node_Some:
  "update_node c ws n f st = Some (r, st1) \<longleftrightarrow>
     c \<and> (\<exists>r0. GetNode ws n st = Some r0 \<and> r = f r0 \<and> st1 = st\<lparr>ct_nodes := AList.update (ws, n) (f r0) (ct_nodes st)\<rparr>)"
  by (auto simp: update_node_def split: option.splits)

lemma audit_fields [simp]:
  "ct_nodes (adm_audit env ws typ a n st) = ct_nodes st"
  "ct_quarantines (adm_audit env ws typ a n st) = ct_quarantines st"
  "ct_sessions (adm_audit env ws typ a n st) = ct_sessions st"
  "ct_nodes (repushAllNetworks ws st) = ct_nodes st"
  "ct_quarantines (repushAllNetworks ws st) = ct_quarantines st"
  "ct_sessions (repushAllNetworks ws st) = ct_sessions st"
  "ct_nodes (append_audit ws typ a n s st) = ct_nodes st"
  "ct_quarantines (append_audit ws typ a n s st) = ct_quarantines st"
  by (simp_all add: adm_audit_def repushAllNetworks_def append_audit_def)

lemma revoke_where_rest: "same_rest st (snd (revoke_where env sel reason recs (k, st)))"
proof (induction recs arbitrary: k st)
  case Nil
  then show ?case by simp
next
  case (Cons rec recs)
  obtain ok st' where r: "revokeSession env rec reason st = (ok, st')" by fastforce
  with revokeSession_rest [of st env rec reason] have "same_rest st st'" by simp
  with Cons.IH [of st'] Cons.IH [of st] show ?case by (simp add: r) (meson same_rest_trans)
qed

lemma revokeByNodeID_rest: "same_rest st (snd (revokeByNodeID env ws n reason st))"
  by (simp add: revokeByNodeID_def revoke_listed_def revoke_where_rest split: option.splits)

lemma revokeByNodeID_fields [simp]:
  "ct_nodes (snd (revokeByNodeID env ws n reason st)) = ct_nodes st"
  "ct_quarantines (snd (revokeByNodeID env ws n reason st)) = ct_quarantines st"
  using revokeByNodeID_rest [of st env ws n reason] by (simp_all add: same_rest_def)

lemma GetNode_nodes: "ct_nodes st = ct_nodes st' \<Longrightarrow> GetNode ws n st = GetNode ws n st'"
  by (simp add: GetNode_def)

section \<open>Live sessions of a node\<close>

lemma revoke_where_other:
  "\<forall>x \<in> set recs. key_of x \<noteq> (w, s) \<Longrightarrow> GetSession w s (snd (revoke_where env sel reason recs (k, st))) = GetSession w s st"
proof (induction recs arbitrary: k st)
  case Nil
  then show ?case by simp
next
  case (Cons rec recs)
  obtain ok st' where r: "revokeSession env rec reason st = (ok, st')" by fastforce
  from Cons.prems have "GetSession w s st' = GetSession w s st"
    using revoke_other [of w s rec env reason st] r by auto
  with Cons show ?case by (simp add: r)
qed

lemma revoke_where_append:
  "revoke_where env sel reason (xs @ ys) p = revoke_where env sel reason ys (revoke_where env sel reason xs p)"
proof (induction xs arbitrary: p)
  case Nil
  then show ?case by (cases p) simp
next
  case (Cons x xs)
  then show ?case by (cases p) (simp add: split_beta)
qed

lemma revoked_when_selected:
  assumes "GetSession w s st = Some r" and "key_of r = (w, s)" and "live_state (ss_State r)"
    and "en_store env MarkRevoked s = Committed"
  shows "\<exists>r'. GetSession w s (snd (revokeSession env r reason st)) = Some r' \<and> ss_State r' = SessionRevoked"
proof -
  from assms(3) have o: "open_state (ss_State r)" by (auto simp: live_state_def open_state_def)
  from revokeSession_get [of env r reason st] obtain b where
    b: "\<forall>w s. GetSession w s (snd (revokeSession env r reason st)) =
        (if w = ss_WorkspaceID r \<and> s = ss_ID r \<and> open_state (ss_State r)
         then map_option ((if en_store env MarkRevoked (ss_ID r) = Committed then mark_revoked env reason else id) \<circ> b)
                (GetSession w s st)
         else GetSession w s st)"
    by (elim exE conjE)
  from assms(2) have k: "w = ss_WorkspaceID r" "s = ss_ID r" by (simp_all add: key_of_def)
  have "GetSession w s (snd (revokeSession env r reason st)) = map_option (mark_revoked env reason \<circ> b) (GetSession w s st)"
    using b [rule_format, of w s] assms(4) o k by simp
  with assms(1) show ?thesis by (simp add: mark_revoked_def)
qed

lemma revoke_listed_own:
  assumes "keyed st" and "en_listSessions env" and "GetSession w s st = Some r" and "live_state (ss_State r)" and "sel r"
    and "en_store env MarkRevoked s = Committed"
  shows "\<exists>r'. GetSession w s (snd (revoke_listed env sel reason st)) = Some r' \<and> ss_State r' = SessionRevoked"
proof -
  let ?recs = "map snd (ct_sessions st)"
  from keyed_get [OF assms(1,3)] have r: "r \<in> set ?recs" "key_of r = (w, s)" by blast+
  then obtain xs ys where recs: "?recs = xs @ r # ys"
    and xs: "\<forall>x \<in> set xs. key_of x \<noteq> (w, s)" and ys: "\<forall>x \<in> set ys. key_of x \<noteq> (w, s)"
    using split_at_key [OF keyed_list [OF assms(1)] r(1)] by (auto simp: key_of_def)
  obtain k st1 where p: "revoke_where env sel reason xs (0, st) = (k, st1)" by fastforce
  with revoke_where_other [OF xs, of env sel reason 0 st] assms(3) have g: "GetSession w s st1 = Some r" by simp
  obtain ok st2 where q: "revokeSession env r reason st1 = (ok, st2)" by fastforce
  with revoked_when_selected [OF g r(2) assms(4,6), of reason] obtain r'
    where r': "GetSession w s st2 = Some r'" "ss_State r' = SessionRevoked" by auto
  have "revoke_listed env sel reason st = revoke_where env sel reason ys (if ok then k + 1 else k, st2)"
    using assms(2,4,5) unfolding revoke_listed_def ListAllSessions_def
    by (simp only: if_True option.case recs revoke_where_append p) (simp add: q)
  with revoke_where_other [OF ys, of env sel reason "if ok then k + 1 else k" st2] r' show ?thesis by simp
qed

section \<open>A quarantined node is not approved\<close>

definition has_row :: "string \<Rightarrow> string \<Rightarrow> ctl \<Rightarrow> bool" where
  "has_row ws n st \<longleftrightarrow> (\<exists>q \<in> set (map snd (ct_quarantines st)). qr_Workspace q = ws \<and> qr_NodeID q = n)"

definition node_rows_ok :: "ctl \<Rightarrow> bool" where
  "node_rows_ok st \<longleftrightarrow>
     distinct (map fst (ct_nodes st)) \<and> (\<forall>e \<in> set (ct_nodes st). nr_ID (snd e) = snd (fst e)) \<and>
     (\<forall>e \<in> set (ct_quarantines st). fst e = quarantineKey (qr_Workspace (snd e)) (qr_NodeID (snd e)))"

definition sealed :: "ctl \<Rightarrow> bool" where
  "sealed st \<longleftrightarrow>
     node_rows_ok st \<and> (\<forall>ws n r. has_row ws n st \<longrightarrow> GetNode ws n st = Some r \<longrightarrow> \<not> nr_Approved r)"

lemma sealed_cong: "ct_nodes st' = ct_nodes st \<Longrightarrow> ct_quarantines st' = ct_quarantines st \<Longrightarrow> sealed st' \<longleftrightarrow> sealed st"
  by (simp add: sealed_def node_rows_ok_def has_row_def GetNode_def)

lemma set_update: "set (AList.update k v xs) \<subseteq> insert (k, v) (set xs)"
  by (induction xs) auto

lemma sealed_update:
  assumes "sealed st" and "nr_ID r = n" and "nr_Approved r \<longrightarrow> \<not> has_row ws n st"
  shows "sealed (st\<lparr>ct_nodes := AList.update (ws, n) r (ct_nodes st)\<rparr>)"
proof -
  have "node_rows_ok (st\<lparr>ct_nodes := AList.update (ws, n) r (ct_nodes st)\<rparr>)"
    using assms(1,2) set_update [of "(ws, n)" r "ct_nodes st"]
    by (auto simp: sealed_def node_rows_ok_def distinct_update)
  moreover have "has_row w m (st\<lparr>ct_nodes := x\<rparr>) \<longleftrightarrow> has_row w m st" for w m x by (simp add: has_row_def)
  ultimately show ?thesis using assms by (auto simp: sealed_def)
qed

lemma sealed_id: "sealed st \<Longrightarrow> GetNode ws n st = Some r \<Longrightarrow> nr_ID r = n"
  by (force simp: sealed_def node_rows_ok_def GetNode_def dest: map_of_SomeD)

lemma sealed_row:
  assumes "sealed st" and "\<forall>r. GetNode ws n st = Some r \<longrightarrow> \<not> nr_Approved r" and "qr_Workspace q = ws" and "qr_NodeID q = n"
  shows "sealed (st\<lparr>ct_quarantines := bucket_put (quarantineKey ws n) q (ct_quarantines st)\<rparr>)"
proof -
  note sub = set_bucket_put [of "quarantineKey ws n" q "ct_quarantines st"]
  let ?st = "st\<lparr>ct_quarantines := bucket_put (quarantineKey ws n) q (ct_quarantines st)\<rparr>"
  have "node_rows_ok ?st" using assms sub by (auto simp: sealed_def node_rows_ok_def)
  moreover have "has_row w m ?st \<Longrightarrow> (w, m) = (ws, n) \<or> has_row w m st" for w m
    using sub assms(3,4) by (auto simp: has_row_def)
  moreover have "GetNode w m ?st = GetNode w m st" for w m by (simp add: GetNode_def)
  ultimately show ?thesis using assms(1,2) unfolding sealed_def by (metis prod.inject)
qed

lemma delete_rows:
  assumes "sealed st"
  shows "sealed (st\<lparr>ct_quarantines := AList.delete (quarantineKey ws n) (ct_quarantines st)\<rparr>)"
    and "\<not> has_row ws n (st\<lparr>ct_quarantines := AList.delete (quarantineKey ws n) (ct_quarantines st)\<rparr>)"
proof -
  have sub: "set (AList.delete (quarantineKey ws n) (ct_quarantines st)) \<subseteq> set (ct_quarantines st)"
    by (auto simp: AList.delete_eq)
  let ?st = "st\<lparr>ct_quarantines := AList.delete (quarantineKey ws n) (ct_quarantines st)\<rparr>"
  have "node_rows_ok ?st" using assms sub by (auto simp: sealed_def node_rows_ok_def)
  moreover have "has_row w m ?st \<Longrightarrow> has_row w m st" for w m using sub by (auto simp: has_row_def)
  moreover have "GetNode w m ?st = GetNode w m st" for w m by (simp add: GetNode_def)
  ultimately show "sealed ?st" using assms unfolding sealed_def by metis
  show "\<not> has_row ws n (st\<lparr>ct_quarantines := AList.delete (quarantineKey ws n) (ct_quarantines st)\<rparr>)"
    using assms by (auto simp: sealed_def node_rows_ok_def has_row_def AList.delete_eq)
qed

section \<open>Every transaction keeps it\<close>

lemma deny_node_fields [simp]: "nr_ID (deny_node r) = nr_ID r" "\<not> nr_Approved (deny_node r)"
    "nr_ApprovedBinaryHash (deny_node r) = nr_ApprovedBinaryHash r" "nr_HostUUID (deny_node r) = nr_HostUUID r"
  by (simp_all add: deny_node_def)

lemma measured_fields [simp]: "nr_ID (measured h t r) = nr_ID r" "nr_Approved (measured h t r) = nr_Approved r"
    "nr_HostUUID (measured h t r) = nr_HostUUID r" "nr_ApprovedAtUnix (measured h t r) = nr_ApprovedAtUnix r"
    "nr_ApprovedBinaryCreatedUnix (measured h t r) = nr_ApprovedBinaryCreatedUnix r"
  by (simp_all add: measured_def Let_def)

lemma sealed_keep:
  assumes "sealed st" and "GetNode ws n st = Some r" and "nr_ID (f r) = nr_ID r" and "nr_Approved (f r) \<longrightarrow> nr_Approved r"
  shows "sealed (st\<lparr>ct_nodes := AList.update (ws, n) (f r) (ct_nodes st)\<rparr>)"
  using assms sealed_id [OF assms(1,2)] by (intro sealed_update) (auto simp: sealed_def)

lemma sealed_QuarantineNode:
  assumes "sealed st" and "QuarantineNode env ws n reason actor detail st = Some st1"
  shows "sealed st1"
proof -
  from assms(2) obtain r where r: "GetNode ws n st = Some r" and st1: "st1 =
     (st\<lparr>ct_nodes := AList.update (ws, n) (deny_node r) (ct_nodes st)\<rparr>)\<lparr>ct_quarantines := bucket_put (quarantineKey ws n)
       \<lparr>qr_Workspace = ws, qr_NodeID = n, qr_Reason = reason, qr_Detail = detail, qr_QuarantinedBy = actor,
        qr_QuarantinedUnix = Time_Unix (en_now (ae_ctl env)), qr_HostUUID = nr_HostUUID (deny_node r)\<rparr>
       (ct_quarantines (st\<lparr>ct_nodes := AList.update (ws, n) (deny_node r) (ct_nodes st)\<rparr>))\<rparr>"
    by (auto simp: QuarantineNode_def update_node_Some split: option.splits)
  show ?thesis unfolding st1
    by (rule sealed_row) (simp_all add: sealed_keep [OF assms(1) r])
qed

lemma sealed_SetNodeApproval:
  assumes "sealed st" and "SetNodeApproval env ws n approve actor st = Some st1"
  shows "sealed st1"
proof (cases approve)
  case False
  with assms(2) obtain r where "GetNode ws n st = Some r"
    and "st1 = st\<lparr>ct_nodes := AList.update (ws, n) (deny_node r) (ct_nodes st)\<rparr>"
    by (auto simp: SetNodeApproval_def update_node_Some split: option.splits)
  with assms(1) show ?thesis by (simp add: sealed_keep)
next
  case True
  let ?st = "st\<lparr>ct_quarantines := AList.delete (quarantineKey ws n) (ct_quarantines st)\<rparr>"
  let ?app = "\<lambda>r. r\<lparr>nr_Approved := True, nr_ApprovedBy := actor, nr_ApprovedAtUnix := Time_Unix (en_now (ae_ctl env))\<rparr>"
  from True assms(2) obtain r where r: "GetNode ws n st = Some r"
    and st1: "st1 = ?st\<lparr>ct_nodes := AList.update (ws, n) (?app r) (ct_nodes ?st)\<rparr>"
    by (auto simp: SetNodeApproval_def update_node_Some split: option.splits)
  show ?thesis unfolding st1
    using sealed_id [OF assms(1) r] delete_rows [OF assms(1)] by (intro sealed_update) simp_all
qed

lemma sealed_measure:
  assumes "sealed st" and "RecordNodeMeasurement env ws n h t st = (x, st1)"
  shows "sealed st1"
  using assms by (auto simp: RecordNodeMeasurement_def update_node_Some sealed_keep split: if_splits option.splits)

lemma sealed_repin:
  assumes "sealed st" and "RepinBaseline env ws n h t st = Some st1"
  shows "sealed st1"
  using assms by (auto simp: RepinBaseline_def update_node_Some repinned_def intro: sealed_keep)

lemma sealed_side [simp]:
  "sealed (adm_audit env ws typ a n st) \<longleftrightarrow> sealed st" "sealed (repushAllNetworks ws st) \<longleftrightarrow> sealed st"
  "sealed (append_audit ws typ a n s st) \<longleftrightarrow> sealed st"
  "sealed (snd (revokeByNodeID e ws n reason st)) \<longleftrightarrow> sealed st"
  by (rule sealed_cong; simp)+

section \<open>Every handler keeps it\<close>

text \<open>What the other handlers do in a gap keeps the invariant.\<close>

definition calm :: "adm_env \<Rightarrow> bool" where
  "calm env \<longleftrightarrow> (\<forall>s. sealed s \<longrightarrow> sealed (ae_others env s))"

lemma sealed_quarantineNode: "sealed st \<Longrightarrow> sealed (snd (quarantineNode env ws n reason actor detail st))"
  by (auto simp: quarantineNode_def split: option.splits dest: sealed_QuarantineNode)

lemma sealed_approve:
  assumes "sealed st" and "calm env"
  shows "sealed (snd (approveNodeWithReason env ws node approve reason actor st))"
proof -
  have "sealed (ae_others env st)" using assms by (simp add: calm_def)
  with assms(1) show ?thesis
    using sealed_quarantineNode [OF assms(1)]
    by (auto simp: approveNodeWithReason_def Let_def split_beta split: option.splits dest: sealed_SetNodeApproval)
qed

lemma sealed_driftQuarantine:
  assumes "sealed st" and "calm env"
  shows "sealed (driftQuarantine env ws n reason t detail st)"
proof -
  obtain ok st1 where q: "quarantineNode env ws n reason ''system'' detail (ae_others env st) = (ok, st1)" by fastforce
  have "sealed (ae_others env st)" using assms by (simp add: calm_def)
  then have "sealed st1" using sealed_quarantineNode [of "ae_others env st" env ws n reason "''system''" detail] q by simp
  with assms(1) show ?thesis
    by (auto simp: driftQuarantine_def q split: bool.splits option.splits dest: sealed_SetNodeApproval)
qed

lemma sealed_drift:
  assumes "sealed st" and "calm env"
  shows "sealed (evaluateBinaryDrift env ws n h st)"
proof -
  obtain x st0 where m: "RecordNodeMeasurement env ws n h (Time_Unix (en_now (ae_ctl env))) st = (x, st0)" by fastforce
  have "sealed st0" by (rule sealed_measure [OF assms(1) m])
  moreover from this have "sealed (ae_others env st0)" using assms(2) by (simp add: calm_def)
  ultimately show ?thesis using assms(1)
    by (auto simp: evaluateBinaryDrift_def m Let_def sealed_driftQuarantine [OF _ assms(2)]
        split: option.splits hash_lookup.splits dest: sealed_repin)
qed

lemma sealed_rebaseline:
  assumes "sealed st" and "calm env"
  shows "sealed (snd (rebaselineNode env ws ref reason expect actor st))"
proof -
  have o: "sealed (ae_others env st)" using assms by (simp add: calm_def)
  have a: "sealed s \<Longrightarrow> approveNodeWithReason env ws node True why actor s = (e, s') \<Longrightarrow> sealed s'" for s node why e s'
    using sealed_approve [OF _ assms(2), of s ws node True why actor] by simp
  show ?thesis using assms(1) o
    by (auto simp: rebaselineNode_def Let_def split: sum.splits option.splits prod.splits dest: sealed_repin
        elim!: a [rotated])
qed

lemma sealed_clone: "sealed st \<Longrightarrow> sealed (detect_clone env ws n host displaced st)"
  by (simp add: detect_clone_def sealed_quarantineNode split: option.splits prod.splits)

lemma sealed_PutNode:
  assumes "sealed st" and "nr_Approved r \<longrightarrow> \<not> has_row ws (nr_ID r) st"
  shows "sealed (PutNode ws r st)"
proof -
  have "sealed (st\<lparr>ct_nodes := AList.update (ws, nr_ID r) (r\<lparr>nr_WorkspaceID := ws\<rparr>) (ct_nodes st)\<rparr>)"
    by (rule sealed_update [OF assms(1)]) (use assms(2) in simp_all)
  then show ?thesis unfolding PutNode_def by (subst sealed_cong) simp_all
qed

lemma has_row_side [simp]: "has_row ws n (adm_audit env w typ a m st) \<longleftrightarrow> has_row ws n st"
  by (simp add: has_row_def)

lemma sealed_enroll:
  assumes "sealed st" and "\<not> has_row ws n st"
  shows "sealed (snd (enroll_admit env ws n name labels pub uuid provider auto st))"
proof -
  have "sealed (PutNode ws (enroll_record env n name labels pub uuid provider ok) s)"
    if "s = st \<or> s = adm_audit env [] ''enroll_quarantined_identity'' provider n st" for ok s
    by (rule sealed_PutNode) (use that assms in \<open>auto simp: enroll_record_def\<close>)
  with assms(1) show ?thesis by (simp add: enroll_admit_def Let_def)
qed

lemma sealed_region:
  assumes "sealed st" and "ae_others env = id"
  shows "sealed (refresh_region env ws n region st)"
proof (cases "\<exists>r. GetNode ws n st = Some r")
  case True
  then obtain r where r: "GetNode ws n st = Some r" by blast
  have "sealed (PutNode ws (r\<lparr>nr_Region := canonicalRegion region\<rparr>) st)"
    by (rule sealed_PutNode) (use assms(1) r sealed_id [OF assms(1) r] in \<open>auto simp: sealed_def\<close>)
  with assms r show ?thesis by (simp add: refresh_region_def Let_def)
next
  case False
  then show ?thesis using assms(1) by (simp add: refresh_region_def Let_def)
qed

section \<open>Histories\<close>

text \<open>An id is drawn at random; the history draws fresh ones.\<close>

datatype adm_event =
    AdQuarantine adm_env string string string string "(string \<times> string) list"
  | AdApprove adm_env string NodeRecord bool string string
  | AdBeat adm_env string string bytes
  | AdRebaseline adm_env string string string string string
  | AdEnroll adm_env string string string "string \<rightharpoonup> string" bytes string string bool
  | AdClone adm_env string string string "(string \<times> gotime) option"
  | AdRegion adm_env string string string

fun adm_step :: "ctl \<Rightarrow> adm_event \<Rightarrow> ctl" where
  "adm_step st (AdQuarantine env ws n reason actor detail) = snd (quarantineNode env ws n reason actor detail st)"
| "adm_step st (AdApprove env ws node approve reason actor) = snd (approveNodeWithReason env ws node approve reason actor st)"
| "adm_step st (AdBeat env ws n h) = evaluateBinaryDrift env ws n h st"
| "adm_step st (AdRebaseline env ws ref reason expect actor) = snd (rebaselineNode env ws ref reason expect actor st)"
| "adm_step st (AdEnroll env ws n name labels pub uuid provider auto) =
     (if GetNode ws n st = None \<and> \<not> has_row ws n st
      then snd (enroll_admit env ws n name labels pub uuid provider auto st) else st)"
| "adm_step st (AdClone env ws n host displaced) = detect_clone env ws n host displaced st"
| "adm_step st (AdRegion env ws n region) = refresh_region env ws n region st"

text \<open>The other handlers keep the invariant in the gaps, and nothing comes between the read and the write of a region.\<close>

fun orderly :: "adm_event \<Rightarrow> bool" where
  "orderly (AdQuarantine env _ _ _ _ _) = True"
| "orderly (AdApprove env _ _ _ _ _) = calm env"
| "orderly (AdBeat env _ _ _) = calm env"
| "orderly (AdRebaseline env _ _ _ _ _) = calm env"
| "orderly (AdEnroll env _ _ _ _ _ _ _ _) = True"
| "orderly (AdClone env _ _ _ _) = True"
| "orderly (AdRegion env _ _ _) = (ae_others env = id)"

lemma sealed_step: "sealed st \<Longrightarrow> orderly ev \<Longrightarrow> sealed (adm_step st ev)"
  by (cases ev) (simp_all add: sealed_quarantineNode sealed_approve sealed_drift sealed_rebaseline sealed_enroll
      sealed_clone sealed_region)

lemma sealed_run: "sealed st \<Longrightarrow> \<forall>ev \<in> set evs. orderly ev \<Longrightarrow> sealed (foldl adm_step st evs)"
  by (induction evs arbitrary: st) (simp_all add: sealed_step)

section \<open>The verdict on a binary\<close>

text \<open>The controller did not publish the binary, cannot tell, or published it before the one the node is pinned to.\<close>

definition unvetted :: "adm_env \<Rightarrow> NodeRecord \<Rightarrow> bytes \<Rightarrow> bool" where
  "unvetted env r h \<longleftrightarrow>
     (case PublishedManifestForHash env ''geneza-agent'' (hex_EncodeToString h) of
        Published m \<Rightarrow> nr_ApprovedBinaryCreatedUnix r > 0 \<and> Time_Unix (mf_CreatedAt m) < nr_ApprovedBinaryCreatedUnix r
      | _ \<Rightarrow> True)"

text \<open>A beat that reports another binary than the pinned one, measured no earlier than the approval.\<close>

definition drifts :: "adm_env \<Rightarrow> NodeRecord \<Rightarrow> bytes \<Rightarrow> bool" where
  "drifts env r h \<longleftrightarrow>
     length h = sha256Len \<and> ae_commit env WriteMeasurement \<and> nr_Approved r \<and> nr_ApprovedBinaryHash r \<noteq> [] \<and>
     nr_ApprovedBinaryHash r \<noteq> h \<and> nr_ApprovedAtUnix r \<le> Time_Unix (en_now (ae_ctl env))"

definition after_measure :: "adm_env \<Rightarrow> string \<Rightarrow> string \<Rightarrow> bytes \<Rightarrow> NodeRecord \<Rightarrow> ctl \<Rightarrow> ctl" where
  "after_measure env ws n h r st =
     st\<lparr>ct_nodes := AList.update (ws, n) (measured h (Time_Unix (en_now (ae_ctl env))) r) (ct_nodes st)\<rparr>"

lemma after_measure_fields [simp]:
  "GetNode ws n (after_measure env ws n h r st) = Some (measured h (Time_Unix (en_now (ae_ctl env))) r)"
  "ct_sessions (after_measure env ws n h r st) = ct_sessions st"
  "ct_quarantines (after_measure env ws n h r st) = ct_quarantines st"
  by (simp_all add: after_measure_def)

lemma measured_baseline: "nr_ApprovedBinaryHash r \<noteq> [] \<Longrightarrow> nr_ApprovedBinaryHash (measured h t r) = nr_ApprovedBinaryHash r"
  by (simp add: measured_def Let_def)

lemma drift_verdict:
  assumes "GetNode ws n st = Some r" and "drifts env r h" and "unvetted env r h" and "ae_others env = id"
  shows "\<exists>reason detail. reason \<in> {''binary_tamper'', ''binary_downgrade''} \<and>
     evaluateBinaryDrift env ws n h st =
       driftQuarantine env ws n reason (Time_Unix (en_now (ae_ctl env))) detail (after_measure env ws n h r st)"
proof -
  let ?t = "Time_Unix (en_now (ae_ctl env))"
  have ne: "h \<noteq> []" using assms(2) by (auto simp: drifts_def sha256Len_def)
  have m: "RecordNodeMeasurement env ws n h ?t st = (Some (True, False, measured h ?t r), after_measure env ws n h r st)"
    using assms(1,2) by (auto simp: RecordNodeMeasurement_def drifts_def update_node_def after_measure_def)
  show ?thesis
  proof (cases "PublishedManifestForHash env ''geneza-agent'' (hex_EncodeToString h)")
    case (Published p)
    with assms(3) show ?thesis
      by (intro exI [of _ "''binary_downgrade''"])
        (simp add: evaluateBinaryDrift_def ne m assms(4) unvetted_def Let_def, blast)
  next
    case NotPublished
    then show ?thesis
      by (intro exI [of _ "''binary_tamper''"]) (simp add: evaluateBinaryDrift_def ne m assms(4) Let_def, blast)
  next
    case (LookupFailed e)
    then show ?thesis
      by (intro exI [of _ "''binary_tamper''"]) (simp add: evaluateBinaryDrift_def ne m assms(4) Let_def, blast)
  qed
qed

lemma quarantineNode_effect:
  assumes "GetNode ws n st = Some r" and "ae_commit env WriteQuarantine"
  shows "fst (quarantineNode env ws n reason actor detail st)"
    and "GetNode ws n (snd (quarantineNode env ws n reason actor detail st)) = Some (deny_node r)"
    and "\<exists>q. GetQuarantine ws n (snd (quarantineNode env ws n reason actor detail st)) = Some q \<and> qr_Workspace q = ws \<and>
           qr_NodeID q = n \<and> qr_Reason q = reason \<and> qr_HostUUID q = nr_HostUUID r"
  using assms by (simp_all add: quarantineNode_def QuarantineNode_def update_node_def GetNode_def GetQuarantine_def update_conv')

lemma quarantineNode_sessions:
  assumes "GetNode ws n st = Some r" and "ae_commit env WriteQuarantine" and "keyed st" and "en_listSessions (ae_ctl env)"
    and "GetSession ws s st = Some rec" and "ss_NodeID rec = n" and "live_state (ss_State rec)"
    and "en_store (ae_ctl env) MarkRevoked s = Committed"
  shows "\<exists>rec'. GetSession ws s (snd (quarantineNode env ws n reason actor detail st)) = Some rec' \<and> ss_State rec' = SessionRevoked"
proof -
  from assms(1,2) obtain st1 where q: "QuarantineNode env ws n reason actor detail st = Some st1"
    and c: "ct_sessions st1 = ct_sessions st"
    by (simp add: QuarantineNode_def update_node_def)
  have "key_of rec = (ws, s)" using keyed_get [OF assms(3,5)] by blast
  then have w: "ss_WorkspaceID rec = ws" by (simp add: key_of_def)
  have k: "keyed st1" "GetSession ws s st1 = Some rec" using assms(3,5) c by (simp_all add: keyed_def GetSession_def)
  obtain rec' where r': "GetSession ws s (snd (revokeByNodeID (ae_ctl env) ws n (''quarantined: '' @ reason) st1)) = Some rec'"
    "ss_State rec' = SessionRevoked"
    using revoke_listed_own [OF k(1) assms(4) k(2) assms(7), of "\<lambda>rec. ss_WorkspaceID rec = ws \<and> ss_NodeID rec = n"]
      assms(6,8) w by (auto simp: revokeByNodeID_def)
  have "GetSession ws s (snd (quarantineNode env ws n reason actor detail st)) =
      GetSession ws s (snd (revokeByNodeID (ae_ctl env) ws n (''quarantined: '' @ reason) st1))"
    by (rule GetSession_cong) (simp add: quarantineNode_def q)
  with r' show ?thesis by simp
qed

lemma driftQuarantine_runs:
  assumes "GetNode ws n st = Some r" and "nr_ApprovedAtUnix r \<le> t" and "ae_others env = id"
  shows "ae_commit env WriteQuarantine \<Longrightarrow>
      driftQuarantine env ws n reason t detail st = snd (quarantineNode env ws n reason ''system'' detail st)"
    and "\<not> ae_commit env WriteQuarantine \<Longrightarrow> ae_commit env WriteApproval \<Longrightarrow>
      GetNode ws n (driftQuarantine env ws n reason t detail st) = Some (deny_node r)"
proof -
  assume c: "ae_commit env WriteQuarantine"
  obtain ok st1 where q: "quarantineNode env ws n reason ''system'' detail st = (ok, st1)" by fastforce
  with quarantineNode_effect(1) [OF assms(1) c, of reason "''system''" detail] have ok by simp
  with q assms show "driftQuarantine env ws n reason t detail st = snd (quarantineNode env ws n reason ''system'' detail st)"
    by (simp add: driftQuarantine_def)
next
  assume "\<not> ae_commit env WriteQuarantine" "ae_commit env WriteApproval"
  with assms show "GetNode ws n (driftQuarantine env ws n reason t detail st) = Some (deny_node r)"
    by (simp add: driftQuarantine_def quarantineNode_def QuarantineNode_def update_node_def SetNodeApproval_def)
qed

lemma drift_closes_the_gate:
  assumes "GetNode ws n st = Some r" and d: "drifts env r h" and "unvetted env r h" and o: "ae_others env = id"
    and c: "ae_commit env WriteQuarantine \<or> ae_commit env WriteApproval"
  shows "\<exists>r'. GetNode ws n (evaluateBinaryDrift env ws n h st) = Some r' \<and> \<not> nr_Approved r' \<and>
     nr_ApprovedBinaryHash r' = nr_ApprovedBinaryHash r"
proof -
  let ?t = "Time_Unix (en_now (ae_ctl env))" and ?s = "after_measure env ws n h r st"
  obtain reason detail where e: "evaluateBinaryDrift env ws n h st = driftQuarantine env ws n reason ?t detail ?s"
    using drift_verdict [OF assms(1-4)] by blast
  have g: "GetNode ws n ?s = Some (measured h ?t r)" by simp
  have le: "nr_ApprovedAtUnix (measured h ?t r) \<le> ?t" using d by (simp add: drifts_def)
  have "GetNode ws n (driftQuarantine env ws n reason ?t detail ?s) = Some (deny_node (measured h ?t r))"
  proof (cases "ae_commit env WriteQuarantine")
    case True
    then show ?thesis
      by (simp only: driftQuarantine_runs(1) [OF g le o True] quarantineNode_effect(2) [OF g True])
  next
    case False
    with c have "ae_commit env WriteApproval" by blast
    then show ?thesis by (rule driftQuarantine_runs(2) [OF g le o False])
  qed
  moreover have "nr_ApprovedBinaryHash r \<noteq> []" using d by (simp add: drifts_def)
  ultimately show ?thesis by (simp add: e measured_baseline)
qed

section \<open>Example\<close>

definition adm_demo :: adm_env where
  "adm_demo = \<lparr>ae_ctl = demo_ctl_env, ae_commit = (\<lambda>_. True), ae_artifacts = Inr [], ae_Signed = (\<lambda>_. None),
     ae_Manifest = (\<lambda>_. None), ae_others = id\<rparr>"

definition adm_node :: NodeRecord where
  "adm_node =
     \<lparr>nr_WorkspaceID = ''w'', nr_ID = ''n1'', nr_Name = ''n1'', nr_Labels = Map.empty, nr_NoisePub = replicate 32 CHR ''n'',
      nr_HostUUID = ''u'', nr_Approved = True, nr_ApprovedBy = ''root'', nr_ApprovedAtUnix = Time_Unix 0, nr_OverlayIP = [],
      nr_Region = ''default'', nr_ApprovedBinaryHash = replicate 32 CHR ''a'', nr_ApprovedBinaryCreatedUnix = 0,
      nr_LastBinaryHash = replicate 32 CHR ''a'', nr_LastMeasuredUnix = 0\<rparr>"

definition adm_row :: QuarantineRecord where
  "adm_row = \<lparr>qr_Workspace = ''w'', qr_NodeID = ''n0'', qr_Reason = ''manual'', qr_Detail = [], qr_QuarantinedBy = ''root'',
     qr_QuarantinedUnix = 0, qr_HostUUID = ''u''\<rparr>"

definition adm_ctl :: ctl where
  "adm_ctl = (demo_ctl [demo_record])\<lparr>ct_nodes := [((''w'', ''n1''), adm_node)]\<rparr>"

lemma adm_get [simp]: "GetNode ''w'' ''n1'' adm_ctl = Some adm_node"
  by (simp add: GetNode_def adm_ctl_def)

lemma adm_demo_fields [simp]: "ae_others adm_demo = id" "ae_commit adm_demo op" "ae_ctl adm_demo = demo_ctl_env"
  by (simp_all add: adm_demo_def)

lemma adm_sealed: "sealed adm_ctl"
  by (simp add: sealed_def node_rows_ok_def has_row_def adm_ctl_def demo_ctl_def adm_node_def)

lemma adm_drifts: "drifts adm_demo adm_node (replicate 32 CHR ''b'')" "unvetted adm_demo adm_node (replicate 32 CHR ''b'')"
  by (simp_all add: drifts_def unvetted_def sha256Len_def adm_node_def demo_ctl_env_def numeral_eq_Suc
      PublishedManifestForHash_def adm_demo_def)

section \<open>Properties\<close>

text \<open>
  C13: A binary the controller cannot vouch for takes the node out of service.  When an approved node
  reports another binary than the one it is pinned to, and the controller did not publish it, cannot
  look it up, or published it before the pinned release, then, with nothing in between: the node is no
  longer approved if either of the two writes that can close the gate commits, and keeps its baseline;
  and if the quarantine commits, its cause and the host's identity are on record and every live session
  of the node whose record can be written is revoked.
\<close>

theorem unvetted_binary_is_taken_out:
  assumes get: "GetNode ws n st = Some r" and d: "drifts env r h" and u: "unvetted env r h" and o: "ae_others env = id"
  defines "st' \<equiv> evaluateBinaryDrift env ws n h st"
  shows "(ae_commit env WriteQuarantine \<or> ae_commit env WriteApproval \<longrightarrow>
       (\<exists>r'. GetNode ws n st' = Some r' \<and> \<not> nr_Approved r' \<and> nr_ApprovedBinaryHash r' = nr_ApprovedBinaryHash r)) \<and>
     (ae_commit env WriteQuarantine \<longrightarrow>
       (\<exists>q. GetQuarantine ws n st' = Some q \<and> qr_NodeID q = n \<and> qr_HostUUID q = nr_HostUUID r \<and>
          qr_Reason q \<in> {''binary_tamper'', ''binary_downgrade''}) \<and>
       (keyed st \<and> en_listSessions (ae_ctl env) \<longrightarrow>
         (\<forall>s rec. GetSession ws s st = Some rec \<and> ss_NodeID rec = n \<and> live_state (ss_State rec) \<and>
            en_store (ae_ctl env) MarkRevoked s = Committed \<longrightarrow>
            (\<exists>rec'. GetSession ws s st' = Some rec' \<and> ss_State rec' = SessionRevoked))))"
proof (intro conjI impI)
  assume "ae_commit env WriteQuarantine \<or> ae_commit env WriteApproval"
  then show "\<exists>r'. GetNode ws n st' = Some r' \<and> \<not> nr_Approved r' \<and> nr_ApprovedBinaryHash r' = nr_ApprovedBinaryHash r"
    unfolding st'_def by (rule drift_closes_the_gate [OF get d u o])
next
  assume c: "ae_commit env WriteQuarantine"
  let ?s = "after_measure env ws n h r st" and ?t = "Time_Unix (en_now (ae_ctl env))"
  obtain reason detail where reason: "reason \<in> {''binary_tamper'', ''binary_downgrade''}"
    and e: "st' = driftQuarantine env ws n reason ?t detail ?s"
    using drift_verdict [OF get d u o] unfolding st'_def by blast
  have g: "GetNode ws n ?s = Some (measured h ?t r)" by simp
  have le: "nr_ApprovedAtUnix (measured h ?t r) \<le> ?t" using d by (simp add: drifts_def)
  have st': "st' = snd (quarantineNode env ws n reason ''system'' detail ?s)"
    unfolding e by (rule driftQuarantine_runs(1) [OF g le o c])
  show "\<exists>q. GetQuarantine ws n st' = Some q \<and> qr_NodeID q = n \<and> qr_HostUUID q = nr_HostUUID r \<and>
      qr_Reason q \<in> {''binary_tamper'', ''binary_downgrade''}"
    using quarantineNode_effect(3) [OF g c, of reason "''system''" detail] reason unfolding st' by auto
  assume k: "keyed st \<and> en_listSessions (ae_ctl env)"
  then have ks: "keyed ?s" by (simp add: keyed_def)
  have gs: "GetSession ws s ?s = GetSession ws s st" for s by (rule GetSession_cong) simp
  show "\<forall>s rec. GetSession ws s st = Some rec \<and> ss_NodeID rec = n \<and> live_state (ss_State rec) \<and>
      en_store (ae_ctl env) MarkRevoked s = Committed \<longrightarrow>
      (\<exists>rec'. GetSession ws s st' = Some rec' \<and> ss_State rec' = SessionRevoked)"
    using quarantineNode_sessions [OF g c ks] k unfolding st' gs by blast
qed

theorem unvetted_binary_is_taken_out_witness:
  "\<exists>r'. GetNode ''w'' ''n1'' (evaluateBinaryDrift adm_demo ''w'' ''n1'' (replicate 32 CHR ''b'') adm_ctl) = Some r' \<and>
     \<not> nr_Approved r'"
  using unvetted_binary_is_taken_out [OF adm_get adm_drifts adm_demo_fields(1)] by auto


lemma row_has_row:
  "GetQuarantine ws n st = Some q \<Longrightarrow> qr_Workspace q = ws \<Longrightarrow> qr_NodeID q = n \<Longrightarrow> has_row ws n st"
  by (force simp: GetQuarantine_def has_row_def dest: map_of_SomeD)


lemma approve_effect:
  assumes "approveNodeWithReason env ws node True reason actor st = (None, st1)" and "nr_ID node = n"
    and "GetNode ws n (ae_others env st) = Some r"
  shows "GetNode ws n st1 = Some (r\<lparr>nr_Approved := True, nr_ApprovedBy := actor,
      nr_ApprovedAtUnix := Time_Unix (en_now (ae_ctl env))\<rparr>)"
    and "GetQuarantine ws n st1 = None"
  using assms
  by (auto simp: approveNodeWithReason_def SetNodeApproval_def update_node_Some Let_def GetNode_def GetQuarantine_def
      update_conv' delete_conv' split: if_splits option.splits)

text \<open>
  C25: Approving a node again does not launder its binary.  An approval keeps the pinned baseline; if the
  node then still reports an unvetted binary that differs from it, at the approval's second or later,
  the node is unapproved again after that beat, provided one of the two writes that can close the gate
  commits.
\<close>

theorem reapproval_does_not_launder:
  assumes get: "GetNode ws n st = Some r" and id: "nr_ID node = n"
    and ok: "approveNodeWithReason env ws node True reason actor st = (None, st1)"
    and o: "ae_others env = id" "ae_others env' = id"
    and h: "length h = sha256Len" "nr_ApprovedBinaryHash r \<noteq> []" "nr_ApprovedBinaryHash r \<noteq> h" "unvetted env' r h"
    and t: "Time_Unix (en_now (ae_ctl env)) \<le> Time_Unix (en_now (ae_ctl env'))"
    and c: "ae_commit env' WriteMeasurement" "ae_commit env' WriteQuarantine \<or> ae_commit env' WriteApproval"
  shows "(\<exists>r1. GetNode ws n st1 = Some r1 \<and> nr_Approved r1 \<and> nr_ApprovedBinaryHash r1 = nr_ApprovedBinaryHash r) \<and>
     (\<exists>r2. GetNode ws n (evaluateBinaryDrift env' ws n h st1) = Some r2 \<and> \<not> nr_Approved r2)"
proof -
  let ?r = "r\<lparr>nr_Approved := True, nr_ApprovedBy := actor, nr_ApprovedAtUnix := Time_Unix (en_now (ae_ctl env))\<rparr>"
  have g: "GetNode ws n st1 = Some ?r" by (rule approve_effect(1) [OF ok id]) (simp add: o get)
  have d: "drifts env' ?r h" using h t c(1) by (simp add: drifts_def)
  have u: "unvetted env' ?r h" using h(4) by (simp add: unvetted_def split: hash_lookup.splits)
  show ?thesis using drift_closes_the_gate [OF g d u o(2) c(2)] by (auto simp: g)
qed

theorem reapproval_does_not_launder_witness:
  "\<exists>r2. GetNode ''w'' ''n1'' (evaluateBinaryDrift adm_demo ''w'' ''n1'' (replicate 32 CHR ''b'')
     (snd (approveNodeWithReason adm_demo ''w'' adm_node True [] ''root'' adm_ctl))) = Some r2 \<and> \<not> nr_Approved r2"
proof -
  have q: "GetQuarantine ''w'' ''n1'' adm_ctl = None" by (simp add: GetQuarantine_def adm_ctl_def demo_ctl_def)
  have n: "nr_ID adm_node = ''n1''" by (simp add: adm_node_def)
  have t: "TrimSpace [] = []" by (simp add: TrimSpace_def)
  have "fst (approveNodeWithReason adm_demo ''w'' adm_node True [] ''root'' adm_ctl) = None"
    by (simp add: approveNodeWithReason_def SetNodeApproval_def update_node_def Let_def n q t)
  then have a: "approveNodeWithReason adm_demo ''w'' adm_node True [] ''root'' adm_ctl =
      (None, snd (approveNodeWithReason adm_demo ''w'' adm_node True [] ''root'' adm_ctl))" by (simp add: prod_eq_iff)
  show ?thesis
    using reapproval_does_not_launder [OF adm_get n a adm_demo_fields(1) adm_demo_fields(1) _ _ _ adm_drifts(2)] adm_drifts(1)
    by (auto simp: drifts_def)
qed

text \<open>
  C26: A quarantined host cannot enrol its way back.  While a quarantine of the workspace carries a host
  identity, an enrolment that presents the same identity, with any token, any fresh node id and any
  store faults, leaves no approved record under that id and pushes no network.
\<close>

theorem quarantined_host_reenrolls_pending:
  assumes "q \<in> set (map snd (ct_quarantines st))" and "qr_Workspace q = ws" and "qr_HostUUID q = uuid" and "uuid \<noteq> []"
    and "GetNode ws n st = None" and out: "enroll_admit env ws n name labels pub uuid provider autoApprove st = (e, st')"
  shows "(\<forall>r. GetNode ws n st' = Some r \<longrightarrow> \<not> nr_Approved r \<and> nr_HostUUID r = uuid) \<and>
     (e = None \<longrightarrow> GetNode ws n st' \<noteq> None) \<and> ct_repush st' = ct_repush st"
proof -
  have "filter (\<lambda>q. qr_Workspace q = ws \<and> qr_HostUUID q = uuid) (map snd (ct_quarantines st)) \<noteq> []"
    using assms(1-3) by (auto simp: filter_empty_conv)
  then have "FindQuarantineByHostUUID ws uuid st \<noteq> None"
    using assms(4) by (auto simp: FindQuarantineByHostUUID_def split: list.splits)
  then have no: "\<not> enroll_approval env ws uuid autoApprove st" using assms(4) by (simp add: enroll_approval_def)
  show ?thesis using out assms(5)
    by (auto simp: enroll_admit_def no Let_def PutNode_def enroll_record_def GetNode_def update_conv'
        append_audit_def adm_audit_def split: if_splits)
qed

theorem quarantined_host_reenrolls_pending_witness:
  "\<exists>r. GetNode ''w'' ''n2'' (snd (enroll_admit adm_demo ''w'' ''n2'' ''n2'' Map.empty [] ''u'' ''token'' True
      (adm_ctl\<lparr>ct_quarantines := [(quarantineKey ''w'' ''n0'', adm_row)]\<rparr>))) = Some r \<and> \<not> nr_Approved r"
proof -
  let ?st = "adm_ctl\<lparr>ct_quarantines := [(quarantineKey ''w'' ''n0'', adm_row)]\<rparr>"
  obtain e st' where o: "enroll_admit adm_demo ''w'' ''n2'' ''n2'' Map.empty [] ''u'' ''token'' True ?st = (e, st')" by fastforce
  have e: "e = None" using o by (auto simp: enroll_admit_def Let_def demo_ctl_env_def split: if_splits)
  have "adm_row \<in> set (map snd (ct_quarantines ?st))" "qr_Workspace adm_row = ''w''" "qr_HostUUID adm_row = ''u''"
    by (simp_all add: adm_row_def)
  moreover have "GetNode ''w'' ''n2'' ?st = None" by (simp add: GetNode_def adm_ctl_def)
  ultimately show ?thesis using quarantined_host_reenrolls_pending [OF _ _ _ _ _ o] e o by auto
qed

text \<open>
  C33: A region refresh undoes a quarantine.  When a control stream opens and the node's region changed,
  the record is read and written back whole in two transactions.  A quarantine that commits in between
  is overwritten: the node is approved again, while its quarantine row stays.
\<close>

theorem region_refresh_undoes_a_quarantine:
  assumes get: "GetNode ws n st = Some r" and "nr_ID r = n" and "nr_Approved r" and "nr_Region r \<noteq> canonicalRegion region"
    and "ae_commit env ReadNode" and "ae_commit env WriteNode" and c: "ae_commit env' WriteQuarantine"
    and o: "ae_others env = (\<lambda>s. snd (quarantineNode env' ws n reason actor detail s))"
  shows "(\<exists>r'. GetNode ws n (refresh_region env ws n region st) = Some r' \<and> nr_Approved r') \<and>
     has_row ws n (refresh_region env ws n region st)"
proof -
  have e: "refresh_region env ws n region st =
      PutNode ws (r\<lparr>nr_Region := canonicalRegion region\<rparr>) (snd (quarantineNode env' ws n reason actor detail st))"
    using assms by (simp add: refresh_region_def Let_def canonicalRegion_def)
  obtain q where "GetQuarantine ws n (snd (quarantineNode env' ws n reason actor detail st)) = Some q"
    "qr_Workspace q = ws" "qr_NodeID q = n"
    using quarantineNode_effect(3) [OF get c] by blast
  then have "has_row ws n (snd (quarantineNode env' ws n reason actor detail st))" by (rule row_has_row)
  then show ?thesis unfolding e using assms(2,3)
    by (simp add: PutNode_def has_row_def GetNode_def update_conv')
qed

theorem region_refresh_undoes_a_quarantine_witness:
  "\<exists>r'. GetNode ''w'' ''n1'' (refresh_region (adm_demo\<lparr>ae_others := \<lambda>s. snd (quarantineNode adm_demo ''w'' ''n1'' ''manual'' ''root'' [] s)\<rparr>)
     ''w'' ''n1'' ''eu'' adm_ctl) = Some r' \<and> nr_Approved r'"
  using region_refresh_undoes_a_quarantine [OF adm_get, of "''eu''"
      "adm_demo\<lparr>ae_others := \<lambda>s. snd (quarantineNode adm_demo ''w'' ''n1'' ''manual'' ''root'' [] s)\<rparr>" adm_demo "''manual''" "''root''" "[]"]
  by (simp add: adm_node_def canonicalRegion_def)

text \<open>
  An approval without a reason can lift a quarantine.  The lookup that demands a reason and the
  approval are two transactions: a quarantine that commits in between is deleted by the approval,
  which reports success.
\<close>

theorem reasonless_approval_lifts_a_quarantine:
  assumes get: "GetNode ws n st = Some r" and "nr_ID node = n" and "GetQuarantine ws n st = None"
    and "ae_commit env ReadQuarantine" and "ae_commit env WriteApproval" and c: "ae_commit env' WriteQuarantine"
    and o: "ae_others env = (\<lambda>s. snd (quarantineNode env' ws n why ''system'' detail s))"
  shows "GetQuarantine ws n (ae_others env st) \<noteq> None \<and> fst (approveNodeWithReason env ws node True [] actor st) = None \<and>
     GetQuarantine ws n (snd (approveNodeWithReason env ws node True [] actor st)) = None \<and>
     (\<exists>r'. GetNode ws n (snd (approveNodeWithReason env ws node True [] actor st)) = Some r' \<and> nr_Approved r')"
proof -
  have g: "GetNode ws n (ae_others env st) = Some (deny_node r)" unfolding o by (rule quarantineNode_effect(2) [OF get c])
  have f: "fst (approveNodeWithReason env ws node True [] actor st) = None"
    using assms g by (simp add: approveNodeWithReason_def SetNodeApproval_def update_node_def Let_def)
  obtain st1 where a: "approveNodeWithReason env ws node True [] actor st = (None, st1)" using f by (cases "approveNodeWithReason env ws node True [] actor st") simp
  have "GetQuarantine ws n (ae_others env st) \<noteq> None" unfolding o using quarantineNode_effect(3) [OF get c] by fastforce
  with approve_effect [OF a assms(2) g] show ?thesis by (simp add: a)
qed

theorem reasonless_approval_lifts_a_quarantine_witness:
  "fst (approveNodeWithReason (adm_demo\<lparr>ae_others := \<lambda>s. snd (quarantineNode adm_demo ''w'' ''n1'' ''binary_tamper'' ''system'' [] s)\<rparr>)
     ''w'' adm_node True [] ''root'' adm_ctl) = None"
  using reasonless_approval_lifts_a_quarantine [OF adm_get, of adm_node
      "adm_demo\<lparr>ae_others := \<lambda>s. snd (quarantineNode adm_demo ''w'' ''n1'' ''binary_tamper'' ''system'' [] s)\<rparr>" adm_demo
      "''binary_tamper''" "[]" "''root''"]
  by (simp add: adm_node_def GetQuarantine_def adm_ctl_def demo_ctl_def)

end
