(* ===== verification/Spec2Isabelle.thy ===== *)
theory Spec2Isabelle
  imports Fleet_Adoption Agent_Gate Policy_Engine Wire_Frames Scrollback Relay_Rendezvous Updater Rollouts Audit_Chain Node_Admission
begin

text \<open>
  Geneza is a zero-trust access system.
\<close>

end
